(* ===== verification/Go_Base.thy ===== *)
theory Go_Base
  imports Main "HOL-Library.Word" "HOL-Library.Code_Target_Nat"
begin

text \<open>
  The part of the Go language and of its packages \<^verbatim>\<open>strings\<close>, \<^verbatim>\<open>errors\<close>,
  \<^verbatim>\<open>time\<close> and \<^verbatim>\<open>encoding/hex\<close> that the service uses, and the lemma
  collections the component theories share.

  A Go \<^verbatim>\<open>string\<close> is an immutable sequence of bytes and is modelled by \<^typ>\<open>string\<close> (an
  Isabelle \<^typ>\<open>char\<close> is one of 256 values). A \<^verbatim>\<open>[]byte\<close> is a list of 8-bit words.
  Instants are nanoseconds since Go's zero time (1 January of year 1, UTC), so
  that the zero \<^verbatim>\<open>time.Time\<close> is \<open>0\<close>; durations are nanoseconds in the
  range of \<^verbatim>\<open>int64\<close>, with the wrap-around of negation written out.
\<close>

named_theorems go_string \<open>facts about Go strings and their library functions\<close>
named_theorems go_bytes \<open>facts about byte buffers\<close>

section \<open>Bytes and strings\<close>

type_synonym byte = "8 word"
type_synonym rune = nat
type_synonym instant = int
type_synonym duration = int

definition ord :: "char \<Rightarrow> nat" where
  "ord c = of_char c"

definition bytes_of :: "string \<Rightarrow> byte list" where
  "bytes_of s = map (\<lambda>c. word_of_nat (ord c)) s"

definition string_of :: "byte list \<Rightarrow> string" where
  "string_of bs = map (\<lambda>b. char_of (unat b)) bs"

text \<open>\<^verbatim>\<open>passwordcrypto.ZeroBytes\<close> writes 0 at every index of the buffer.\<close>

definition ZeroBytes :: "byte list \<Rightarrow> byte list" where
  "ZeroBytes buf = map (\<lambda>_. 0) buf"

definition zeroed :: "byte list \<Rightarrow> bool" where
  "zeroed buf \<longleftrightarrow> (\<forall>b \<in> set buf. b = 0)"

section \<open>Package strings\<close>

text \<open>
  \<^verbatim>\<open>strings.TrimSpace\<close> removes Unicode white space at both ends. The runes for which
  \<^verbatim>\<open>unicode.IsSpace\<close> holds are few; \<open>space_encodings\<close> lists their UTF-8
  encodings: U+0009 to U+000D, U+0020, U+0085, U+00A0, U+1680, U+2000 to U+200A, U+2028,
  U+2029, U+202F, U+205F and U+3000.
\<close>

definition space_encodings :: "string list" where
  "space_encodings =
     map (\<lambda>c. [c]) [CHR 0x09, CHR 0x0A, CHR 0x0B, CHR 0x0C, CHR 0x0D, CHR 0x20] @
     map (\<lambda>c. [CHR 0xC2, c]) [CHR 0x85, CHR 0xA0] @
     [ [CHR 0xE1, CHR 0x9A, CHR 0x80] ] @
     map (\<lambda>c. [CHR 0xE2, CHR 0x80, c])
       [CHR 0x80, CHR 0x81, CHR 0x82, CHR 0x83, CHR 0x84, CHR 0x85, CHR 0x86, CHR 0x87,
        CHR 0x88, CHR 0x89, CHR 0x8A, CHR 0xA8, CHR 0xA9, CHR 0xAF] @
     [ [CHR 0xE2, CHR 0x81, CHR 0x9F], [CHR 0xE3, CHR 0x80, CHR 0x80] ]"

definition starts_with :: "'a list \<Rightarrow> 'a list \<Rightarrow> bool" where
  "starts_with p s \<longleftrightarrow> take (length p) s = p"

function trim_front :: "string list \<Rightarrow> string \<Rightarrow> string" where
  "trim_front encs s =
     (case find (\<lambda>e. e \<noteq> [] \<and> starts_with e s) encs of
        None \<Rightarrow> s
      | Some e \<Rightarrow> trim_front encs (drop (length e) s))"
  by pat_completeness auto
termination
proof (relation "measure (\<lambda>(encs, s). length s)", goal_cases)
  case (2 encs s e)
  then have "e \<noteq> []" and "take (length e) s = e"
    by (auto simp: find_Some_iff starts_with_def)
  then have "0 < length e" and "0 < length s" by auto
  then show ?case by simp
qed simp

declare trim_front.simps [simp del]

definition trim_back :: "string list \<Rightarrow> string \<Rightarrow> string" where
  "trim_back encs s = rev (trim_front (map rev encs) (rev s))"

definition TrimSpace :: "string \<Rightarrow> string" where
  "TrimSpace s = trim_back space_encodings (trim_front space_encodings s)"

text \<open>
  \<^verbatim>\<open>strings.TrimRight(s, "/")\<close> with a one-byte cutset, \<^verbatim>\<open>strings.HasPrefix\<close>,
  \<^verbatim>\<open>strings.HasSuffix\<close>, \<^verbatim>\<open>strings.Contains\<close>,
  \<^verbatim>\<open>strings.Split\<close> at a one-byte separator and \<^verbatim>\<open>strings.Join\<close>.
\<close>

definition TrimRightChar :: "char \<Rightarrow> string \<Rightarrow> string" where
  "TrimRightChar c s = rev (dropWhile (\<lambda>x. x = c) (rev s))"

definition HasPrefix :: "string \<Rightarrow> string \<Rightarrow> bool" where
  "HasPrefix s p \<longleftrightarrow> starts_with p s"

definition HasSuffix :: "string \<Rightarrow> string \<Rightarrow> bool" where
  "HasSuffix s p \<longleftrightarrow> starts_with (rev p) (rev s)"

fun Contains :: "string \<Rightarrow> string \<Rightarrow> bool" where
  "Contains [] p = (p = [])"
| "Contains (c # s) p = (starts_with p (c # s) \<or> Contains s p)"

fun SplitChar :: "char \<Rightarrow> string \<Rightarrow> string list" where
  "SplitChar sep [] = [ [] ]"
| "SplitChar sep (c # s) =
     (if c = sep then [] # SplitChar sep s
      else (case SplitChar sep s of [] \<Rightarrow> [ [c] ] | p # ps \<Rightarrow> (c # p) # ps))"

fun Join :: "string list \<Rightarrow> string \<Rightarrow> string" where
  "Join [] sep = []"
| "Join [s] sep = s"
| "Join (s # t # ss) sep = s @ sep @ Join (t # ss) sep"

text \<open>\<^verbatim>\<open>strings.Cut(s, sep)\<close> for a one-byte separator: before, after, found.\<close>

fun CutChar :: "char \<Rightarrow> string \<Rightarrow> string \<times> string \<times> bool" where
  "CutChar sep [] = ([], [], False)"
| "CutChar sep (c # s) =
     (if c = sep then ([], s, True)
      else (let (b, a, f) = CutChar sep s in (c # b, a, f)))"

definition is_ascii :: "string \<Rightarrow> bool" where
  "is_ascii s \<longleftrightarrow> list_all (\<lambda>c. ord c < 128) s"

definition lower_ascii :: "char \<Rightarrow> char" where
  "lower_ascii c = (if 65 \<le> ord c \<and> ord c \<le> 90 then char_of (ord c + 32) else c)"

text \<open>\<^verbatim>\<open>fmt.Sprint\<close> of a non-negative integer (decimal digits).\<close>

fun decimal :: "nat \<Rightarrow> string" where
  "decimal n = (if n < 10 then [char_of (48 + n)]
                else decimal (n div 10) @ [char_of (48 + n mod 10)])"

declare decimal.simps [simp del]

definition decimal_int :: "int \<Rightarrow> string" where
  "decimal_int i = (if i < 0 then CHR ''-'' # decimal (nat (- i)) else decimal (nat i))"

section \<open>Package encoding/hex\<close>

definition hexChar :: "nat \<Rightarrow> char" where
  "hexChar n = (if n < 10 then char_of (48 + n) else char_of (87 + n))"

definition hex_EncodeToString :: "byte list \<Rightarrow> string" where
  "hex_EncodeToString bs = concat (map (\<lambda>b. [hexChar (unat b div 16), hexChar (unat b mod 16)]) bs)"

definition fromHexChar :: "char \<Rightarrow> nat option" where
  "fromHexChar c =
     (let n = ord c in
      if 48 \<le> n \<and> n \<le> 57 then Some (n - 48)
      else if 97 \<le> n \<and> n \<le> 102 then Some (n - 97 + 10)
      else if 65 \<le> n \<and> n \<le> 70 then Some (n - 65 + 10)
      else None)"

fun hex_DecodeString :: "string \<Rightarrow> byte list option" where
  "hex_DecodeString [] = Some []"
| "hex_DecodeString [c] = None"
| "hex_DecodeString (c # d # s) =
     (case (fromHexChar c, fromHexChar d, hex_DecodeString s) of
        (Some a, Some b, Some bs) \<Rightarrow> Some (word_of_nat (16 * a + b) # bs)
      | _ \<Rightarrow> None)"

section \<open>Errors\<close>

text \<open>
  A Go error value: the sentinel errors of package \<^verbatim>\<open>migration\<close>, the context error,
  leaves made by \<^verbatim>\<open>errors.New\<close>, leaves made by \<^verbatim>\<open>fmt.Errorf\<close> from a
  prefix and an argument printed with \<^verbatim>\<open>%q\<close>, wrapping by \<^verbatim>\<open>fmt.Errorf\<close> with \<^verbatim>\<open>%w\<close>,
  \<^verbatim>\<open>errors.Join\<close>, and the typed errors of packages \<^verbatim>\<open>worker\<close> and \<^verbatim>\<open>graphclient\<close>. Errors of
  other packages are an \<^verbatim>\<open>azcore.ResponseError\<close> with its status, its code and its message, or
  have a type name and a message.
\<close>

datatype goerror =
    ErrExternalIdentity
  | ErrUnknownIdentity
  | ErrInvalidEventType
  | ContextCanceled
  | ErrorString string
  | QuotedError string string
  | QuotedPairError string string string string
  | Wrapped string goerror
  | Joined "goerror list"
  | WorkerPermanentError string "goerror option"
  | GraphPermanentError int string "goerror option"
  | GraphTransientError int string "goerror option"
  | AzureResponseError int string string
  | ForeignError string string

text \<open>\<^verbatim>\<open>errors.Is\<close> against a sentinel and \<^verbatim>\<open>errors.As\<close> against a type follow the wrapping chain.\<close>

fun errors_any :: "(goerror \<Rightarrow> bool) \<Rightarrow> goerror \<Rightarrow> bool" where
  "errors_any P (Wrapped s e) = (P (Wrapped s e) \<or> errors_any P e)"
| "errors_any P (Joined es) = (P (Joined es) \<or> list_ex (errors_any P) es)"
| "errors_any P (WorkerPermanentError r (Some e)) =
     (P (WorkerPermanentError r (Some e)) \<or> errors_any P e)"
| "errors_any P (GraphPermanentError c op (Some e)) =
     (P (GraphPermanentError c op (Some e)) \<or> errors_any P e)"
| "errors_any P (GraphTransientError c op (Some e)) =
     (P (GraphTransientError c op (Some e)) \<or> errors_any P e)"
| "errors_any P e = P e"

text \<open>The first error of the chain, in preorder, that \<^verbatim>\<open>errors.As\<close> assigns.\<close>

fun first_some :: "'a option list \<Rightarrow> 'a option" where
  "first_some [] = None"
| "first_some (None # xs) = first_some xs"
| "first_some (Some x # xs) = Some x"

fun errors_find :: "(goerror \<Rightarrow> bool) \<Rightarrow> goerror \<Rightarrow> goerror option" where
  "errors_find P (Wrapped s e) = (if P (Wrapped s e) then Some (Wrapped s e) else errors_find P e)"
| "errors_find P (Joined es) =
     (if P (Joined es) then Some (Joined es)
      else first_some (map (errors_find P) es))"
| "errors_find P (WorkerPermanentError r (Some e)) =
     (if P (WorkerPermanentError r (Some e)) then Some (WorkerPermanentError r (Some e)) else errors_find P e)"
| "errors_find P (GraphPermanentError c op (Some e)) =
     (if P (GraphPermanentError c op (Some e)) then Some (GraphPermanentError c op (Some e))
      else errors_find P e)"
| "errors_find P (GraphTransientError c op (Some e)) =
     (if P (GraphTransientError c op (Some e)) then Some (GraphTransientError c op (Some e))
      else errors_find P e)"
| "errors_find P e = (if P e then Some e else None)"

definition errors_Is :: "goerror \<Rightarrow> goerror \<Rightarrow> bool" where
  "errors_Is e target = errors_any (\<lambda>x. x = target) e"

fun is_worker_permanent :: "goerror \<Rightarrow> bool" where
  "is_worker_permanent (WorkerPermanentError r e) = True"
| "is_worker_permanent _ = False"

fun is_graph_permanent :: "goerror \<Rightarrow> bool" where
  "is_graph_permanent (GraphPermanentError c op e) = True"
| "is_graph_permanent _ = False"

definition errors_Join :: "goerror option list \<Rightarrow> goerror option" where
  "errors_Join es = (let ns = List.map_filter id es in if ns = [] then None else Some (Joined ns))"

text \<open>
  \<^verbatim>\<open>Error()\<close> of each of them; \<open>graphErrorString\<close> renders the two typed errors of package
  \<^verbatim>\<open>graphclient\<close>. The receiver of a typed error is never nil in this model. The argument
  \<open>quote\<close> is \<^verbatim>\<open>strconv.Quote\<close>.
\<close>

definition graphErrorString :: "string \<Rightarrow> int \<Rightarrow> string \<Rightarrow> string option \<Rightarrow> string" where
  "graphErrorString prefix statusCode operation err =
     prefix
     @ (if operation \<noteq> [] then '' during '' @ operation else [])
     @ (if statusCode \<noteq> 0 then '': status '' @ decimal_int statusCode else [])
     @ (case err of None \<Rightarrow> [] | Some e \<Rightarrow> '': '' @ e)"

fun error_string :: "(string \<Rightarrow> string) \<Rightarrow> goerror \<Rightarrow> string" where
  "error_string quote ErrExternalIdentity = ''external email identities are not migrated in phase 1''"
| "error_string quote ErrUnknownIdentity = ''cn is not a supported phase 1 identity''"
| "error_string quote ErrInvalidEventType = ''migration: invalid event type''"
| "error_string quote ContextCanceled = ''context canceled''"
| "error_string quote (ErrorString s) = s"
| "error_string quote (QuotedError s x) = s @ quote x"
| "error_string quote (QuotedPairError s x s' x') = s @ quote x @ s' @ quote x'"
| "error_string quote (Wrapped s e) = s @ error_string quote e"
| "error_string quote (Joined es) = Join (map (error_string quote) es) [CHR 0x0A]"
| "error_string quote (WorkerPermanentError r None) = r"
| "error_string quote (WorkerPermanentError r (Some e)) =
     (if TrimSpace r = [] then error_string quote e else r @ '': '' @ error_string quote e)"
| "error_string quote (GraphPermanentError c op None) = graphErrorString ''permanent graph error'' c op None"
| "error_string quote (GraphPermanentError c op (Some e)) =
     graphErrorString ''permanent graph error'' c op (Some (error_string quote e))"
| "error_string quote (GraphTransientError c op None) = graphErrorString ''transient graph error'' c op None"
| "error_string quote (GraphTransientError c op (Some e)) =
     graphErrorString ''transient graph error'' c op (Some (error_string quote e))"
| "error_string quote (AzureResponseError status code message) = message"
| "error_string quote (ForeignError ty message) = message"

text \<open>The name of the dynamic type, as \<^verbatim>\<open>%T\<close> prints it.\<close>

fun error_type :: "goerror \<Rightarrow> string" where
  "error_type (Wrapped s e) = ''*fmt.wrapError''"
| "error_type (Joined es) = ''*errors.joinError''"
| "error_type (WorkerPermanentError r e) = ''*worker.PermanentError''"
| "error_type (GraphPermanentError c op e) = ''*graphclient.PermanentError''"
| "error_type (GraphTransientError c op e) = ''*graphclient.TransientError''"
| "error_type (AzureResponseError status code message) = ''*exported.ResponseError''"
| "error_type (ForeignError ty message) = ty"
| "error_type _ = ''*errors.errorString''"

text \<open>What a call that may panic does.\<close>

datatype 'a outcome = Returned 'a | Panicked string

section \<open>Package time\<close>

definition second_ns :: int where "second_ns = 1000000000"
definition millisecond_ns :: int where "millisecond_ns = 1000000"

definition maxDuration :: duration where "maxDuration = 2 ^ 63 - 1"
definition minDuration :: duration where "minDuration = - (2 ^ 63)"

text \<open>Two's complement wrap-around at 64 bits.\<close>

definition wrap64 :: "int \<Rightarrow> int" where
  "wrap64 x = (x + 2 ^ 63) mod 2 ^ 64 - 2 ^ 63"

text \<open>
  \<^verbatim>\<open>Time.Sub\<close> saturates at the least and the greatest \<^verbatim>\<open>Duration\<close>;
  \<^verbatim>\<open>time.Unix(sec, 0)\<close> adds the offset of the Unix epoch to the seconds in 64-bit
  arithmetic.
\<close>

definition time_Sub :: "instant \<Rightarrow> instant \<Rightarrow> duration" where
  "time_Sub t u = (if t - u < minDuration then minDuration
                   else if maxDuration < t - u then maxDuration else t - u)"

text \<open>\<^verbatim>\<open>Duration.Milliseconds\<close>: division truncated toward zero.\<close>

definition duration_Milliseconds :: "duration \<Rightarrow> int" where
  "duration_Milliseconds d = (if 0 \<le> d then d div millisecond_ns else - ((- d) div millisecond_ns))"

definition unixToInternal :: int where "unixToInternal = 62135596800"

definition time_Unix :: "int \<Rightarrow> instant" where
  "time_Unix sec = wrap64 (sec + unixToInternal) * second_ns"

section \<open>Lemmas\<close>

subsection \<open>Bytes and strings\<close>

lemma unat_byte_less [simp, go_bytes]: "unat (b :: byte) < 256"
  using unsigned_less [of b] by simp

lemma unat_word_of_nat_byte [simp, go_bytes]: "n < 256 \<Longrightarrow> unat (word_of_nat n :: byte) = n"
  by (simp add: unat_of_nat)

lemma ord_less [simp, go_string]: "ord c < 256"
  by (simp add: ord_def)

lemma char_of_ord [simp, go_string]: "char_of (ord c) = c"
  by (simp add: ord_def)

lemma ord_char_of [simp, go_string]: "n < 256 \<Longrightarrow> ord (char_of n) = n"
  by (simp add: ord_def)

lemma ord_eq_iff [go_string]: "ord c = ord d \<longleftrightarrow> c = d"
  by (simp add: ord_def)

lemma string_of_bytes_of [simp, go_string]: "string_of (bytes_of s) = s"
proof -
  have "char_of (unat (word_of_nat (ord c) :: byte)) = c" for c
    by simp
  then show ?thesis by (simp add: bytes_of_def string_of_def comp_def map_idI)
qed

lemma bytes_of_string_of [simp, go_string]: "bytes_of (string_of bs) = bs"
proof -
  have "word_of_nat (ord (char_of (unat b))) = b" for b :: byte
    by simp
  then show ?thesis by (simp add: bytes_of_def string_of_def comp_def map_idI)
qed

lemma bytes_of_append [simp, go_string]: "bytes_of (s @ t) = bytes_of s @ bytes_of t"
  by (simp add: bytes_of_def)

lemma bytes_of_inj [go_string]: "bytes_of s = bytes_of t \<longleftrightarrow> s = t"
  by (metis string_of_bytes_of)

lemma zeroed_ZeroBytes [simp, go_bytes]: "zeroed (ZeroBytes buf)"
  by (simp add: zeroed_def ZeroBytes_def)

lemma length_ZeroBytes [simp, go_bytes]: "length (ZeroBytes buf) = length buf"
  by (simp add: ZeroBytes_def)

lemma zeroed_replicate [go_bytes]: "zeroed buf \<longleftrightarrow> buf = replicate (length buf) 0"
  by (induction buf) (auto simp: zeroed_def)

subsection \<open>Trimming\<close>

lemma starts_with_append [go_string]: "starts_with p (p @ s)"
  by (simp add: starts_with_def)

lemma starts_with_iff [go_string]: "starts_with p s \<longleftrightarrow> (\<exists>r. s = p @ r)"
  by (metis append_eq_conv_conj append_take_drop_id starts_with_def)

lemma trim_front_stop: "find (\<lambda>e. e \<noteq> [] \<and> starts_with e s) encs = None \<Longrightarrow> trim_front encs s = s"
  by (simp add: trim_front.simps)

lemma trim_front_done:
  "find (\<lambda>e. e \<noteq> [] \<and> starts_with e (trim_front encs s)) encs = None"
proof (induction encs s rule: trim_front.induct)
  case (1 encs s)
  show ?case
  proof (cases "find (\<lambda>e. e \<noteq> [] \<and> starts_with e s) encs")
    case None
    then show ?thesis by (simp add: trim_front_stop)
  next
    case (Some e)
    then show ?thesis using "1" by (simp add: trim_front.simps [of encs s])
  qed
qed

lemma trim_front_suffix: "\<exists>p. s = p @ trim_front encs s"
proof (induction encs s rule: trim_front.induct)
  case (1 encs s)
  show ?case
  proof (cases "find (\<lambda>e. e \<noteq> [] \<and> starts_with e s) encs")
    case None
    then show ?thesis by (simp add: trim_front_stop)
  next
    case (Some e)
    with "1" obtain p where "drop (length e) s = p @ trim_front encs (drop (length e) s)"
      by blast
    then have "s = (take (length e) s @ p) @ trim_front encs (drop (length e) s)"
      by (metis append.assoc append_take_drop_id)
    then have "\<exists>p. s = p @ trim_front encs (drop (length e) s)" ..
    with Some show ?thesis by (simp add: trim_front.simps [of encs s])
  qed
qed

lemma trim_back_prefix: "\<exists>q. s = trim_back encs s @ q"
proof -
  obtain p where "rev s = p @ trim_front (map rev encs) (rev s)"
    using trim_front_suffix by blast
  then have "s = trim_back encs s @ rev p"
    by (metis trim_back_def rev_append rev_rev_ident)
  then show ?thesis ..
qed

lemma trim_front_idem [simp]: "trim_front encs (trim_front encs s) = trim_front encs s"
  by (rule trim_front_stop [OF trim_front_done])

lemma trim_back_idem [simp]: "trim_back encs (trim_back encs s) = trim_back encs s"
  by (simp add: trim_back_def)

lemma trim_front_trim_back:
  assumes "trim_front encs s = s"
  shows "trim_front encs (trim_back encs s) = trim_back encs s"
proof (rule trim_front_stop)
  obtain q where q: "s = trim_back encs s @ q" using trim_back_prefix by blast
  have none: "find (\<lambda>e. e \<noteq> [] \<and> starts_with e s) encs = None"
    using trim_front_done [of encs s] assms by simp
  have "starts_with e (trim_back encs s) \<Longrightarrow> starts_with e s" for e
    using q by (metis append.assoc starts_with_iff)
  with none show "find (\<lambda>e. e \<noteq> [] \<and> starts_with e (trim_back encs s)) encs = None"
    by (auto simp: find_None_iff)
qed

text \<open>Trimming twice is trimming once: callers trim values that were trimmed before.\<close>

lemma TrimSpace_idem [simp, go_string]: "TrimSpace (TrimSpace s) = TrimSpace s"
  by (simp add: TrimSpace_def trim_front_trim_back)

lemma TrimSpace_infix: "\<exists>p q. s = p @ TrimSpace s @ q"
proof -
  obtain p where p: "s = p @ trim_front space_encodings s"
    using trim_front_suffix by blast
  obtain q where "trim_front space_encodings s = TrimSpace s @ q"
    using trim_back_prefix unfolding TrimSpace_def by blast
  with p show ?thesis by metis
qed

lemma TrimSpace_Nil [simp, go_string]: "TrimSpace [] = []"
  using TrimSpace_infix [of "[]"] by simp

lemma Contains_iff [go_string]: "Contains s p \<longleftrightarrow> (\<exists>u v. s = u @ p @ v)"
proof (induction s)
  case (Cons c s)
  have "(\<exists>u v. c # s = u @ p @ v) \<longleftrightarrow> starts_with p (c # s) \<or> (\<exists>u v. s = u @ p @ v)"
    by (auto simp: starts_with_iff Cons_eq_append_conv)
  with Cons show ?case by simp
qed simp

lemma Contains_singleton [go_string]: "Contains s [c] \<longleftrightarrow> c \<in> set s"
  by (auto simp: Contains_iff in_set_conv_decomp)

lemma SplitChar_not_Nil [simp, go_string]: "SplitChar sep s \<noteq> []"
  by (cases s) (auto split: list.splits)

lemma CutChar_notin: "sep \<notin> set s \<Longrightarrow> CutChar sep (s @ sep # t) = (s, t, True)"
  by (induction s) auto

subsection \<open>Hexadecimal\<close>

lemma fromHexChar_hexChar [simp, go_string]: "n < 16 \<Longrightarrow> fromHexChar (hexChar n) = Some n"
  by (simp add: fromHexChar_def hexChar_def Let_def)

lemma hex_roundtrip [simp, go_string]: "hex_DecodeString (hex_EncodeToString bs) = Some bs"
proof (induction bs)
  case (Cons b bs)
  have "unat b div 16 < 16" "unat b mod 16 < 16"
    using unat_byte_less [of b] by (auto simp: less_mult_imp_div_less)
  moreover have "16 * (unat b div 16) + unat b mod 16 = unat b" by simp
  ultimately show ?case using Cons
    by (simp add: hex_EncodeToString_def)
qed (simp add: hex_EncodeToString_def)

subsection \<open>Durations\<close>

lemma time_Sub_exact:
  "minDuration \<le> t - u \<Longrightarrow> t - u \<le> maxDuration \<Longrightarrow> time_Sub t u = t - u"
  by (simp add: time_Sub_def)

lemma time_Sub_range: "minDuration \<le> time_Sub t u \<and> time_Sub t u \<le> maxDuration"
  by (simp add: time_Sub_def minDuration_def maxDuration_def)

lemma wrap64_exact: "- (2 ^ 63) \<le> x \<Longrightarrow> x < 2 ^ 63 \<Longrightarrow> wrap64 x = x"
  by (simp add: wrap64_def)

subsection \<open>Separators\<close>

lemma first_separator_unique:
  "a \<notin> set xs \<Longrightarrow> a \<notin> set xs' \<Longrightarrow> xs @ a # ys = xs' @ a # ys' \<longleftrightarrow> xs = xs' \<and> ys = ys'"
proof (induction xs arbitrary: xs')
  case Nil
  then show ?case by (cases xs') auto
next
  case (Cons x xs)
  then show ?case by (cases xs') auto
qed

lemma last_separator_unique:
  "a \<notin> set ys \<Longrightarrow> a \<notin> set ys' \<Longrightarrow> xs @ a # ys = xs' @ a # ys' \<longleftrightarrow> xs = xs' \<and> ys = ys'"
  using first_separator_unique [of a "rev ys" "rev ys'" "rev xs" "rev xs'"]
    rev_is_rev_conv [of "xs @ a # ys" "xs' @ a # ys'"] by auto

subsection \<open>Error chains\<close>

lemma first_some_None: "first_some xs = None \<longleftrightarrow> (\<forall>x \<in> set xs. x = None)"
  by (induction xs rule: first_some.induct) auto

lemma first_some_Some: "first_some xs = Some y \<Longrightarrow> Some y \<in> set xs"
  by (induction xs rule: first_some.induct) auto

lemma errors_find_None: "errors_find P e = None \<longleftrightarrow> \<not> errors_any P e"
  by (induction P e rule: errors_find.induct) (auto simp: first_some_None list_ex_iff)

lemma errors_find_Some: "errors_find P e = Some x \<Longrightarrow> P x"
proof (induction P e rule: errors_find.induct)
  case (2 P es)
  show ?case
  proof (cases "P (Joined es)")
    case False
    with 2(2) have "Some x \<in> set (map (errors_find P) es)" by (intro first_some_Some) simp
    with 2(1) False show ?thesis by auto
  qed (use 2 in auto)
qed (auto split: if_splits)

end
