(* ===== verification/Go_Utf8.thy ===== *)
theory Go_Utf8
  imports Go_Base
begin

text \<open>
  The functions of Go's packages \<^verbatim>\<open>unicode/utf8\<close>, \<^verbatim>\<open>unicode/utf16\<close> and
  \<^verbatim>\<open>unicode\<close> that the service calls, with the lemmas that decoding and encoding are
  inverse on well-formed text.

  A rune is a natural number: \<^verbatim>\<open>DecodeRune\<close> returns no negative rune. The bit
  operations on the payload bits of a byte are written with \<open>mod\<close> and multiplication by
  powers of two. The Unicode tables beyond ASCII (letters, digits, lower case) are data
  that the Go distribution generates; they are the fields of a parameter \<open>unicode_tables\<close>,
  while the ASCII range is fixed.
\<close>

definition RuneError :: rune where "RuneError = 0xFFFD"
definition RuneSelf :: nat where "RuneSelf = 0x80"
definition MaxRune :: rune where "MaxRune = 0x10FFFF"

text \<open>\<^verbatim>\<open>utf16.IsSurrogate\<close> and \<^verbatim>\<open>utf16.DecodeRune\<close>.\<close>

definition utf16_IsSurrogate :: "rune \<Rightarrow> bool" where
  "utf16_IsSurrogate r \<longleftrightarrow> 0xD800 \<le> r \<and> r < 0xE000"

definition utf16_DecodeRune :: "rune \<Rightarrow> rune \<Rightarrow> rune" where
  "utf16_DecodeRune r1 r2 =
     (if 0xD800 \<le> r1 \<and> r1 < 0xDC00 \<and> 0xDC00 \<le> r2 \<and> r2 < 0xE000
      then (r1 - 0xD800) * 1024 + (r2 - 0xDC00) + 0x10000 else RuneError)"

definition valid_rune :: "rune \<Rightarrow> bool" where
  "valid_rune r \<longleftrightarrow> r < 0xD800 \<or> (0xE000 \<le> r \<and> r \<le> MaxRune)"

text \<open>The bytes \<^verbatim>\<open>utf8.AppendRune\<close> appends: an invalid rune is encoded as U+FFFD.\<close>

definition rune_codes :: "rune \<Rightarrow> nat list" where
  "rune_codes r =
     (if r < 0x80 then [r]
      else if r < 0x800 then [0xC0 + r div 64, 0x80 + r mod 64]
      else if r < 0x10000 then [0xE0 + r div 4096, 0x80 + r div 64 mod 64, 0x80 + r mod 64]
      else [0xF0 + r div 262144, 0x80 + r div 4096 mod 64, 0x80 + r div 64 mod 64,
            0x80 + r mod 64])"

definition EncodeRune :: "rune \<Rightarrow> byte list" where
  "EncodeRune r = map word_of_nat (rune_codes (if valid_rune r then r else RuneError))"

text \<open>
  The tables \<^verbatim>\<open>first\<close> and \<^verbatim>\<open>acceptRanges\<close>: for a first byte above ASCII, the
  length of the sequence and the range of its second byte.
\<close>

definition utf8_first :: "nat \<Rightarrow> (nat \<times> nat \<times> nat) option" where
  "utf8_first x =
     (if 0xC2 \<le> x \<and> x \<le> 0xDF then Some (2, 0x80, 0xBF)
      else if x = 0xE0 then Some (3, 0xA0, 0xBF)
      else if x = 0xED then Some (3, 0x80, 0x9F)
      else if 0xE1 \<le> x \<and> x \<le> 0xEF then Some (3, 0x80, 0xBF)
      else if x = 0xF0 then Some (4, 0x90, 0xBF)
      else if 0xF1 \<le> x \<and> x \<le> 0xF3 then Some (4, 0x80, 0xBF)
      else if x = 0xF4 then Some (4, 0x80, 0x8F)
      else None)"

definition cont :: "nat \<Rightarrow> bool" where
  "cont b \<longleftrightarrow> 0x80 \<le> b \<and> b \<le> 0xBF"

text \<open>\<^verbatim>\<open>utf8.DecodeRune\<close>, on the values of the bytes.\<close>

definition decode_multi :: "nat \<Rightarrow> nat list \<Rightarrow> rune \<times> nat" where
  "decode_multi x rest =
     (case utf8_first x of
        None \<Rightarrow> (RuneError, 1)
      | Some (sz, lo, hi) \<Rightarrow>
          (case rest of
             [] \<Rightarrow> (RuneError, 1)
           | b1 # rest1 \<Rightarrow>
               if length rest < sz - 1 \<or> b1 < lo \<or> hi < b1 then (RuneError, 1)
               else if sz \<le> 2 then (x mod 32 * 64 + b1 mod 64, 2)
               else (case rest1 of
                       [] \<Rightarrow> (RuneError, 1)
                     | b2 # rest2 \<Rightarrow>
                         if \<not> cont b2 then (RuneError, 1)
                         else if sz \<le> 3 then (x mod 16 * 4096 + b1 mod 64 * 64 + b2 mod 64, 3)
                         else (case rest2 of
                                 [] \<Rightarrow> (RuneError, 1)
                               | b3 # rest3 \<Rightarrow>
                                   if \<not> cont b3 then (RuneError, 1)
                                   else (x mod 8 * 262144 + b1 mod 64 * 4096 + b2 mod 64 * 64
                                           + b3 mod 64, 4)))))"

fun decode_codes :: "nat list \<Rightarrow> rune \<times> nat" where
  "decode_codes [] = (RuneError, 0)"
| "decode_codes (x # rest) = (if x < 0x80 then (x, 1) else decode_multi x rest)"

definition DecodeRune :: "byte list \<Rightarrow> rune \<times> nat" where
  "DecodeRune p = decode_codes (map unat p)"

lemma decode_codes_size:
  "p \<noteq> [] \<Longrightarrow> decode_codes p = (r, n) \<Longrightarrow> 1 \<le> n \<and> n \<le> length p \<and> n \<le> 4"
  by (cases p) (auto simp: decode_multi_def split: if_splits option.splits list.splits)

lemma DecodeRune_size:
  "p \<noteq> [] \<Longrightarrow> DecodeRune p = (r, n) \<Longrightarrow> 1 \<le> n \<and> n \<le> length p \<and> n \<le> 4"
  using decode_codes_size [of "map unat p" r n] by (simp add: DecodeRune_def)

text \<open>The runes (with their widths) that a \<^verbatim>\<open>for range\<close> loop over a string visits.\<close>

function decode_all :: "byte list \<Rightarrow> (rune \<times> nat) list" where
  "decode_all p = (if p = [] then []
                   else DecodeRune p # decode_all (drop (snd (DecodeRune p)) p))"
  by pat_completeness auto
termination
proof (relation "measure length", goal_cases)
  case (2 p)
  obtain r n where rn: "DecodeRune p = (r, n)" by fastforce
  with DecodeRune_size [OF 2 rn] 2 show ?case by simp
qed simp

declare decode_all.simps [simp del]

definition runes :: "string \<Rightarrow> rune list" where
  "runes s = map fst (decode_all (bytes_of s))"

definition valid_utf8 :: "byte list \<Rightarrow> bool" where
  "valid_utf8 p \<longleftrightarrow> list_all (\<lambda>(r, n). r \<noteq> RuneError \<or> n \<noteq> 1) (decode_all p)"

text \<open>Package \<^verbatim>\<open>unicode\<close>: ASCII is fixed, the rest is a table.\<close>

record unicode_tables =
  tblLetter :: "rune \<Rightarrow> bool"
  tblDigit :: "rune \<Rightarrow> bool"
  tblLower :: "rune \<Rightarrow> rune"

definition unicode_IsDigit :: "unicode_tables \<Rightarrow> rune \<Rightarrow> bool" where
  "unicode_IsDigit U r = (if r < 0x80 then 0x30 \<le> r \<and> r \<le> 0x39 else tblDigit U r)"

definition unicode_IsLetter :: "unicode_tables \<Rightarrow> rune \<Rightarrow> bool" where
  "unicode_IsLetter U r =
     (if r < 0x80 then (0x41 \<le> r \<and> r \<le> 0x5A) \<or> (0x61 \<le> r \<and> r \<le> 0x7A) else tblLetter U r)"

definition unicode_ToLower :: "unicode_tables \<Rightarrow> rune \<Rightarrow> rune" where
  "unicode_ToLower U r =
     (if r < 0x80 then (if 0x41 \<le> r \<and> r \<le> 0x5A then r + 32 else r) else tblLower U r)"

text \<open>
  \<^verbatim>\<open>strings.ToLower\<close>: a byte map on ASCII strings, otherwise rune by rune; an invalid
  byte becomes the encoding of U+FFFD, as in \<^verbatim>\<open>strings.Map\<close>.
\<close>

definition ToLower :: "unicode_tables \<Rightarrow> string \<Rightarrow> string" where
  "ToLower U s =
     (if is_ascii s then map lower_ascii s
      else string_of (concat (map (\<lambda>r. EncodeRune (unicode_ToLower U r)) (runes s))))"

text \<open>The tables of a build without entries beyond ASCII, used by closed examples.\<close>

definition ascii_tables :: unicode_tables where
  "ascii_tables = \<lparr>tblLetter = (\<lambda>_. False), tblDigit = (\<lambda>_. False), tblLower = (\<lambda>r. r)\<rparr>"

section \<open>Decoding inverts encoding\<close>

lemma valid_rune_RuneError [simp]: "valid_rune RuneError"
  by (simp add: valid_rune_def RuneError_def MaxRune_def)

lemma rune_codes_byte: "valid_rune r \<Longrightarrow> \<forall>c \<in> set (rune_codes r). c < 256"
  by (auto simp: rune_codes_def valid_rune_def MaxRune_def)

lemma map_unat_EncodeRune:
  "map unat (EncodeRune r) = rune_codes (if valid_rune r then r else RuneError)"
proof -
  let ?r = "if valid_rune r then r else RuneError"
  have "\<forall>c \<in> set (rune_codes ?r). c < 256" by (rule rune_codes_byte) simp
  then have "map (unat \<circ> (word_of_nat :: nat \<Rightarrow> byte)) (rune_codes ?r) = rune_codes ?r"
    by (intro map_idI) auto
  then show ?thesis by (simp add: EncodeRune_def)
qed

lemma payload_bits:
  "(128 + n mod 64) mod 64 = n mod (64::nat)"
  "n < 32 \<Longrightarrow> (192 + n) mod 32 = (n::nat)"
  "n < 16 \<Longrightarrow> (224 + n) mod 16 = (n::nat)"
  "n < 8 \<Longrightarrow> (240 + n) mod 8 = (n::nat)"
  using mod_mult_self4 [of 64 2 "n mod 64"] mod_mult_self4 [of 32 6 n]
    mod_mult_self4 [of 16 14 n] mod_mult_self4 [of 8 30 n] by simp_all

text \<open>The base-64 digits of a code point.\<close>

lemma digits2: "r div 4096 * 64 + r div 64 mod 64 = (r::nat) div 64"
  using div_mult_mod_eq [of "r div 64" 64] by (simp add: div_mult2_eq [symmetric])

lemma digits2': "r div 262144 * 64 + r div 4096 mod 64 = (r::nat) div 4096"
  using div_mult_mod_eq [of "r div 4096" 64] by (simp add: div_mult2_eq [symmetric])

lemma digits3: "r div 4096 * 4096 + r div 64 mod 64 * 64 + r mod 64 = (r::nat)"
  using digits2 [of r] div_mult_mod_eq [of r 64] by linarith

lemma digits4:
  "r div 262144 * 262144 + r div 4096 mod 64 * 4096 + r div 64 mod 64 * 64 + r mod 64 = (r::nat)"
  using digits2' [of r] digits3 [of r] by linarith

lemma cont_payload [simp]: "cont (0x80 + n mod 64)"
proof -
  have "n mod 64 < 64" by simp
  then show ?thesis unfolding cont_def by linarith
qed

lemma decode_rune_codes:
  assumes "valid_rune r"
  shows "decode_codes (rune_codes r @ xs) = (r, length (rune_codes r))"
proof -
  consider "r < 0x80" | "0x80 \<le> r" "r < 0x800" | "0x800 \<le> r" "r < 0x10000"
    | "0x10000 \<le> r" by linarith
  then show ?thesis
  proof cases
    case 1
    then show ?thesis by (simp add: rune_codes_def)
  next
    case 2
    then have "2 \<le> r div 64" "r div 64 < 32" by auto
    moreover have "r mod 64 < 64" by simp
    ultimately show ?thesis using 2
      by (simp add: rune_codes_def decode_multi_def utf8_first_def payload_bits)
  next
    case 3
    let ?a = "r div 4096" and ?b = "r div 64 mod 64" and ?c = "r mod 64"
    have first: "utf8_first (0xE0 + ?a) = Some (3, lo, hi) \<Longrightarrow> lo \<le> 0x80 + ?b \<and> 0x80 + ?b \<le> hi"
      for lo hi
    proof -
      assume "utf8_first (0xE0 + ?a) = Some (3, lo, hi)"
      moreover have "32 \<le> r div 64" using 3 by linarith
      then have "?a = 0 \<Longrightarrow> 0x20 \<le> ?b" using digits2 [of r] by linarith
      moreover have "r < 0xE000 \<Longrightarrow> r div 64 < 864"
        using assms 3 unfolding valid_rune_def by linarith
      then have "?a = 13 \<Longrightarrow> ?b < 0x20"
        using digits2 [of r] digits3 [of r] by linarith
      moreover have "?b < 64" by simp
      ultimately show ?thesis by (auto simp: utf8_first_def split: if_splits)
    qed
    have "?a < 16" using 3 by auto
    then have "\<exists>lo hi. utf8_first (0xE0 + ?a) = Some (3, lo, hi)"
      by (auto simp: utf8_first_def)
    then obtain lo hi where lh: "utf8_first (0xE0 + ?a) = Some (3, lo, hi)" by blast
    with first [OF lh] \<open>?a < 16\<close> 3 show ?thesis
      by (simp add: rune_codes_def decode_multi_def payload_bits digits3 not_less)
  next
    case 4
    let ?a = "r div 262144" and ?b = "r div 4096 mod 64"
    have le: "r \<le> 0x10FFFF" using assms 4 by (simp add: valid_rune_def MaxRune_def)
    then have "?a < 5" by auto
    have first: "utf8_first (0xF0 + ?a) = Some (4, lo, hi) \<Longrightarrow> lo \<le> 0x80 + ?b \<and> 0x80 + ?b \<le> hi"
      for lo hi
    proof -
      assume "utf8_first (0xF0 + ?a) = Some (4, lo, hi)"
      moreover have "16 \<le> r div 4096" using 4 by linarith
      then have "?a = 0 \<Longrightarrow> 0x10 \<le> ?b" using digits2' [of r] by linarith
      moreover have "r div 4096 < 272" using le by linarith
      then have "?a = 4 \<Longrightarrow> ?b < 0x10" using digits2' [of r] by linarith
      moreover have "?b < 64" by simp
      ultimately show ?thesis by (auto simp: utf8_first_def split: if_splits)
    qed
    have "\<exists>lo hi. utf8_first (0xF0 + ?a) = Some (4, lo, hi)"
      using \<open>?a < 5\<close> by (auto simp: utf8_first_def)
    then obtain lo hi where lh: "utf8_first (0xF0 + ?a) = Some (4, lo, hi)" by blast
    with first [OF lh] \<open>?a < 5\<close> 4 show ?thesis
      by (simp add: rune_codes_def decode_multi_def payload_bits digits4 not_less)
  qed
qed

lemma DecodeRune_EncodeRune [simp]:
  "valid_rune r \<Longrightarrow> DecodeRune (EncodeRune r @ xs) = (r, length (EncodeRune r))"
  using decode_rune_codes [of r "map unat xs"] map_unat_EncodeRune [of r]
  by (simp add: DecodeRune_def) (metis length_map)

section \<open>Encoding inverts decoding\<close>

lemma bits_of_sum2:
  "b < 64 \<Longrightarrow> (a * 64 + b) div 64 = (a::nat)" "b < 64 \<Longrightarrow> (a * 64 + b) mod 64 = (b::nat)"
  by simp_all

lemma bits_of_sum3:
  assumes "b < 64" "c < (64::nat)"
  shows "(a * 4096 + b * 64 + c) div 4096 = a" "(a * 4096 + b * 64 + c) div 64 = a * 64 + b"
    "(a * 4096 + b * 64 + c) mod 64 = c"
proof -
  have eq: "a * 4096 + b * 64 + c = (a * 64 + b) * 64 + c" by simp
  show d: "(a * 4096 + b * 64 + c) div 64 = a * 64 + b"
    unfolding eq using assms(2) by (rule bits_of_sum2)
  show "(a * 4096 + b * 64 + c) mod 64 = c"
    unfolding eq using assms(2) by (rule bits_of_sum2)
  have "(a * 4096 + b * 64 + c) div 64 div 64 = a"
    unfolding d using assms(1) by (rule bits_of_sum2)
  then show "(a * 4096 + b * 64 + c) div 4096 = a"
    by (simp add: div_mult2_eq [symmetric])
qed

lemma bits_of_sum4:
  assumes "b < 64" "c < 64" "d < (64::nat)"
  shows "(a * 262144 + b * 4096 + c * 64 + d) div 262144 = a"
    "(a * 262144 + b * 4096 + c * 64 + d) div 4096 = a * 64 + b"
    "(a * 262144 + b * 4096 + c * 64 + d) div 64 = (a * 64 + b) * 64 + c"
    "(a * 262144 + b * 4096 + c * 64 + d) mod 64 = d"
proof -
  have eq: "a * 262144 + b * 4096 + c * 64 + d = (a * 64 + b) * 4096 + c * 64 + d" by simp
  show "(a * 262144 + b * 4096 + c * 64 + d) div 64 = (a * 64 + b) * 64 + c"
    and "(a * 262144 + b * 4096 + c * 64 + d) mod 64 = d"
    unfolding eq using assms(2,3) by (rule bits_of_sum3)+
  show q: "(a * 262144 + b * 4096 + c * 64 + d) div 4096 = a * 64 + b"
    unfolding eq using assms(2,3) by (rule bits_of_sum3)
  have "(a * 262144 + b * 4096 + c * 64 + d) div 4096 div 64 = a"
    unfolding q using assms(1) by (rule bits_of_sum2)
  then show "(a * 262144 + b * 4096 + c * 64 + d) div 262144 = a"
    by (simp add: div_mult2_eq [symmetric])
qed

lemma cont_obtain:
  assumes "cont b" obtains c where "b = 128 + c" "c < 64" "b mod 64 = c"
proof
  show "b = 128 + (b - 128)" "b - 128 < 64" using assms by (auto simp: cont_def)
  then show "b mod 64 = b - 128"
    using mod_mult_self4 [of 64 2 "b - 128"] by simp
qed

lemma utf8_first_cont:
  "utf8_first x = Some (sz, lo, hi) \<Longrightarrow> lo \<le> b \<Longrightarrow> b \<le> hi \<Longrightarrow> cont b"
  by (auto simp: utf8_first_def cont_def split: if_splits)

lemma lead2:
  assumes "utf8_first x = Some (2, lo, hi)"
  obtains a where "x = 192 + a" "2 \<le> a" "a < 32" "x mod 32 = a"
proof
  show x: "x = 192 + (x - 192)" "2 \<le> x - 192" "x - 192 < 32"
    using assms by (auto simp: utf8_first_def split: if_splits)
  then show "x mod 32 = x - 192" using payload_bits(2) [of "x - 192"] by simp
qed

lemma lead3:
  assumes "utf8_first x = Some (3, lo, hi)" "lo \<le> 128 + b" "128 + b \<le> hi"
  obtains a where "x = 224 + a" "a < 16" "x mod 16 = a" "a = 0 \<Longrightarrow> 32 \<le> b" "a = 13 \<Longrightarrow> b < 32"
proof
  show x: "x = 224 + (x - 224)" "x - 224 < 16"
    using assms by (auto simp: utf8_first_def split: if_splits)
  then show "x mod 16 = x - 224" using payload_bits(3) [of "x - 224"] by simp
  show "x - 224 = 0 \<Longrightarrow> 32 \<le> b" "x - 224 = 13 \<Longrightarrow> b < 32"
    using assms x by (auto simp: utf8_first_def split: if_splits)
qed

lemma lead4:
  assumes "utf8_first x = Some (4, lo, hi)" "lo \<le> 128 + b" "128 + b \<le> hi"
  obtains a where "x = 240 + a" "a < 5" "x mod 8 = a" "a = 0 \<Longrightarrow> 16 \<le> b" "a = 4 \<Longrightarrow> b < 16"
proof
  show x: "x = 240 + (x - 240)" "x - 240 < 5"
    using assms by (auto simp: utf8_first_def split: if_splits)
  then show "x mod 8 = x - 240" using payload_bits(4) [of "x - 240"] by simp
  show "x - 240 = 0 \<Longrightarrow> 16 \<le> b" "x - 240 = 4 \<Longrightarrow> b < 16"
    using assms x by (auto simp: utf8_first_def split: if_splits)
qed

lemma decode_multi_cases:
  assumes "decode_multi x rest = (r, n)"
  obtains "r = RuneError" "n = 1"
  | lo hi b1 zs where "utf8_first x = Some (2, lo, hi)" "rest = b1 # zs" "lo \<le> b1" "b1 \<le> hi"
      "r = x mod 32 * 64 + b1 mod 64" "n = 2"
  | lo hi b1 b2 zs where "utf8_first x = Some (3, lo, hi)" "rest = b1 # b2 # zs" "lo \<le> b1"
      "b1 \<le> hi" "cont b2" "r = x mod 16 * 4096 + b1 mod 64 * 64 + b2 mod 64" "n = 3"
  | lo hi b1 b2 b3 zs where "utf8_first x = Some (4, lo, hi)" "rest = b1 # b2 # b3 # zs"
      "lo \<le> b1" "b1 \<le> hi" "cont b2" "cont b3"
      "r = x mod 8 * 262144 + b1 mod 64 * 4096 + b2 mod 64 * 64 + b3 mod 64" "n = 4"
proof (cases "utf8_first x")
  case None
  then show ?thesis using assms that(1) by (simp add: decode_multi_def)
next
  case (Some t)
  obtain sz lo hi where t: "t = (sz, lo, hi)" by (cases t)
  have "sz = 2 \<or> sz = 3 \<or> sz = 4"
    using Some t by (auto simp: utf8_first_def split: if_splits)
  then show ?thesis
    using assms that Some t
    by (auto simp: decode_multi_def not_less split: if_splits list.splits)
qed

lemma decode_multi_encode:
  assumes "decode_multi x rest = (r, n)" and "r \<noteq> RuneError \<or> n \<noteq> 1"
  shows "take n (x # rest) = rune_codes r \<and> valid_rune r"
  using assms(1)
proof (cases rule: decode_multi_cases)
  case 1
  with assms(2) show ?thesis by simp
next
  case (2 lo hi b1 zs)
  from 2(1,3,4) have "cont b1" by (rule utf8_first_cont)
  then obtain b where b: "b1 = 128 + b" "b < 64" "b1 mod 64 = b" by (rule cont_obtain)
  obtain a where a: "x = 192 + a" "2 \<le> a" "a < 32" "x mod 32 = a" using lead2 [OF 2(1)] .
  have "128 \<le> a * 64 + b" "a * 64 + b < 2048" using a b by linarith+
  then show ?thesis using 2 a b by (simp add: rune_codes_def valid_rune_def bits_of_sum2)
next
  case (3 lo hi b1 b2 zs)
  from 3(1,3,4) have "cont b1" by (rule utf8_first_cont)
  then obtain b where b: "b1 = 128 + b" "b < 64" "b1 mod 64 = b" by (rule cont_obtain)
  from 3(5) obtain c where c: "b2 = 128 + c" "c < 64" "b2 mod 64 = c" by (rule cont_obtain)
  obtain a where a: "x = 224 + a" "a < 16" "x mod 16 = a" "a = 0 \<Longrightarrow> 32 \<le> b" "a = 13 \<Longrightarrow> b < 32"
    using lead3 [OF 3(1)] 3(3,4) b(1) by metis
  let ?r = "a * 4096 + b * 64 + c"
  have lo: "0x800 \<le> ?r" using a(4) by (cases "a = 0") auto
  have hi: "?r < 0x10000" using a(2) b(2) c(2) by linarith
  have "?r < 0xD800 \<or> 0xE000 \<le> ?r"
  proof (cases "a = 13")
    case True
    with a(5) c(2) show ?thesis by simp
  next
    case False
    then have "a \<le> 12 \<or> 14 \<le> a" by linarith
    with b(2) c(2) show ?thesis by linarith
  qed
  with lo hi 3 a b c show ?thesis
    by (simp add: rune_codes_def valid_rune_def MaxRune_def bits_of_sum3 bits_of_sum2)
next
  case (4 lo hi b1 b2 b3 zs)
  from 4(1,3,4) have "cont b1" by (rule utf8_first_cont)
  then obtain b where b: "b1 = 128 + b" "b < 64" "b1 mod 64 = b" by (rule cont_obtain)
  from 4(5) obtain c where c: "b2 = 128 + c" "c < 64" "b2 mod 64 = c" by (rule cont_obtain)
  from 4(6) obtain d where d: "b3 = 128 + d" "d < 64" "b3 mod 64 = d" by (rule cont_obtain)
  obtain a where a: "x = 240 + a" "a < 5" "x mod 8 = a" "a = 0 \<Longrightarrow> 16 \<le> b" "a = 4 \<Longrightarrow> b < 16"
    using lead4 [OF 4(1)] 4(3,4) b(1) by metis
  let ?r = "a * 262144 + b * 4096 + c * 64 + d"
  have lo: "0x10000 \<le> ?r" using a(4) by (cases "a = 0") auto
  have "?r \<le> 0x10FFFF"
  proof (cases "a = 4")
    case True
    with a(5) c(2) d(2) show ?thesis by simp
  next
    case False
    then have "a \<le> 3" using a(2) by linarith
    with b(2) c(2) d(2) show ?thesis by linarith
  qed
  moreover have "(4096 * a + b * 64 + c) mod 64 = c"
    using bits_of_sum2(2) [of c "a * 64 + b"] c(2) by (simp add: algebra_simps)
  moreover note lo 4 a b c d
  ultimately show ?thesis
    by (simp add: rune_codes_def valid_rune_def MaxRune_def bits_of_sum4 bits_of_sum2)
qed

lemma EncodeRune_DecodeRune:
  assumes "p \<noteq> []" and "DecodeRune p = (r, n)" and "r \<noteq> RuneError \<or> n \<noteq> 1"
  shows "take n p = EncodeRune r \<and> valid_rune r"
proof -
  obtain b q where p: "p = b # q" using assms(1) by (cases p) auto
  have codes: "take n (map unat p) = rune_codes r \<and> valid_rune r"
  proof (cases "unat b < 0x80")
    case True
    then show ?thesis using assms(2) p
      by (auto simp: DecodeRune_def rune_codes_def valid_rune_def)
  next
    case False
    then show ?thesis using assms(2,3) p decode_multi_encode [of "unat b" "map unat q" r n]
      by (simp add: DecodeRune_def)
  qed
  then have "map word_of_nat (map unat (take n p)) = EncodeRune r"
    by (simp add: EncodeRune_def take_map)
  then show ?thesis using codes by (simp add: comp_def map_idI)
qed

section \<open>Well-formed text\<close>

lemma decode_all_Nil [simp]: "decode_all [] = []"
  by (simp add: decode_all.simps)

lemma EncodeRune_not_Nil [simp]: "EncodeRune r \<noteq> []"
  by (simp add: EncodeRune_def rune_codes_def)

lemma decode_all_EncodeRune:
  assumes "valid_rune r"
  shows "decode_all (EncodeRune r @ xs) = (r, length (EncodeRune r)) # decode_all xs"
  using assms by (subst decode_all.simps) simp

lemma EncodeRune_RuneError_length [simp]: "length (EncodeRune RuneError) = 3"
  by (simp add: EncodeRune_def rune_codes_def RuneError_def valid_rune_def MaxRune_def)

lemma length_EncodeRune_le: "length (EncodeRune r) \<le> 4"
  by (simp add: EncodeRune_def rune_codes_def)

lemma valid_utf8_Nil [simp]: "valid_utf8 []"
  by (simp add: valid_utf8_def)

lemma EncodeRune_invalid: "\<not> valid_rune r \<Longrightarrow> EncodeRune r = EncodeRune RuneError"
  by (simp add: EncodeRune_def)

lemma valid_utf8_EncodeRune [simp]: "valid_utf8 (EncodeRune r @ xs) = valid_utf8 xs"
proof -
  have *: "valid_utf8 (EncodeRune r @ xs) = valid_utf8 xs" if "valid_rune r" for r
    using that by (auto simp: valid_utf8_def decode_all_EncodeRune)
  show ?thesis by (cases "valid_rune r") (auto simp: * EncodeRune_invalid)
qed

lemma EncodeRune_ascii: "b < 0x80 \<Longrightarrow> EncodeRune (unat (b :: byte)) = [b]"
proof -
  assume "b < 0x80"
  then have "unat b < 0x80" by (simp add: word_less_nat_alt)
  then show ?thesis by (simp add: EncodeRune_def rune_codes_def valid_rune_def)
qed

lemma valid_utf8_ascii [simp]: "b < 0x80 \<Longrightarrow> valid_utf8 (b # xs) = valid_utf8 xs"
  using valid_utf8_EncodeRune [of "unat b" xs] EncodeRune_ascii [of b] by simp

lemma valid_utf8_step:
  assumes "valid_utf8 p" and "p \<noteq> []"
  obtains r xs where "p = EncodeRune r @ xs" "valid_rune r" "valid_utf8 xs"
    "DecodeRune p = (r, length (EncodeRune r))"
proof -
  obtain r n where d: "DecodeRune p = (r, n)" by fastforce
  have all: "decode_all p = (r, n) # decode_all (drop n p)"
    using assms(2) d by (subst decode_all.simps) simp
  with assms(1) have ok: "r \<noteq> RuneError \<or> n \<noteq> 1" by (simp add: valid_utf8_def)
  have e: "take n p = EncodeRune r" "valid_rune r"
    using EncodeRune_DecodeRune [OF assms(2) d ok] by auto
  show ?thesis
  proof
    show eq: "p = EncodeRune r @ drop n p" by (metis e(1) append_take_drop_id)
    show "valid_rune r" by (rule e)
    show "valid_utf8 (drop n p)" using assms(1) all by (simp add: valid_utf8_def)
    show "DecodeRune p = (r, length (EncodeRune r))" by (metis eq e(2) DecodeRune_EncodeRune)
  qed
qed

lemma valid_utf8_induct [consumes 1, case_names Nil Rune]:
  assumes "valid_utf8 p" and "P []"
    and "\<And>r xs. valid_rune r \<Longrightarrow> valid_utf8 xs \<Longrightarrow> P xs \<Longrightarrow> P (EncodeRune r @ xs)"
  shows "P p"
  using assms(1)
proof (induction p rule: length_induct)
  case (1 p)
  show ?case
  proof (cases "p = []")
    case False
    with 1(2) obtain r xs where p: "p = EncodeRune r @ xs" "valid_rune r" "valid_utf8 xs"
      by (rule valid_utf8_step)
    then have "length xs < length p" by simp
    with 1(1) p(3) have "P xs" by blast
    with p show ?thesis by (simp add: assms(3))
  qed (simp add: assms(2))
qed

lemma valid_utf8_append: "valid_utf8 p \<Longrightarrow> valid_utf8 q \<Longrightarrow> valid_utf8 (p @ q)"
  by (induction p rule: valid_utf8_induct) auto

lemma DecodeRune_tail:
  assumes "DecodeRune (b # rest) = (r, n)" shows "\<forall>x \<in> set (take (n - 1) rest). \<not> x < 0x80"
proof (cases "unat b < 0x80")
  case True
  with assms have "n = 1" by (auto simp: DecodeRune_def)
  then show ?thesis by simp
next
  case False
  have big: "\<not> x < 0x80" if "cont (unat x)" for x :: byte
    using that by (simp add: cont_def word_less_nat_alt)
  have "decode_multi (unat b) (map unat rest) = (r, n)"
    using assms False by (simp add: DecodeRune_def)
  then show ?thesis
  proof (cases rule: decode_multi_cases)
    case (2 lo hi b1 zs)
    then have "cont b1" using utf8_first_cont by blast
    with 2 big show ?thesis by (cases rest) auto
  next
    case (3 lo hi b1 b2 zs)
    then have "cont b1" using utf8_first_cont by blast
    then have "\<forall>c \<in> set (map unat (take 2 rest)). cont c"
      using 3 by (simp add: take_map [symmetric])
    with 3(7) big show ?thesis by (auto simp del: set_take_subset)
  next
    case (4 lo hi b1 b2 b3 zs)
    then have "cont b1" using utf8_first_cont by blast
    then have "\<forall>c \<in> set (map unat (take 3 rest)). cont c"
      using 4 by (simp add: take_map [symmetric])
    with 4(8) big show ?thesis by (auto simp del: set_take_subset)
  qed simp
qed

text \<open>A \<^verbatim>\<open>for range\<close> loop visits every ASCII byte of a string as a rune of its own.\<close>

lemma decode_all_ascii:
  "b \<in> set p \<Longrightarrow> b < 0x80 \<Longrightarrow> unat b \<in> fst ` set (decode_all p)"
proof (induction p rule: decode_all.induct)
  case (1 p)
  then have ne: "p \<noteq> []" by auto
  obtain r n where d: "DecodeRune p = (r, n)" by fastforce
  obtain x xs where p: "p = x # xs" using ne by (cases p) auto
  have n: "1 \<le> n" using DecodeRune_size [OF ne d] by simp
  have all: "decode_all p = (r, n) # decode_all (drop n p)"
    using ne d by (simp add: decode_all.simps [of p])
  have "p = x # take (n - 1) xs @ drop n p" using n p by (cases n) simp_all
  then have "b = x \<or> b \<in> set (take (n - 1) xs) \<or> b \<in> set (drop n p)"
    using "1.prems"(1) by (metis Un_iff set_ConsD set_append)
  moreover have "b \<notin> set (take (n - 1) xs)"
    using DecodeRune_tail [of x xs r n] d p "1.prems"(2) by auto
  moreover have "r = unat b" if "b = x"
  proof -
    have "unat x < 0x80" using "1.prems"(2) that by (simp add: word_less_nat_alt)
    with d p that show ?thesis by (simp add: DecodeRune_def)
  qed
  ultimately show ?case using 1 ne d all by auto
qed

lemma runes_ascii: "c \<in> set s \<Longrightarrow> ord c < 0x80 \<Longrightarrow> ord c \<in> set (runes s)"
proof -
  assume c: "c \<in> set s" "ord c < 0x80"
  let ?b = "word_of_nat (ord c) :: byte"
  have b: "unat ?b = ord c" by simp
  have "?b \<in> set (bytes_of s)" using c by (auto simp: bytes_of_def)
  moreover have "?b < 0x80" using c b by (simp add: word_less_nat_alt)
  ultimately show "ord c \<in> set (runes s)" using decode_all_ascii [of ?b "bytes_of s"] b
    by (simp add: runes_def image_image)
qed

lemma EncodeRune_multi_byte:
  assumes "valid_rune r" "\<not> r < 0x80" shows "\<forall>x \<in> set (EncodeRune r). \<not> x < 0x80"
proof -
  obtain b bs where e: "EncodeRune r = b # bs" by (cases "EncodeRune r") auto
  have d: "DecodeRune (b # bs) = (r, Suc (length bs))"
    using DecodeRune_EncodeRune [OF assms(1), of "[]"] e by simp
  have "\<not> b < 0x80"
  proof
    assume "b < 0x80"
    then have "unat b < 0x80" by (simp add: word_less_nat_alt)
    with d have "r = unat b" by (simp add: DecodeRune_def)
    with assms(2) \<open>unat b < 0x80\<close> show False by simp
  qed
  with DecodeRune_tail [OF d] e show ?thesis by simp
qed

end
