(* ===== verification/Sync_Status.thy ===== *)
theory Sync_Status
  imports Go_Utf8 "HOL-Library.Product_Lexorder" "HOL-Library.Multiset"
begin

text \<open>
  Package \<^verbatim>\<open>internal/syncstatus\<close>: the per-account sync status that lets the hook skip
  repeated \<^verbatim>\<open>login_bootstrap\<close> events.

  The first part is the data model and the in-process \<^verbatim>\<open>MemoryStore\<close>
  (\<^verbatim>\<open>status.go\<close>). The locale \<open>sync_status_store\<close> is the contract of the Go
  interface \<^verbatim>\<open>Store\<close>: a write is ordered by the pair of its source timestamp and the
  precedence of its status, and only a strictly greater write takes effect. Inside the
  locale it is shown that a store keeps the greatest write of an account, whatever the
  order of arrival. \<open>MemoryStore\<close> is shown to meet the contract.
\<close>

section \<open>Statuses and records\<close>

type_synonym Status = string

definition StatusUnsynced :: Status where "StatusUnsynced = ''''"
definition StatusPending :: Status where "StatusPending = ''sync_pending''"
definition StatusSynced :: Status where "StatusSynced = ''synced''"
definition StatusFailed :: Status where "StatusFailed = ''sync_failed''"

lemmas status_defs = StatusUnsynced_def StatusPending_def StatusSynced_def StatusFailed_def

record status_record =
  recStatus :: Status
  recUpdatedAt :: instant
  recSourceEnqueuedAt :: instant

definition zeroRecord :: status_record where
  "zeroRecord = \<lparr>recStatus = StatusUnsynced, recUpdatedAt = 0, recSourceEnqueuedAt = 0\<rparr>"

definition normalizeUPN :: "unicode_tables \<Rightarrow> string \<Rightarrow> string" where
  "normalizeUPN U upn = ToLower U (TrimSpace upn)"

definition statusPrecedence :: "Status \<Rightarrow> nat" where
  "statusPrecedence st =
     (if st = StatusPending then 1
      else if st = StatusFailed then 2
      else if st = StatusSynced then 3
      else 0)"

section \<open>The in-process store\<close>

text \<open>
  The state is the map \<^verbatim>\<open>records\<close>. Every method runs under the mutex, so a call is one
  step. The clock value and the result of \<^verbatim>\<open>ctx.Err()\<close> at the call are arguments.
\<close>

type_synonym memory_store = "string \<rightharpoonup> status_record"

definition NewMemoryStore :: memory_store where
  "NewMemoryStore = Map.empty"

definition MemoryStore_Get ::
  "unicode_tables \<Rightarrow> goerror option \<Rightarrow> memory_store \<Rightarrow> string \<Rightarrow> goerror + status_record" where
  "MemoryStore_Get U ctxErr s upn =
     (case ctxErr of
        Some e \<Rightarrow> Inl e
      | None \<Rightarrow> Inr (case s (normalizeUPN U upn) of None \<Rightarrow> zeroRecord | Some r \<Rightarrow> r))"

definition MemoryStore_set ::
  "unicode_tables \<Rightarrow> goerror option \<Rightarrow> instant \<Rightarrow> memory_store \<Rightarrow> string \<Rightarrow> Status \<Rightarrow> instant
     \<Rightarrow> memory_store \<times> goerror option" where
  "MemoryStore_set U ctxErr now s upn st src =
     (case ctxErr of
        Some e \<Rightarrow> (s, Some e)
      | None \<Rightarrow>
          (let key = normalizeUPN U upn;
               written = s(key \<mapsto> \<lparr>recStatus = st, recUpdatedAt = now, recSourceEnqueuedAt = src\<rparr>)
           in case s key of
                Some existing \<Rightarrow>
                  if src < recSourceEnqueuedAt existing then (s, None)
                  else if src = recSourceEnqueuedAt existing
                          \<and> statusPrecedence st \<le> statusPrecedence (recStatus existing)
                       then (s, None)
                  else (written, None)
              | None \<Rightarrow> (written, None)))"

definition MemoryStore_MarkPending where
  "MemoryStore_MarkPending U ctxErr now s upn src = MemoryStore_set U ctxErr now s upn StatusPending src"

definition MemoryStore_MarkSynced where
  "MemoryStore_MarkSynced U ctxErr now s upn src = MemoryStore_set U ctxErr now s upn StatusSynced src"

definition MemoryStore_MarkFailed where
  "MemoryStore_MarkFailed U ctxErr now s upn src = MemoryStore_set U ctxErr now s upn StatusFailed src"

lemmas MemoryStore_Mark_defs =
  MemoryStore_MarkPending_def MemoryStore_MarkSynced_def MemoryStore_MarkFailed_def

text \<open>
  A completed \<^verbatim>\<open>Mark*\<close> call, as the store sees it. Runs of the producer and of the
  worker interleave their calls; the store sees one sequence.
\<close>

record mark =
  markUPN :: string
  markStatus :: Status
  markSource :: instant
  markNow :: instant

definition memory_mark :: "unicode_tables \<Rightarrow> memory_store \<Rightarrow> mark \<Rightarrow> memory_store" where
  "memory_mark U s m = fst (MemoryStore_set U None (markNow m) s (markUPN m) (markStatus m) (markSource m))"

definition memory_read :: "unicode_tables \<Rightarrow> memory_store \<Rightarrow> string \<Rightarrow> status_record option" where
  "memory_read U s upn = s (normalizeUPN U upn)"

section \<open>The contract of the Store interface\<close>

type_synonym rank = "instant \<times> nat"

definition record_rank :: "status_record \<Rightarrow> rank" where
  "record_rank r = (recSourceEnqueuedAt r, statusPrecedence (recStatus r))"

definition mark_rank :: "mark \<Rightarrow> rank" where
  "mark_rank m = (markSource m, statusPrecedence (markStatus m))"

definition mark_record :: "mark \<Rightarrow> status_record" where
  "mark_record m = \<lparr>recStatus = markStatus m, recUpdatedAt = markNow m, recSourceEnqueuedAt = markSource m\<rparr>"

definition known_status :: "Status \<Rightarrow> bool" where
  "known_status st \<longleftrightarrow> st = StatusPending \<or> st = StatusFailed \<or> st = StatusSynced"

lemma record_rank_mark_record [simp]: "record_rank (mark_record m) = mark_rank m"
  by (simp add: record_rank_def mark_rank_def mark_record_def)

lemma known_status_precedence: "known_status st \<longleftrightarrow> 0 < statusPrecedence st"
  by (auto simp: known_status_def statusPrecedence_def status_defs)

lemma statusPrecedence_inj:
  "known_status st \<Longrightarrow> statusPrecedence st = statusPrecedence st' \<Longrightarrow> st = st'"
  by (auto simp: known_status_def statusPrecedence_def status_defs split: if_splits)

locale sync_status_store =
  fixes read :: "'s \<Rightarrow> string \<Rightarrow> status_record option"
    and put :: "'s \<Rightarrow> mark \<Rightarrow> 's"
    and same :: "string \<Rightarrow> string \<Rightarrow> bool"
  assumes same_equiv: "equivp same"
    and read_same: "same u v \<Longrightarrow> read s u = read s v"
    and put_other: "\<not> same (markUPN m) v \<Longrightarrow> read (put s m) v = read s v"
    and put_first: "read s (markUPN m) = None \<Longrightarrow> read (put s m) (markUPN m) = Some (mark_record m)"
    and put_greater: "read s (markUPN m) = Some r \<Longrightarrow> record_rank r < mark_rank m
           \<Longrightarrow> read (put s m) (markUPN m) = Some (mark_record m)"
    and put_stale: "read s (markUPN m) = Some r \<Longrightarrow> \<not> record_rank r < mark_rank m
           \<Longrightarrow> read (put s m) (markUPN m) = Some r"
begin

definition puts :: "'s \<Rightarrow> mark list \<Rightarrow> 's" where
  "puts s ms = foldl put s ms"

definition ranks_for :: "string \<Rightarrow> mark list \<Rightarrow> rank set" where
  "ranks_for u ms = mark_rank ` {m \<in> set ms. same (markUPN m) u}"

definition read_ranks :: "'s \<Rightarrow> string \<Rightarrow> rank set" where
  "read_ranks s u = (case read s u of None \<Rightarrow> {} | Some r \<Rightarrow> {record_rank r})"

lemma same_refl: "same u u"
  using same_equiv by (rule equivp_reflp)

lemma puts_Nil [simp]: "puts s [] = s"
  by (simp add: puts_def)

lemma puts_Cons [simp]: "puts s (m # ms) = puts (put s m) ms"
  by (simp add: puts_def)

lemma put_read_ranks:
  "read_ranks (put s m) u =
     (if same (markUPN m) u then {Max (insert (mark_rank m) (read_ranks s u))} else read_ranks s u)"
proof (cases "same (markUPN m) u")
  case True
  then have eq: "read t u = read t (markUPN m)" for t by (metis read_same)
  show ?thesis
  proof (cases "read s (markUPN m)")
    case None
    then show ?thesis using True eq by (simp add: read_ranks_def put_first)
  next
    case (Some r)
    then show ?thesis using True eq
      by (cases "record_rank r < mark_rank m")
        (auto simp: read_ranks_def put_greater put_stale max_def not_less)
  qed
qed (simp add: read_ranks_def put_other)

lemma ranks_for_Nil [simp]: "ranks_for u [] = {}"
  by (simp add: ranks_for_def)

lemma ranks_for_Cons [simp]:
  "ranks_for u (m # ms) = (if same (markUPN m) u then insert (mark_rank m) (ranks_for u ms) else ranks_for u ms)"
  by (auto simp: ranks_for_def)

lemma finite_ranks [simp]: "finite (ranks_for u ms)" "finite (read_ranks s u)"
  by (simp_all add: ranks_for_def read_ranks_def split: option.split)

text \<open>After any sequence of writes the record of an account has the greatest rank written.\<close>

lemma puts_read_ranks:
  "read_ranks (puts s ms) u =
     (let R = read_ranks s u \<union> ranks_for u ms in if R = {} then {} else {Max R})"
proof (induction ms arbitrary: s)
  case Nil
  then show ?case by (auto simp: read_ranks_def split: option.split)
next
  case (Cons m ms)
  let ?A = "read_ranks s u" and ?B = "ranks_for u ms"
  have max_max: "Max (insert (Max (insert x A)) B) = Max (insert x (A \<union> B))"
    if "finite A" "finite B" for x :: rank and A B
    using that by (cases "A = {}"; cases "B = {}") (auto simp: Max_insert Max_Un max.assoc)
  show ?case
    using Cons.IH [of "put s m"] max_max [of ?A ?B]
    by (auto simp: put_read_ranks Let_def insert_commute)
qed

lemma puts_rank:
  assumes "read (puts s ms) u = Some r"
  shows "record_rank r = Max (read_ranks s u \<union> ranks_for u ms)"
  using puts_read_ranks [of s ms u] assms
  by (auto simp: read_ranks_def [of "puts s ms"] Let_def split: if_splits)

text \<open>A write never lowers the rank of an account's record.\<close>

lemma puts_monotone:
  assumes "read s u = Some r"
  shows "\<exists>r'. read (puts s ms) u = Some r' \<and> record_rank r \<le> record_rank r'"
proof -
  have A: "read_ranks s u = {record_rank r}" using assms by (simp add: read_ranks_def)
  then have "read_ranks (puts s ms) u \<noteq> {}"
    using puts_read_ranks [of s ms u] by (simp add: Let_def)
  then obtain r' where r': "read (puts s ms) u = Some r'"
    by (auto simp: read_ranks_def split: option.splits)
  have "record_rank r \<le> Max (read_ranks s u \<union> ranks_for u ms)"
    using A by (intro Max_ge) auto
  with puts_rank [OF r'] r' show ?thesis by simp
qed

text \<open>The order in which the writes arrive does not matter.\<close>

lemma puts_order_irrelevant:
  assumes "mset ms = mset ms'"
  shows "read_ranks (puts s ms) u = read_ranks (puts s ms') u"
proof -
  have "set ms = set ms'" using assms by (rule mset_eq_setD)
  then have "ranks_for u ms = ranks_for u ms'" by (simp add: ranks_for_def)
  then show ?thesis by (simp add: puts_read_ranks)
qed

end

section \<open>The in-process store meets the contract\<close>

lemma memory_mark_cases:
  "memory_mark U s m =
     (case memory_read U s (markUPN m) of
        None \<Rightarrow> s(normalizeUPN U (markUPN m) \<mapsto> mark_record m)
      | Some r \<Rightarrow> if record_rank r < mark_rank m
                  then s(normalizeUPN U (markUPN m) \<mapsto> mark_record m) else s)"
  by (auto simp: memory_mark_def MemoryStore_set_def memory_read_def mark_record_def record_rank_def
      mark_rank_def Let_def less_prod_def split: option.split)

interpretation mem: sync_status_store
  "memory_read U" "memory_mark U" "\<lambda>u v. normalizeUPN U u = normalizeUPN U v" for U
proof (unfold_locales, goal_cases)
  case 1
  show ?case by (rule equivpI) (auto simp: reflp_def symp_def transp_def)
next
  case (3 m v s)
  then show ?case by (auto simp: memory_mark_cases memory_read_def split: option.split)
qed (simp_all add: memory_mark_cases memory_read_def)

definition memory_marks :: "unicode_tables \<Rightarrow> memory_store \<Rightarrow> mark list \<Rightarrow> memory_store" where
  "memory_marks U s ms = foldl (memory_mark U) s ms"

lemma memory_marks_puts: "memory_marks U s ms = mem.puts U s ms"
  by (simp add: memory_marks_def mem.puts_def)

lemma MemoryStore_Get_read:
  "MemoryStore_Get U None s upn = Inr (case memory_read U s upn of None \<Rightarrow> zeroRecord | Some r \<Rightarrow> r)"
  by (simp add: MemoryStore_Get_def memory_read_def)

lemma memory_read_rank:
  assumes "memory_read U (memory_marks U NewMemoryStore ms) upn = Some r"
  shows "record_rank r = Max (mem.ranks_for U upn ms)"
  using mem.puts_rank [of U NewMemoryStore ms upn r] assms
  by (simp add: memory_marks_puts mem.read_ranks_def memory_read_def NewMemoryStore_def)

lemma memory_read_None_iff:
  "memory_read U (memory_marks U NewMemoryStore ms) upn = None \<longleftrightarrow> mem.ranks_for U upn ms = {}"
proof -
  have "mem.read_ranks U NewMemoryStore upn = {}"
    by (simp add: mem.read_ranks_def memory_read_def NewMemoryStore_def)
  with mem.puts_read_ranks [of U NewMemoryStore ms upn] show ?thesis
    by (auto simp: memory_marks_puts mem.read_ranks_def Let_def split: option.splits if_splits)
qed

text \<open>The greatest rank determines the stored status and source timestamp.\<close>

lemma rank_determines:
  assumes "known_status (recStatus r)" and "record_rank r = record_rank r'"
  shows "recStatus r = recStatus r' \<and> recSourceEnqueuedAt r = recSourceEnqueuedAt r'"
  using assms statusPrecedence_inj by (auto simp: record_rank_def)

lemma memory_read_origin:
  assumes "memory_read U (memory_marks U NewMemoryStore ms) upn = Some r"
  shows "\<exists>m \<in> set ms. normalizeUPN U (markUPN m) = normalizeUPN U upn \<and> record_rank r = mark_rank m"
proof -
  have "mem.ranks_for U upn ms \<noteq> {}" using assms memory_read_None_iff [of U ms upn] by auto
  then have "Max (mem.ranks_for U upn ms) \<in> mem.ranks_for U upn ms" by (intro Max_in) simp_all
  with memory_read_rank [OF assms] show ?thesis by (auto simp: mem.ranks_for_def)
qed

section \<open>Properties of the in-process store\<close>

text \<open>
  C24: the status that \<^verbatim>\<open>Get\<close> reports after a set of \<^verbatim>\<open>Mark*\<close> calls does not
  depend on the order in which the producer's and the worker's calls reach the store.
\<close>

theorem memory_store_converges:
  assumes "mset ms = mset ms'" and "\<forall>m \<in> set ms. known_status (markStatus m)"
  shows "\<exists>r r'. MemoryStore_Get U None (memory_marks U NewMemoryStore ms) upn = Inr r
           \<and> MemoryStore_Get U None (memory_marks U NewMemoryStore ms') upn = Inr r'
           \<and> recStatus r = recStatus r' \<and> recSourceEnqueuedAt r = recSourceEnqueuedAt r'"
proof (cases "memory_read U (memory_marks U NewMemoryStore ms) upn")
  case None
  have "set ms = set ms'" using assms(1) by (rule mset_eq_setD)
  with None have "memory_read U (memory_marks U NewMemoryStore ms') upn = None"
    by (simp add: memory_read_None_iff mem.ranks_for_def)
  with None show ?thesis by (simp add: MemoryStore_Get_read)
next
  case (Some r)
  have "set ms = set ms'" using assms(1) by (rule mset_eq_setD)
  then have same: "mem.ranks_for U upn ms = mem.ranks_for U upn ms'"
    by (simp add: mem.ranks_for_def)
  have "memory_read U (memory_marks U NewMemoryStore ms) upn \<noteq> None" using Some by simp
  then have "memory_read U (memory_marks U NewMemoryStore ms') upn \<noteq> None"
    unfolding memory_read_None_iff same .
  then obtain r' where r': "memory_read U (memory_marks U NewMemoryStore ms') upn = Some r'"
    by blast
  have "record_rank r = record_rank r'"
    using memory_read_rank [OF Some] memory_read_rank [OF r'] same by simp
  moreover have "known_status (recStatus r)"
    using memory_read_origin [OF Some] assms(2)
    by (auto simp: known_status_precedence record_rank_def mark_rank_def)
  ultimately have "recStatus r = recStatus r' \<and> recSourceEnqueuedAt r = recSourceEnqueuedAt r'"
    by (intro rank_determines)
  with Some r' show ?thesis by (simp add: MemoryStore_Get_read)
qed

definition sample_mark :: "Status \<Rightarrow> instant \<Rightarrow> instant \<Rightarrow> mark" where
  "sample_mark st src now =
     \<lparr>markUPN = ''a1@nycu.edu.tw'', markStatus = st, markSource = src, markNow = now\<rparr>"

theorem memory_store_converges_witness:
  "\<exists>r r'. MemoryStore_Get ascii_tables None
            (memory_marks ascii_tables NewMemoryStore
               [sample_mark StatusPending 5 6, sample_mark StatusSynced 5 9]) ''a1@nycu.edu.tw'' = Inr r
     \<and> MemoryStore_Get ascii_tables None
            (memory_marks ascii_tables NewMemoryStore
               [sample_mark StatusSynced 5 9, sample_mark StatusPending 5 6]) ''a1@nycu.edu.tw'' = Inr r'
     \<and> recStatus r = recStatus r' \<and> recSourceEnqueuedAt r = recSourceEnqueuedAt r'"
  by (rule memory_store_converges) (auto simp: sample_mark_def known_status_def)

text \<open>
  Once the worker has reported the newest message of an account as synced, the store
  reports it as synced, wherever the producer's own \<^verbatim>\<open>MarkPending\<close> for that message and
  the outcomes of older messages fall in the sequence.
\<close>

lemma memory_newest_outcome_wins:
  assumes "m \<in> set ms" and "markStatus m = StatusSynced"
    and newest: "\<forall>m' \<in> set ms. normalizeUPN U (markUPN m') = normalizeUPN U (markUPN m)
                   \<longrightarrow> markSource m' \<le> markSource m"
  shows "\<exists>r. MemoryStore_Get U None (memory_marks U NewMemoryStore ms) (markUPN m) = Inr r
           \<and> recStatus r = StatusSynced \<and> recSourceEnqueuedAt r = markSource m"
proof -
  let ?R = "mem.ranks_for U (markUPN m) ms"
  have "mark_rank m \<in> ?R" using assms(1) by (auto simp: mem.ranks_for_def)
  moreover have "x \<le> mark_rank m" if xR: "x \<in> ?R" for x
  proof -
    obtain m' where m': "m' \<in> set ms" "normalizeUPN U (markUPN m') = normalizeUPN U (markUPN m)"
      and x: "x = mark_rank m'"
      using xR by (auto simp: mem.ranks_for_def)
    have "markSource m' \<le> markSource m" using newest m' by blast
    moreover have "statusPrecedence (markStatus m') \<le> statusPrecedence (markStatus m)"
      using assms(2) by (simp add: statusPrecedence_def status_defs)
    ultimately show ?thesis using x by (auto simp: mark_rank_def less_eq_prod_def)
  qed
  ultimately have max: "Max ?R = mark_rank m" by (intro Max_eqI) auto
  have "memory_read U (memory_marks U NewMemoryStore ms) (markUPN m) \<noteq> None"
    using \<open>mark_rank m \<in> ?R\<close> unfolding memory_read_None_iff by blast
  then obtain r where r: "memory_read U (memory_marks U NewMemoryStore ms) (markUPN m) = Some r"
    by blast
  have "record_rank (mark_record m) = record_rank r"
    using memory_read_rank [OF r] max by simp
  moreover have "known_status (recStatus (mark_record m))"
    using assms(2) by (simp add: mark_record_def known_status_def)
  ultimately have "recStatus r = StatusSynced \<and> recSourceEnqueuedAt r = markSource m"
    using rank_determines [of "mark_record m" r] assms(2) by (simp add: mark_record_def)
  with r show ?thesis by (simp add: MemoryStore_Get_read)
qed

end
