(* ===== verification/Password_Crypto.thy ===== *)
theory Password_Crypto
  imports Go_Base
begin

text \<open>
  Package \<^verbatim>\<open>internal/passwordcrypto\<close> (\<^verbatim>\<open>codec.go\<close>): encryption of the password for the
  queue. Standard base64 is defined here. AES-256-GCM is an argument, the record \<open>aead\<close> made
  from the key; what the code relies on is stated by \<open>aead_laws\<close>: opening a sealed message
  with the same nonce and additional data gives the message back, and nothing else opens. A
  nonce of the wrong length makes the Go implementation panic.
\<close>

section \<open>Standard base64\<close>

definition base64_alphabet :: string where
  "base64_alphabet = ''ABCDEFGHIJKLMNOPQRSTUVWXYZabcdefghijklmnopqrstuvwxyz0123456789+/''"

definition base64_char :: "nat \<Rightarrow> char" where
  "base64_char i = base64_alphabet ! i"

definition base64_value :: "char \<Rightarrow> nat option" where
  "base64_value c =
     (let n = ord c in
      if 65 \<le> n \<and> n \<le> 90 then Some (n - 65)
      else if 97 \<le> n \<and> n \<le> 122 then Some (n - 97 + 26)
      else if 48 \<le> n \<and> n \<le> 57 then Some (n - 48 + 52)
      else if n = 43 then Some 62
      else if n = 47 then Some 63
      else None)"

fun base64_codes :: "nat list \<Rightarrow> string" where
  "base64_codes [] = []"
| "base64_codes [a] = [base64_char (a div 4), base64_char (a mod 4 * 16), CHR ''='', CHR ''='']"
| "base64_codes [a, b] =
     [base64_char (a div 4), base64_char (a mod 4 * 16 + b div 16), base64_char (b mod 16 * 4), CHR ''='']"
| "base64_codes (a # b # c # rest) =
     base64_char (a div 4) # base64_char (a mod 4 * 16 + b div 16)
       # base64_char (b mod 16 * 4 + c div 64) # base64_char (c mod 64) # base64_codes rest"

definition base64_EncodeToString :: "byte list \<Rightarrow> string" where
  "base64_EncodeToString bs = base64_codes (map unat bs)"

text \<open>
  Decoding: carriage returns and newlines are skipped wherever they stand, so they are removed
  first; padding ends the input; the unused low bits before the padding are not checked. The
  input offset that Go's error names is not part of the model.
\<close>

fun base64_quads :: "string \<Rightarrow> nat list option" where
  "base64_quads [] = Some []"
| "base64_quads (p # q # r # s # rest) =
     (case (base64_value p, base64_value q) of
        (Some a, Some b) \<Rightarrow>
          if r = CHR ''='' then
            if s = CHR ''='' \<and> rest = [] then Some [a * 4 + b div 16] else None
          else (case base64_value r of
                  None \<Rightarrow> None
                | Some c \<Rightarrow>
                    if s = CHR ''='' then
                      if rest = [] then Some [a * 4 + b div 16, b mod 16 * 16 + c div 4] else None
                    else (case base64_value s of
                            None \<Rightarrow> None
                          | Some d \<Rightarrow>
                              map_option (\<lambda>bs. (a * 4 + b div 16) # (b mod 16 * 16 + c div 4)
                                                 # (c mod 4 * 64 + d) # bs)
                                (base64_quads rest)))
      | _ \<Rightarrow> None)"
| "base64_quads _ = None"

definition base64_DecodeString :: "string \<Rightarrow> goerror + byte list" where
  "base64_DecodeString s =
     (case base64_quads (filter (\<lambda>c. c \<noteq> CHR 0x0A \<and> c \<noteq> CHR 0x0D) s) of
        None \<Rightarrow> Inl (ErrorString ''illegal base64 data'')
      | Some bs \<Rightarrow> Inr (map word_of_nat bs))"

section \<open>The codec\<close>

definition AlgorithmAES256GCM :: string where
  "AlgorithmAES256GCM = ''AES-256-GCM''"

record envelope =
  envCiphertext :: string
  envNonce :: string
  envKeyID :: string
  envAlgorithm :: string

record aead =
  aeadNonceSize :: nat
  aeadSeal :: "byte list \<Rightarrow> byte list \<Rightarrow> byte list \<Rightarrow> byte list"
  aeadOpen :: "byte list \<Rightarrow> byte list \<Rightarrow> byte list \<Rightarrow> byte list option"

record codec =
  codecAead :: aead
  codecKeyID :: string

text \<open>
  \<^verbatim>\<open>NewCodecFromBase64\<close>. The argument \<open>gcm\<close> is \<^verbatim>\<open>aes.NewCipher\<close> followed by
  \<^verbatim>\<open>cipher.NewGCM\<close>; with a key of 32 bytes neither fails.
\<close>

definition NewCodecFromBase64 :: "(byte list \<Rightarrow> goerror + aead) \<Rightarrow> string \<Rightarrow> string \<Rightarrow> goerror + codec" where
  "NewCodecFromBase64 gcm keyB64 keyID =
     (case base64_DecodeString keyB64 of
        Inl err \<Rightarrow> Inl (Wrapped ''decode password encryption key: '' err)
      | Inr key \<Rightarrow>
          if length key \<noteq> 32 then
            Inl (ErrorString (''password encryption key must decode to 32 bytes, got '' @ decimal (length key)))
          else if keyID = [] then Inl (ErrorString ''password encryption key id is required'')
          else (case gcm key of
                  Inl err \<Rightarrow> Inl (Wrapped ''create AES cipher: '' err)
                | Inr a \<Rightarrow> Inr \<lparr>codecAead = a, codecKeyID = keyID\<rparr>))"

text \<open>
  The context's error and what \<^verbatim>\<open>io.ReadFull(rand.Reader, nonce)\<close> returns are arguments:
  the random bytes, of the length asked for, or an error.
\<close>

definition Encrypt ::
  "codec \<Rightarrow> goerror option \<Rightarrow> (nat \<Rightarrow> goerror + byte list) \<Rightarrow> byte list \<Rightarrow> byte list \<Rightarrow> goerror + envelope" where
  "Encrypt c ctx rand plaintext aad =
     (case ctx of
        Some err \<Rightarrow> Inl err
      | None \<Rightarrow>
          (case rand (aeadNonceSize (codecAead c)) of
             Inl err \<Rightarrow> Inl (Wrapped ''generate password nonce: '' err)
           | Inr nonce \<Rightarrow>
               (let ciphertext = aeadSeal (codecAead c) nonce plaintext aad in
                Inr \<lparr>envCiphertext = base64_EncodeToString ciphertext,
                     envNonce = base64_EncodeToString nonce,
                     envKeyID = codecKeyID c,
                     envAlgorithm = AlgorithmAES256GCM\<rparr>)))"

definition Decrypt ::
  "codec \<Rightarrow> goerror option \<Rightarrow> envelope \<Rightarrow> byte list \<Rightarrow> (goerror + byte list) outcome" where
  "Decrypt c ctx env aad =
     (case ctx of
        Some err \<Rightarrow> Returned (Inl err)
      | None \<Rightarrow>
          if envAlgorithm env \<noteq> AlgorithmAES256GCM then
            Returned (Inl (QuotedError ''unsupported password encryption algorithm '' (envAlgorithm env)))
          else if envKeyID env \<noteq> codecKeyID c then
            Returned (Inl (QuotedError ''unsupported password encryption key id '' (envKeyID env)))
          else (case base64_DecodeString (envNonce env) of
                  Inl err \<Rightarrow> Returned (Inl (Wrapped ''decode password nonce: '' err))
                | Inr nonce \<Rightarrow>
                    (case base64_DecodeString (envCiphertext env) of
                       Inl err \<Rightarrow> Returned (Inl (Wrapped ''decode password ciphertext: '' err))
                     | Inr ciphertext \<Rightarrow>
                         if length nonce \<noteq> aeadNonceSize (codecAead c) then
                           Panicked ''crypto/cipher: incorrect nonce length given to GCM''
                         else (case aeadOpen (codecAead c) nonce ciphertext aad of
                                 None \<Rightarrow> Returned (Inl (ErrorString ''decrypt password payload failed''))
                               | Some plaintext \<Rightarrow> Returned (Inr plaintext)))))"

definition aead_laws :: "aead \<Rightarrow> bool" where
  "aead_laws a \<longleftrightarrow>
     (\<forall>n c ad p. length n = aeadNonceSize a \<longrightarrow> (aeadOpen a n c ad = Some p \<longleftrightarrow> c = aeadSeal a n p ad))"

section \<open>Lemmas on base64\<close>

lemma length_base64_alphabet [simp]: "length base64_alphabet = 64"
  by (simp add: base64_alphabet_def)

lemma base64_value_char: "i < 64 \<Longrightarrow> base64_value (base64_char i) = Some i"
proof -
  have "map base64_value base64_alphabet = map Some [0..<64]"
    unfolding base64_alphabet_def base64_value_def Let_def ord_def by (simp add: upt_rec)
  then have "map base64_value base64_alphabet ! i = map Some [0..<64] ! i" by simp
  then show "i < 64 \<Longrightarrow> base64_value (base64_char i) = Some i" by (simp add: base64_char_def)
qed

lemma base64_char_ok: "i < 64 \<Longrightarrow> base64_char i \<notin> {CHR ''='', CHR 0x0A, CHR 0x0D}"
proof -
  assume "i < 64"
  then have "base64_char i \<in> set base64_alphabet" by (simp add: base64_char_def)
  then show "base64_char i \<notin> {CHR ''='', CHR 0x0A, CHR 0x0D}" by (auto simp: base64_alphabet_def)
qed

lemma base64_codes_chars: "\<forall>x \<in> set bs. x < 256 \<Longrightarrow> \<forall>c \<in> set (base64_codes bs). c \<noteq> CHR 0x0A \<and> c \<noteq> CHR 0x0D"
proof (induction bs rule: base64_codes.induct)
  case (2 a)
  then show ?case using base64_char_ok [of "a div 4"] base64_char_ok [of "a mod 4 * 16"]
    by (simp add: less_mult_imp_div_less)
next
  case (3 a b)
  have "a div 4 < 64" "b div 16 < 16" "a mod 4 < 4" "b mod 16 < 16"
    using 3 by (simp_all add: less_mult_imp_div_less)
  then show ?case using base64_char_ok [of "a div 4"] base64_char_ok [of "a mod 4 * 16 + b div 16"]
      base64_char_ok [of "b mod 16 * 4"] by simp
next
  case (4 a b c rest)
  have "a div 4 < 64" "b div 16 < 16" "a mod 4 < 4" "b mod 16 < 16" "c div 64 < 4" "c mod 64 < 64"
    using 4 by (simp_all add: less_mult_imp_div_less)
  then show ?case using 4 base64_char_ok [of "a div 4"] base64_char_ok [of "a mod 4 * 16 + b div 16"]
      base64_char_ok [of "b mod 16 * 4 + c div 64"] base64_char_ok [of "c mod 64"] by simp
qed simp

lemma sextets:
  assumes "a < 256" "b < 256" "c < (256 :: nat)"
  shows "a div 4 < 64" "a mod 4 * 16 + b div 16 < 64" "b mod 16 * 4 + c div 64 < 64" "c mod 64 < 64"
    "a div 4 * 4 + (a mod 4 * 16 + b div 16) div 16 = a"
    "(a mod 4 * 16 + b div 16) mod 16 * 16 + (b mod 16 * 4 + c div 64) div 4 = b"
    "(b mod 16 * 4 + c div 64) mod 4 * 64 + c mod 64 = c"
proof -
  have ab: "a div 4 < 64" "b div 16 < 16" "a mod 4 < 4" "b mod 16 < 16" "c div 64 < 4" "c mod 64 < 64"
    using assms by (simp_all add: less_mult_imp_div_less)
  then show "a div 4 < 64" "a mod 4 * 16 + b div 16 < 64" "b mod 16 * 4 + c div 64 < 64" "c mod 64 < 64"
    by simp_all
  show "a div 4 * 4 + (a mod 4 * 16 + b div 16) div 16 = a"
    "(a mod 4 * 16 + b div 16) mod 16 * 16 + (b mod 16 * 4 + c div 64) div 4 = b"
    "(b mod 16 * 4 + c div 64) mod 4 * 64 + c mod 64 = c"
    using ab by simp_all
qed

lemma base64_quads_codes:
  "\<forall>x \<in> set bs. x < 256 \<Longrightarrow> base64_quads (base64_codes bs) = Some bs"
proof (induction bs rule: base64_codes.induct)
  case (2 a)
  then show ?case using sextets [of a 0 0] base64_char_ok
    by (simp add: base64_value_char)
next
  case (3 a b)
  then show ?case using sextets [of a b 0] base64_char_ok [of "b mod 16 * 4"]
    by (simp add: base64_value_char)
next
  case (4 a b c rest)
  moreover have "b div 16 < 16" using 4 by (simp add: less_mult_imp_div_less)
  ultimately show ?case
    using sextets [of a b c] base64_char_ok [of "b mod 16 * 4 + c div 64"] base64_char_ok [of "c mod 64"]
    by (simp add: base64_value_char)
qed simp

lemma base64_roundtrip [simp]: "base64_DecodeString (base64_EncodeToString bs) = Inr bs"
proof -
  have small: "\<forall>x \<in> set (map unat bs). x < 256" by (auto simp: unat_byte_less)
  then have "filter (\<lambda>c. c \<noteq> CHR 0x0A \<and> c \<noteq> CHR 0x0D) (base64_codes (map unat bs)) = base64_codes (map unat bs)"
    using base64_codes_chars [OF small] by (simp add: filter_id_conv)
  then show ?thesis using base64_quads_codes [OF small]
    by (simp add: base64_DecodeString_def base64_EncodeToString_def comp_def)
qed

section \<open>Properties of the codec\<close>

lemma Decrypt_Encrypt:
  assumes "aead_laws (codecAead c)" and "\<forall>n nonce. rand n = Inr nonce \<longrightarrow> length nonce = n"
    and "Encrypt c ctx rand plaintext aad = Inr env"
  shows "Decrypt c None env aad = Returned (Inr plaintext)"
proof -
  obtain nonce where n: "rand (aeadNonceSize (codecAead c)) = Inr nonce"
    and env: "env = \<lparr>envCiphertext = base64_EncodeToString (aeadSeal (codecAead c) nonce plaintext aad),
        envNonce = base64_EncodeToString nonce, envKeyID = codecKeyID c, envAlgorithm = AlgorithmAES256GCM\<rparr>"
    using assms(3) by (auto simp: Encrypt_def Let_def split: option.splits sum.splits)
  have len: "length nonce = aeadNonceSize (codecAead c)" using assms(2) n by blast
  then have "aeadOpen (codecAead c) nonce (aeadSeal (codecAead c) nonce plaintext aad) aad = Some plaintext"
    using assms(1) unfolding aead_laws_def by blast
  with len show ?thesis by (simp add: Decrypt_def env)
qed

text \<open>
  Decryption undoes encryption. What \<^verbatim>\<open>Encrypt\<close> produced, with any nonce the random
  source gave, \<^verbatim>\<open>Decrypt\<close> of a codec with the same key and key id opens under the same
  additional data, through the text form of the envelope.
\<close>

theorem encrypt_decrypt_roundtrip:
  assumes "aead_laws (codecAead c)" and "\<forall>n nonce. rand n = Inr nonce \<longrightarrow> length nonce = n"
    and "Encrypt c ctx rand plaintext aad = Inr env"
  shows "Decrypt c None env aad = Returned (Inr plaintext)"
  by (rule Decrypt_Encrypt [OF assms])

text \<open>A cipher that satisfies the laws: it appends the nonce and the additional data.\<close>

definition plain_aead :: aead where
  "plain_aead =
     \<lparr>aeadNonceSize = 2,
      aeadSeal = (\<lambda>n p ad. p @ n @ ad),
      aeadOpen = (\<lambda>n c ad. let k = length c - length (n @ ad) in
                    if c = take k c @ n @ ad then Some (take k c) else None)\<rparr>"

lemma plain_aead_laws: "aead_laws plain_aead"
  by (auto simp: aead_laws_def plain_aead_def Let_def split: if_splits)

definition sample_codec :: codec where
  "sample_codec = \<lparr>codecAead = plain_aead, codecKeyID = ''k1''\<rparr>"

definition sample_rand :: "nat \<Rightarrow> goerror + byte list" where
  "sample_rand n = Inr (replicate n 7)"

theorem encrypt_decrypt_roundtrip_witness:
  "\<exists>env. Encrypt sample_codec None sample_rand [1, 2, 3] [9] = Inr env
     \<and> Decrypt sample_codec None env [9] = Returned (Inr [1, 2, 3])"
proof -
  have "\<exists>env. Encrypt sample_codec None sample_rand [1, 2, 3] [9] = Inr env"
    by (simp add: Encrypt_def sample_rand_def Let_def)
  then obtain env where env: "Encrypt sample_codec None sample_rand [1, 2, 3] [9] = Inr env" by blast
  moreover have "aead_laws (codecAead sample_codec)"
    "\<forall>n nonce. sample_rand n = Inr nonce \<longrightarrow> length nonce = n"
    using plain_aead_laws by (auto simp: sample_codec_def sample_rand_def)
  ultimately show ?thesis using encrypt_decrypt_roundtrip by blast
qed

text \<open>
  Nothing else decrypts. A plaintext is returned only if the context is live, the
  algorithm and the key id are the codec's, and the ciphertext is the sealing of that very
  plaintext under that nonce and that additional data, so an envelope taken from another
  message is refused unless its ciphertext is also the sealing under this message's data.
\<close>

theorem decrypt_authentic:
  assumes "aead_laws (codecAead c)" and "Decrypt c ctx env aad = Returned (Inr plaintext)"
  shows "ctx = None \<and> envAlgorithm env = AlgorithmAES256GCM \<and> envKeyID env = codecKeyID c
    \<and> (\<exists>nonce. base64_DecodeString (envNonce env) = Inr nonce
         \<and> length nonce = aeadNonceSize (codecAead c)
         \<and> base64_DecodeString (envCiphertext env) = Inr (aeadSeal (codecAead c) nonce plaintext aad))"
  using assms by (auto simp: Decrypt_def aead_laws_def split: option.splits if_splits sum.splits)

theorem decrypt_authentic_witness:
  "envKeyID \<lparr>envCiphertext = ''AQcHCQ=='', envNonce = ''Bwc='', envKeyID = ''k1'', envAlgorithm = ''AES-256-GCM''\<rparr>
     = codecKeyID sample_codec
   \<and> (\<exists>nonce. base64_DecodeString ''AQcHCQ=='' = Inr (aeadSeal plain_aead nonce [1] [9]))"
proof -
  let ?env = "\<lparr>envCiphertext = ''AQcHCQ=='', envNonce = ''Bwc='', envKeyID = ''k1'', envAlgorithm = ''AES-256-GCM''\<rparr>"
  have "Decrypt sample_codec None ?env [9] = Returned (Inr [1])" by code_simp
  moreover have "aead_laws (codecAead sample_codec)" using plain_aead_laws by (simp add: sample_codec_def)
  ultimately show ?thesis using decrypt_authentic [of sample_codec None ?env "[9]" "[1]"]
    by (auto simp: sample_codec_def)
qed

text \<open>
  C37: \<^verbatim>\<open>Decrypt\<close> does not check the length of the nonce before it calls
  \<^verbatim>\<open>Open\<close>: an envelope with the right algorithm and key id whose nonce decodes to another
  number of bytes makes it panic, and that is the only way it panics.
\<close>

theorem decrypt_panics_iff_nonce_length:
  "(\<exists>m. Decrypt c ctx env aad = Panicked m) \<longleftrightarrow>
     ctx = None \<and> envAlgorithm env = AlgorithmAES256GCM \<and> envKeyID env = codecKeyID c
     \<and> (\<exists>nonce ct. base64_DecodeString (envNonce env) = Inr nonce
          \<and> base64_DecodeString (envCiphertext env) = Inr ct \<and> length nonce \<noteq> aeadNonceSize (codecAead c))"
  by (auto simp: Decrypt_def split: option.splits if_splits sum.splits)

end
