(* ===== verification/Go_Time.thy ===== *)
theory Go_Time
  imports Go_Base
begin

text \<open>
  Dates and the text form of instants in package \<^verbatim>\<open>time\<close>: the proleptic Gregorian
  calendar, \<^verbatim>\<open>Format(time.RFC3339Nano)\<close> of a UTC time, the fixed-width layout of the
  Redis store, and the strict RFC 3339 parser that \<^verbatim>\<open>encoding/json\<close> uses. An instant
  counts nanoseconds from 1 January of year 1; day 0 is that day.
\<close>

section \<open>The calendar\<close>

definition is_leap :: "int \<Rightarrow> bool" where
  "is_leap y \<longleftrightarrow> y mod 4 = 0 \<and> (y mod 100 \<noteq> 0 \<or> y mod 400 = 0)"

definition days_before_year :: "int \<Rightarrow> int" where
  "days_before_year y = 365 * (y - 1) + (y - 1) div 4 - (y - 1) div 100 + (y - 1) div 400"

definition month_starts :: "int list" where
  "month_starts = [0, 31, 59, 90, 120, 151, 181, 212, 243, 273, 304, 334, 365]"

text \<open>The first day of month \<open>m\<close>, counted from the first day of the year; month 13 is the next year.\<close>

definition days_before_month :: "bool \<Rightarrow> nat \<Rightarrow> int" where
  "days_before_month leap m = month_starts ! (m - 1) + (if leap \<and> 2 < m then 1 else 0)"

definition daysIn :: "bool \<Rightarrow> nat \<Rightarrow> int" where
  "daysIn leap m = days_before_month leap (m + 1) - days_before_month leap m"

fun month_search :: "bool \<Rightarrow> int \<Rightarrow> nat \<Rightarrow> nat" where
  "month_search leap yday m =
     (if m \<le> 1 then 1
      else if days_before_month leap m \<le> yday then m
      else month_search leap yday (m - 1))"

text \<open>The year of a day and the day within that year, by cycles of 400, 100, 4 years and one year.\<close>

definition year_yday :: "int \<Rightarrow> int \<times> int" where
  "year_yday n =
     (let c = n div 146097; r = n mod 146097;
          a = min 3 (r div 36524); r1 = r - 36524 * a;
          b = r1 div 1461; r2 = r1 mod 1461;
          e = min 3 (r2 div 365)
      in (400 * c + 100 * a + 4 * b + e + 1, r2 - 365 * e))"

definition civil :: "int \<Rightarrow> int \<times> nat \<times> int" where
  "civil n = (let (y, yday) = year_yday n; m = month_search (is_leap y) yday 12
              in (y, m, yday - days_before_month (is_leap y) m + 1))"

definition day_number :: "int \<Rightarrow> nat \<Rightarrow> int \<Rightarrow> int" where
  "day_number y m d = days_before_year y + days_before_month (is_leap y) m + (d - 1)"

definition day_ns :: int where "day_ns = 86400 * second_ns"

definition time_year :: "instant \<Rightarrow> int" where
  "time_year t = fst (civil (t div day_ns))"

section \<open>Formatting\<close>

fun digits :: "nat \<Rightarrow> nat \<Rightarrow> string" where
  "digits 0 n = []"
| "digits (Suc w) n = digits w (n div 10) @ [char_of (48 + n mod 10)]"

text \<open>\<^verbatim>\<open>appendInt\<close>: at least \<open>w\<close> digits, padded with zeros.\<close>

definition appendInt :: "int \<Rightarrow> nat \<Rightarrow> string" where
  "appendInt i w =
     (let n = nat (abs i); s = (if n < 10 ^ w then digits w n else decimal n)
      in if i < 0 then CHR ''-'' # s else s)"

definition format_datetime :: "instant \<Rightarrow> string" where
  "format_datetime t =
     (let (y, m, d) = civil (t div day_ns); s = t mod day_ns div second_ns
      in appendInt y 4 @ ''-'' @ digits 2 m @ ''-'' @ digits 2 (nat d) @ ''T''
         @ digits 2 (nat (s div 3600)) @ '':'' @ digits 2 (nat (s div 60 mod 60)) @ '':''
         @ digits 2 (nat (s mod 60)))"

definition format_fraction :: "nat \<Rightarrow> string" where
  "format_fraction ns = (if ns = 0 then [] else CHR ''.'' # TrimRightChar CHR ''0'' (digits 9 ns))"

definition Format_RFC3339Nano :: "instant \<Rightarrow> string" where
  "Format_RFC3339Nano t = format_datetime t @ format_fraction (nat (t mod second_ns)) @ ''Z''"

text \<open>The layout \<^verbatim>\<open>2006-01-02T15:04:05.000000000Z\<close>: nine fractional digits, always.\<close>

definition Format_fixed9 :: "instant \<Rightarrow> string" where
  "Format_fixed9 t = format_datetime t @ ''.'' @ digits 9 (nat (t mod second_ns)) @ ''Z''"

section \<open>Parsing\<close>

definition is_digit :: "char \<Rightarrow> bool" where
  "is_digit c \<longleftrightarrow> 48 \<le> ord c \<and> ord c \<le> 57"

fun digits_value :: "nat \<Rightarrow> string \<Rightarrow> nat" where
  "digits_value x [] = x"
| "digits_value x (c # s) = digits_value (x * 10 + (ord c - 48)) s"

definition parse_uint :: "string \<Rightarrow> nat \<Rightarrow> nat \<Rightarrow> nat option" where
  "parse_uint s lo hi =
     (if list_all is_digit s then
        (let x = digits_value 0 s in if lo \<le> x \<and> x \<le> hi then Some x else None)
      else None)"

definition slice :: "string \<Rightarrow> nat \<Rightarrow> nat \<Rightarrow> string" where
  "slice s i j = take (j - i) (drop i s)"

definition parse_fraction :: "string \<Rightarrow> nat \<times> string" where
  "parse_fraction s =
     (case s of
        c # rest \<Rightarrow>
          (let ds = takeWhile is_digit rest in
           if c = CHR ''.'' \<and> ds \<noteq> []
           then (digits_value 0 (take 9 ds) * 10 ^ (9 - length (take 9 ds)), dropWhile is_digit rest)
           else (0, s))
      | [] \<Rightarrow> (0, s))"

text \<open>The zone: \<^verbatim>\<open>Z\<close> or an offset, in seconds east of UTC.\<close>

definition parse_zone :: "string \<Rightarrow> int option" where
  "parse_zone s =
     (if s = ''Z'' then Some 0
      else if length s \<noteq> 6 then None
      else case (parse_uint (slice s 1 3) 0 23, parse_uint (slice s 4 6) 0 59) of
        (Some hr, Some mm) \<Rightarrow>
          if (s ! 0 = CHR ''-'' \<or> s ! 0 = CHR ''+'') \<and> s ! 3 = CHR '':''
          then Some ((if s ! 0 = CHR ''-'' then - 1 else 1) * int ((hr * 60 + mm) * 60))
          else None
      | _ \<Rightarrow> None)"

definition parseRFC3339 :: "string \<Rightarrow> instant option" where
  "parseRFC3339 s =
     (if length s < 19 then None
      else case (parse_uint (slice s 0 4) 0 9999, parse_uint (slice s 5 7) 1 12) of
        (Some y, Some m) \<Rightarrow>
          (case (parse_uint (slice s 8 10) 1 (nat (daysIn (is_leap (int y)) m)),
                 parse_uint (slice s 11 13) 0 23, parse_uint (slice s 14 16) 0 59,
                 parse_uint (slice s 17 19) 0 59) of
             (Some d, Some h, Some mi, Some sec) \<Rightarrow>
               if s ! 4 = CHR ''-'' \<and> s ! 7 = CHR ''-'' \<and> s ! 10 = CHR ''T'' \<and> s ! 13 = CHR '':''
                  \<and> s ! 16 = CHR '':''
               then (let (ns, zone) = parse_fraction (drop 19 s) in
                     map_option
                       (\<lambda>off. (day_number (int y) m (int d) * 86400
                                 + int (h * 3600 + mi * 60 + sec) - off) * second_ns + int ns)
                       (parse_zone zone))
               else None
           | _ \<Rightarrow> None)
      | _ \<Rightarrow> None)"

section \<open>Lemmas on the calendar\<close>

declare month_search.simps [simp del]

lemma days_before_year_cycles:
  assumes "0 \<le> b" "b \<le> 24" "0 \<le> e" "e \<le> 3" "0 \<le> a" "a \<le> 3"
  shows "days_before_year (400 * c + 100 * a + 4 * b + e + 1) = 146097 * c + 36524 * a + 1461 * b + 365 * e"
proof -
  have "(400 * c + 100 * a + 4 * b + e) div 4 = 100 * c + 25 * a + b"
    by (rule int_div_pos_eq [where r = e]) (use assms in auto)
  moreover have "(400 * c + 100 * a + 4 * b + e) div 100 = 4 * c + a"
    by (rule int_div_pos_eq [where r = "4 * b + e"]) (use assms in auto)
  moreover have "(400 * c + 100 * a + 4 * b + e) div 400 = c"
    by (rule int_div_pos_eq [where r = "100 * a + 4 * b + e"]) (use assms in auto)
  ultimately show ?thesis by (simp add: days_before_year_def)
qed

lemma is_leap_end_of_cycle:
  assumes "b = 24 \<longrightarrow> a = 3" "0 \<le> b" "b \<le> 24" "0 \<le> a" "a \<le> 3"
  shows "is_leap (400 * c + 100 * a + 4 * b + 4)"
proof (cases "b = 24")
  case True
  have "(400 * c + 100 * a + 4 * b + 4) mod 4 = 0"
    by (rule int_mod_pos_eq [where q = "100 * (c + 1)"]) (use True assms in auto)
  moreover have "(400 * c + 100 * a + 4 * b + 4) mod 400 = 0"
    by (rule int_mod_pos_eq [where q = "c + 1"]) (use True assms in auto)
  ultimately show ?thesis by (simp add: is_leap_def)
next
  case False
  have "(400 * c + 100 * a + 4 * b + 4) mod 100 = 4 * b + 4"
    by (rule int_mod_pos_eq [where q = "4 * c + a"]) (use assms False in auto)
  moreover have "(400 * c + 100 * a + 4 * b + 4) mod 4 = 0"
    by (rule int_mod_pos_eq [where q = "100 * c + 25 * a + b + 1"]) auto
  ultimately show ?thesis using assms by (simp add: is_leap_def)
qed

lemma year_yday_correct:
  assumes "year_yday n = (y, yday)"
  shows "days_before_year y + yday = n" "0 \<le> yday" "yday < (if is_leap y then 366 else 365)"
proof -
  define c r where "c = n div 146097" and "r = n mod 146097"
  define a where "a = min 3 (r div 36524)"
  define r1 where "r1 = r - 36524 * a"
  define b r2 where "b = r1 div 1461" and "r2 = r1 mod 1461"
  define e where "e = min 3 (r2 div 365)"
  have y: "y = 400 * c + 100 * a + 4 * b + e + 1" and yday: "yday = r2 - 365 * e"
    using assms unfolding year_yday_def Let_def c_def r_def a_def r1_def b_def r2_def e_def by auto
  have n: "n = 146097 * c + r" and r: "0 \<le> r" "r < 146097"
    unfolding c_def r_def by simp_all
  have a: "0 \<le> a" "a \<le> 3" unfolding a_def using r by (simp_all add: pos_imp_zdiv_nonneg_iff)
  have ra: "36524 * (r div 36524) \<le> r" "r < 36524 * (r div 36524) + 36524"
    using div_mult_mod_eq [of r 36524] pos_mod_bound [of 36524 r] pos_mod_sign [of 36524 r] by linarith+
  have r1: "0 \<le> r1" "r1 \<le> 36524" "r1 = 36524 \<Longrightarrow> a = 3"
    unfolding r1_def a_def min_def using ra r by (auto split: if_splits)
  have rb: "r1 = 1461 * b + r2" "0 \<le> r2" "r2 < 1461" unfolding b_def r2_def by simp_all
  have b: "0 \<le> b" "b \<le> 24" using rb r1 by auto
  have re: "365 * (r2 div 365) \<le> r2" "r2 < 365 * (r2 div 365) + 365"
    using div_mult_mod_eq [of r2 365] pos_mod_bound [of 365 r2] pos_mod_sign [of 365 r2] by linarith+
  have e: "0 \<le> e" "e \<le> 3" unfolding e_def using rb by (simp_all add: pos_imp_zdiv_nonneg_iff)
  have yd: "0 \<le> yday" "yday \<le> 365" "yday = 365 \<Longrightarrow> e = 3 \<and> r2 = 1460"
    unfolding yday e_def min_def using re rb by (auto split: if_splits)
  show "days_before_year y + yday = n"
    using days_before_year_cycles [of b e a c] a b e n rb y yday r1_def by simp
  show "0 \<le> yday" by (rule yd)
  show "yday < (if is_leap y then 366 else 365)"
  proof (cases "yday = 365")
    case True
    then have "e = 3" "r2 = 1460" using yd by auto
    then have "b = 24 \<longrightarrow> a = 3" using rb r1 by auto
    then have "is_leap (400 * c + 100 * a + 4 * b + 4)" using a b is_leap_end_of_cycle by blast
    with \<open>e = 3\<close> y yd show ?thesis by (simp add: add.assoc)
  qed (use yd in simp)
qed

lemma days_before_month_1 [simp]: "days_before_month leap (Suc 0) = 0"
  by (simp add: days_before_month_def month_starts_def)

lemma days_before_month_13 [simp]: "days_before_month leap 13 = (if leap then 366 else 365)"
  by (simp add: days_before_month_def month_starts_def)

lemma month_search_correct:
  assumes "1 \<le> m" "m \<le> 12" "0 \<le> yday" "yday < days_before_month leap (m + 1)"
  shows "1 \<le> month_search leap yday m \<and> month_search leap yday m \<le> 12
    \<and> days_before_month leap (month_search leap yday m) \<le> yday
    \<and> yday < days_before_month leap (month_search leap yday m + 1)"
  using assms
proof (induction leap yday m rule: month_search.induct)
  case (1 leap yday m)
  show ?case
  proof (cases "m \<le> 1")
    case True
    with 1 have "m = Suc 0" by simp
    with 1 show ?thesis by (simp add: month_search.simps [of leap yday "Suc 0"])
  next
    case False
    with 1 show ?thesis
      by (cases "days_before_month leap m \<le> yday") (simp_all add: month_search.simps [of leap yday m])
  qed
qed

lemma civil_correct:
  assumes "civil n = (y, m, d)"
  shows "day_number y m d = n" "1 \<le> m" "m \<le> 12" "1 \<le> d" "d \<le> daysIn (is_leap y) m"
    "days_before_year y \<le> n" "n < days_before_year y + (if is_leap y then 366 else 365)"
proof -
  obtain yday where y: "year_yday n = (y, yday)"
    and m: "m = month_search (is_leap y) yday 12"
    and d: "d = yday - days_before_month (is_leap y) m + 1"
    using assms by (auto simp: civil_def Let_def split: prod.splits)
  note yd = year_yday_correct [OF y]
  have "1 \<le> m \<and> m \<le> 12 \<and> days_before_month (is_leap y) m \<le> yday
      \<and> yday < days_before_month (is_leap y) (m + 1)"
    using month_search_correct [of 12 yday "is_leap y"] yd unfolding m by simp
  with d yd show "day_number y m d = n" "1 \<le> m" "m \<le> 12" "1 \<le> d" "d \<le> daysIn (is_leap y) m"
    "days_before_year y \<le> n" "n < days_before_year y + (if is_leap y then 366 else 365)"
    by (auto simp: day_number_def daysIn_def)
qed

lemma daysIn_le: "1 \<le> m \<Longrightarrow> m \<le> 12 \<Longrightarrow> daysIn leap m \<le> 31"
  by (auto simp: daysIn_def days_before_month_def month_starts_def nth_Cons numeral_eq_Suc le_Suc_eq)

section \<open>Lemmas on digits\<close>

lemma length_digits [simp]: "length (digits w n) = w"
  by (induction w arbitrary: n) simp_all

lemma digits_not_Nil [simp]: "digits w n = [] \<longleftrightarrow> w = 0"
  by (cases w) simp_all

lemma digit_char [simp]: "is_digit (char_of (48 + n mod 10))" "ord (char_of (48 + n mod 10)) = 48 + n mod 10"
proof -
  have n: "n mod 10 < 10" by simp
  then have "48 + n mod 10 < 256" by linarith
  then show o: "ord (char_of (48 + n mod 10)) = 48 + n mod 10" by (rule ord_char_of)
  from n show "is_digit (char_of (48 + n mod 10))" by (simp add: is_digit_def o)
qed

lemma digits_are_digits [simp]: "list_all is_digit (digits w n)"
  by (induction w arbitrary: n) simp_all

lemma digits_value_append [simp]: "digits_value x (s @ t) = digits_value (digits_value x s) t"
  by (induction s arbitrary: x) simp_all

lemma digits_value_digits: "digits_value x (digits w n) = x * 10 ^ w + n mod 10 ^ w"
proof (induction w arbitrary: n)
  case (Suc w)
  have "n div 10 mod 10 ^ w * 10 + n mod 10 = n mod (10 * 10 ^ w)"
    by (simp add: mod_mult2_eq)
  then show ?case using Suc by (simp add: algebra_simps)
qed simp

lemma parse_uint_digits [simp]:
  "n < 10 ^ w \<Longrightarrow> lo \<le> n \<Longrightarrow> n \<le> hi \<Longrightarrow> parse_uint (digits w n) lo hi = Some n"
  by (simp add: parse_uint_def digits_value_digits)

lemma digits_inj: "digits w m = digits w n \<Longrightarrow> m < 10 ^ w \<Longrightarrow> n < 10 ^ w \<Longrightarrow> m = n"
  by (metis digits_value_digits add_0 mod_less mult_zero_left)

section \<open>Formatting and parsing are inverse\<close>

lemma trailing_zeros:
  obtains k where "s = TrimRightChar c s @ replicate k c"
proof -
  let ?k = "length (takeWhile (\<lambda>x. x = c) (rev s))"
  have "takeWhile (\<lambda>x. x = c) (rev s) = replicate ?k c"
    by (auto intro!: replicate_eqI dest: set_takeWhileD)
  then have "s = TrimRightChar c s @ replicate ?k c"
    unfolding TrimRightChar_def
    by (metis rev_append rev_replicate rev_rev_ident takeWhile_dropWhile_id)
  with that show thesis by blast
qed

lemma digits_value_zeros [simp]: "digits_value x (replicate k CHR ''0'') = x * 10 ^ k"
  by (induction k arbitrary: x) (simp_all add: ord_def)

lemma parse_format_fraction:
  assumes "ns < 10 ^ 9" shows "parse_fraction (format_fraction ns @ ''Z'') = (ns, ''Z'')"
proof (cases "ns = 0")
  case True
  then show ?thesis by (simp add: parse_fraction_def format_fraction_def)
next
  case False
  let ?ds = "TrimRightChar CHR ''0'' (digits 9 ns)"
  obtain k where k: "digits 9 ns = ?ds @ replicate k CHR ''0''" using trailing_zeros .
  have v: "digits_value 0 ?ds * 10 ^ k = ns"
    using arg_cong [OF k, of "digits_value 0"] digits_value_digits [of 0 9 ns] assms by simp
  have "length ?ds + k = 9" using arg_cong [OF k, of length] by simp
  then have len: "k = 9 - length ?ds" "take 9 ?ds = ?ds" by auto
  have ne: "?ds \<noteq> []"
  proof
    assume "?ds = []"
    with v have "ns = 0" by simp
    with False show False ..
  qed
  have "list_all is_digit ?ds" using digits_are_digits [of 9 ns] k by (metis list_all_append)
  then have ds: "\<forall>x \<in> set ?ds. is_digit x" by (simp add: list_all_iff)
  have z: "\<not> is_digit CHR ''Z''" by code_simp
  have "takeWhile is_digit (?ds @ ''Z'') = ?ds" "dropWhile is_digit (?ds @ ''Z'') = ''Z''"
    using ds z by (simp_all add: takeWhile_append dropWhile_append)
  with False ne len v show ?thesis
    by (simp add: parse_fraction_def format_fraction_def)
qed

lemma time_of_day:
  fixes t :: int
  defines "s \<equiv> t mod day_ns div second_ns"
  shows "0 \<le> s div 3600" "s div 3600 \<le> 23" "0 \<le> s div 60 mod 60" "s div 60 mod 60 \<le> 59"
    "0 \<le> s mod 60" "s mod 60 \<le> 59"
    "(t div day_ns * 86400 + (s div 3600 * 3600 + s div 60 mod 60 * 60 + s mod 60)) * second_ns
       + t mod second_ns = t"
proof -
  have "0 \<le> t mod day_ns" "t mod day_ns < 86400 * second_ns" by (simp_all add: day_ns_def second_ns_def)
  then have s: "0 \<le> s" "s < 86400" unfolding s_def
    using div_mult_mod_eq [of "t mod day_ns" second_ns] pos_mod_sign [of second_ns "t mod day_ns"]
    by (simp_all add: pos_imp_zdiv_nonneg_iff second_ns_def)
  then show "0 \<le> s div 3600" "s div 3600 \<le> 23"
    using div_mult_mod_eq [of s 3600] pos_mod_sign [of 3600 s] by (simp_all add: pos_imp_zdiv_nonneg_iff)
  show "0 \<le> s div 60 mod 60" "s div 60 mod 60 \<le> 59" "0 \<le> s mod 60" "s mod 60 \<le> 59"
    using pos_mod_bound [of 60 "s div 60"] pos_mod_bound [of 60 s] by simp_all
  have "s div 3600 = s div 60 div 60" using zdiv_zmult2_eq [of 60 s 60] by simp
  then have "s div 3600 * 3600 + s div 60 mod 60 * 60 + s mod 60 = s"
    using div_mult_mod_eq [of s 60] div_mult_mod_eq [of "s div 60" 60] by linarith
  moreover have "t mod day_ns mod second_ns = t mod second_ns"
    by (simp add: day_ns_def mod_mod_cancel)
  then have "s * second_ns + t mod second_ns = t mod day_ns"
    unfolding s_def using div_mult_mod_eq [of "t mod day_ns" second_ns] by simp
  moreover have "t div day_ns * 86400 * second_ns + t mod day_ns = t"
    using div_mult_mod_eq [of t day_ns] by (simp add: day_ns_def)
  ultimately show "(t div day_ns * 86400 + (s div 3600 * 3600 + s div 60 mod 60 * 60 + s mod 60)) * second_ns
       + t mod second_ns = t"
    by (simp add: algebra_simps)
qed

text \<open>The text has the shape \<^verbatim>\<open>YYYY-MM-DDTHH:MM:SS\<close>, whose fields the parser reads back.\<close>

lemma parse_datetime_fields:
  assumes "y \<le> 9999" "1 \<le> m" "m \<le> 12" "1 \<le> d" "d \<le> nat (daysIn (is_leap (int y)) m)"
    "h \<le> 23" "mi \<le> 59" "sec \<le> 59"
    and zone: "parse_fraction rest = (ns, z)" "parse_zone z = Some 0"
  shows "parseRFC3339 (digits 4 y @ ''-'' @ digits 2 m @ ''-'' @ digits 2 d @ ''T'' @ digits 2 h @ '':''
           @ digits 2 mi @ '':'' @ digits 2 sec @ rest)
         = Some ((day_number (int y) m (int d) * 86400 + int (h * 3600 + mi * 60 + sec)) * second_ns + int ns)"
proof -
  let ?s = "digits 4 y @ ''-'' @ digits 2 m @ ''-'' @ digits 2 d @ ''T'' @ digits 2 h @ '':''
           @ digits 2 mi @ '':'' @ digits 2 sec @ rest"
  have sl: "slice ?s 0 4 = digits 4 y" "slice ?s 5 7 = digits 2 m" "slice ?s 8 10 = digits 2 d"
    "slice ?s 11 13 = digits 2 h" "slice ?s 14 16 = digits 2 mi" "slice ?s 17 19 = digits 2 sec"
    "drop 19 ?s = rest"
    by (simp_all add: slice_def)
  have at: "?s ! 4 = CHR ''-''" "?s ! 7 = CHR ''-''" "?s ! 10 = CHR ''T''" "?s ! 13 = CHR '':''"
    "?s ! 16 = CHR '':''"
    by (simp_all add: nth_append)
  have d31: "d < 100" using assms(5) daysIn_le [OF assms(2,3), of "is_leap (int y)"] by linarith
  have p: "parse_uint (digits 4 y) 0 9999 = Some y" "parse_uint (digits 2 m) 1 12 = Some m"
    "parse_uint (digits 2 d) 1 (nat (daysIn (is_leap (int y)) m)) = Some d"
    "parse_uint (digits 2 h) 0 23 = Some h" "parse_uint (digits 2 mi) 0 59 = Some mi"
    "parse_uint (digits 2 sec) 0 59 = Some sec"
    using assms d31 by simp_all
  show ?thesis unfolding parseRFC3339_def sl p at zone Let_def by (simp add: zone p del: One_nat_def)
qed

lemma appendInt_4:
  assumes "0 \<le> y" "y \<le> 9999" shows "appendInt y 4 = digits 4 (nat y)"
proof -
  have "nat y < 10 ^ 4" using assms by simp
  moreover have "abs y = y" "\<not> y < 0" using assms by simp_all
  ultimately show ?thesis unfolding appendInt_def Let_def by simp
qed

lemma format_datetime_fields:
  assumes "0 \<le> time_year t" "time_year t \<le> 9999" "parse_fraction rest = (ns, z)" "parse_zone z = Some 0"
    and ns: "int ns = t mod second_ns"
  shows "parseRFC3339 (format_datetime t @ rest) = Some t"
proof -
  obtain y m d where c: "civil (t div day_ns) = (y, m, d)" by (cases "civil (t div day_ns)")
  note cc = civil_correct [OF c]
  let ?s = "t mod day_ns div second_ns"
  note tod = time_of_day [of t]
  have y: "0 \<le> y" "y \<le> 9999" using assms(1,2) c by (simp_all add: time_year_def)
  have f: "format_datetime t @ rest = digits 4 (nat y) @ ''-'' @ digits 2 m @ ''-'' @ digits 2 (nat d) @ ''T''
      @ digits 2 (nat (?s div 3600)) @ '':'' @ digits 2 (nat (?s div 60 mod 60)) @ '':''
      @ digits 2 (nat (?s mod 60)) @ rest"
    by (simp add: format_datetime_def c appendInt_4 [OF y] Let_def)
  have le: "nat y \<le> 9999" "1 \<le> nat d" "nat d \<le> nat (daysIn (is_leap (int (nat y))) m)"
    "nat (?s div 3600) \<le> 23" "nat (?s div 60 mod 60) \<le> 59" "nat (?s mod 60) \<le> 59"
    using y cc(4,5) tod(2,4,6) by (simp_all only: nat_le_iff) (simp_all add: nat_mono)
  have eq: "int (nat (?s div 3600) * 3600 + nat (?s div 60 mod 60) * 60 + nat (?s mod 60))
      = ?s div 3600 * 3600 + ?s div 60 mod 60 * 60 + ?s mod 60"
    using tod(1,3,5) by simp
  have yd: "int (nat y) = y" "int (nat d) = d" using y cc(4) by simp_all
  have "parseRFC3339 (format_datetime t @ rest)
      = Some ((day_number (int (nat y)) m (int (nat d)) * 86400
               + int (nat (?s div 3600) * 3600 + nat (?s div 60 mod 60) * 60 + nat (?s mod 60))) * second_ns
              + int ns)"
    unfolding f by (rule parse_datetime_fields [OF le(1) cc(2,3) le(2-6) assms(3,4)])
  then show ?thesis unfolding eq yd cc(1) ns tod(7) .
qed

lemma parse_zone_Z [simp]: "parse_zone ''Z'' = Some 0"
  by (simp add: parse_zone_def)

lemma parse_Format_RFC3339Nano:
  assumes "0 \<le> time_year t" "time_year t \<le> 9999"
  shows "parseRFC3339 (Format_RFC3339Nano t) = Some t"
proof -
  have ns: "0 \<le> t mod second_ns" "t mod second_ns < 10 ^ 9" by (simp_all add: second_ns_def)
  then have "parse_fraction (format_fraction (nat (t mod second_ns)) @ ''Z'') = (nat (t mod second_ns), ''Z'')"
    by (intro parse_format_fraction) (simp add: nat_less_iff)
  from format_datetime_fields [OF assms this parse_zone_Z] show ?thesis
    using ns(1) by (simp add: Format_RFC3339Nano_def)
qed

lemma Format_RFC3339Nano_inj:
  assumes "0 \<le> time_year t" "time_year t \<le> 9999" "0 \<le> time_year u" "time_year u \<le> 9999"
    and "Format_RFC3339Nano t = Format_RFC3339Nano u"
  shows "t = u"
  using parse_Format_RFC3339Nano [OF assms(1,2)] parse_Format_RFC3339Nano [OF assms(3,4)]
  unfolding assms(5) by (metis option.inject)

lemma set_TrimRightChar: "set (TrimRightChar c s) \<subseteq> set s"
  by (auto simp: TrimRightChar_def dest: set_dropWhileD)

lemma digits_chars: "set (digits w n) \<subseteq> Collect is_digit"
  using digits_are_digits [of w n] by (auto simp: list_all_iff)

lemma Format_RFC3339Nano_chars:
  assumes "0 \<le> time_year t" "time_year t \<le> 9999"
  shows "set (Format_RFC3339Nano t) \<subseteq> Collect is_digit \<union> set ''-T:.Z''"
proof -
  obtain y m d where c: "civil (t div day_ns) = (y, m, d)" by (cases "civil (t div day_ns)")
  have y: "0 \<le> y" "y \<le> 9999" using assms c by (simp_all add: time_year_def)
  have "set (format_datetime t) \<subseteq> Collect is_digit \<union> set ''-T:.Z''"
    using digits_chars by (fastforce simp: format_datetime_def c appendInt_4 [OF y] Let_def)
  moreover have "set (format_fraction n) \<subseteq> Collect is_digit \<union> set ''-T:.Z''" for n
    using set_TrimRightChar [of "CHR ''0''" "digits 9 n"] digits_chars [of 9 n]
    by (auto simp: format_fraction_def)
  ultimately show ?thesis by (auto simp: Format_RFC3339Nano_def)
qed

lemma Format_RFC3339Nano_no_newline:
  assumes "0 \<le> time_year t" "time_year t \<le> 9999" shows "CHR 0x0A \<notin> set (Format_RFC3339Nano t)"
  using Format_RFC3339Nano_chars [OF assms] by (auto simp: is_digit_def ord_def)

end
