(* ===== verification/Migration.thy ===== *)
theory Migration
  imports Sync_Status Password_Crypto Go_Time
begin

text \<open>
  Package \<^verbatim>\<open>internal/migration\<close> (\<^verbatim>\<open>classifier.go\<close>, \<^verbatim>\<open>upn.go\<close>, \<^verbatim>\<open>event.go\<close>,
  \<^verbatim>\<open>message.go\<close>, \<^verbatim>\<open>service.go\<close>): the decision whether a portal event becomes a
  password sync message, and the message. The status store, the queue and the encrypter that
  the service was built with are arguments, each absent when the Go interface value is nil;
  \<^verbatim>\<open>Submit\<close> threads the store's and the queue's states. The final contents of the password
  buffer are part of its result.
\<close>

section \<open>Identities\<close>

type_synonym identity_type = string

definition IdentityUnknown :: identity_type where "IdentityUnknown = ''unknown''"
definition IdentityStudentID :: identity_type where "IdentityStudentID = ''student_id''"
definition IdentityEmployeeID :: identity_type where "IdentityEmployeeID = ''employee_id''"
definition IdentityExternalEmail :: identity_type where "IdentityExternalEmail = ''external_email''"

lemmas identity_defs =
  IdentityUnknown_def IdentityStudentID_def IdentityEmployeeID_def IdentityExternalEmail_def

definition allDigits :: "unicode_tables \<Rightarrow> string \<Rightarrow> bool" where
  "allDigits U s = list_all (unicode_IsDigit U) (runes s)"

definition startsWithLetter :: "unicode_tables \<Rightarrow> string \<Rightarrow> bool" where
  "startsWithLetter U s = (case runes s of [] \<Rightarrow> False | r # _ \<Rightarrow> unicode_IsLetter U r)"

definition allLettersDigitsOrHyphen :: "unicode_tables \<Rightarrow> string \<Rightarrow> bool" where
  "allLettersDigitsOrHyphen U s =
     list_all (\<lambda>r. r = 0x2D \<or> unicode_IsLetter U r \<or> unicode_IsDigit U r) (runes s)"

definition ClassifyCN :: "unicode_tables \<Rightarrow> string \<Rightarrow> identity_type" where
  "ClassifyCN U cn =
     (let normalized = TrimSpace cn in
      if normalized = [] then IdentityUnknown
      else if Contains normalized ''@'' then IdentityExternalEmail
      else if allDigits U normalized then IdentityStudentID
      else if startsWithLetter U normalized \<and> allLettersDigitsOrHyphen U normalized then IdentityEmployeeID
      else IdentityUnknown)"

definition BuildUPN :: "unicode_tables \<Rightarrow> string \<Rightarrow> string \<Rightarrow> goerror + string" where
  "BuildUPN U cn primaryDomain =
     (let normalizedCN = TrimSpace cn; domain = ToLower U (TrimSpace primaryDomain) in
      if normalizedCN = [] then Inl ErrUnknownIdentity
      else if domain = [] then Inl (ErrorString ''entra primary domain is required'')
      else
        let identity = ClassifyCN U normalizedCN in
        if identity = IdentityStudentID \<or> identity = IdentityEmployeeID
        then Inr (normalizedCN @ ''@'' @ domain)
        else if identity = IdentityExternalEmail then Inl ErrExternalIdentity
        else Inl ErrUnknownIdentity)"

section \<open>Events and messages\<close>

type_synonym event_type = string

definition EventLoginBootstrap :: event_type where "EventLoginBootstrap = ''login_bootstrap''"
definition EventPasswordChange :: event_type where "EventPasswordChange = ''password_change''"
definition EventPasswordRecovery :: event_type where "EventPasswordRecovery = ''password_recovery''"

lemmas event_defs = EventLoginBootstrap_def EventPasswordChange_def EventPasswordRecovery_def

definition ValidEventType :: "event_type \<Rightarrow> bool" where
  "ValidEventType t \<longleftrightarrow> t = EventLoginBootstrap \<or> t = EventPasswordChange \<or> t = EventPasswordRecovery"

text \<open>The field \<^verbatim>\<open>Password\<close> of the message is never assigned and has no JSON name.\<close>

record password_sync_message =
  msgCN :: string
  msgUPN :: string
  msgEventType :: event_type
  msgTraceID :: string
  msgPasswordCiphertext :: string
  msgPasswordNonce :: string
  msgPasswordKeyID :: string
  msgPasswordAlg :: string
  msgDisplayName :: string
  msgMail :: string
  msgEnqueuedAt :: instant

definition passwordAAD :: "string \<Rightarrow> string \<Rightarrow> instant \<Rightarrow> byte list" where
  "passwordAAD cn upn enqueuedAt =
     bytes_of (Join [''password-sync'', TrimSpace cn, TrimSpace upn, Format_RFC3339Nano enqueuedAt] [CHR 0x0A])"

definition PasswordAAD :: "string \<Rightarrow> string \<Rightarrow> instant \<Rightarrow> byte list" where
  "PasswordAAD cn upn enqueuedAt = passwordAAD cn upn enqueuedAt"

section \<open>The service\<close>

definition defaultPendingTTL :: duration where "defaultPendingTTL = 300 * second_ns"

record request =
  reqCN :: string
  reqEventType :: event_type
  reqPassword :: "byte list"
  reqDisplayName :: string
  reqMail :: string

record decision =
  decIdentityType :: identity_type
  decUPN :: string
  decEnqueued :: bool
  decSkipped :: bool
  decReason :: string

definition emptyDecision :: decision where
  "emptyDecision =
     \<lparr>decIdentityType = [], decUPN = [], decEnqueued = False, decSkipped = False, decReason = []\<rparr>"

record 's status_ops =
  opGet :: "'s \<Rightarrow> string \<Rightarrow> goerror + status_record"
  opMarkPending :: "'s \<Rightarrow> string \<Rightarrow> instant \<Rightarrow> 's \<times> goerror option"

type_synonym 'q enqueue_op = "'q \<Rightarrow> password_sync_message \<Rightarrow> 'q \<times> goerror option"
type_synonym encrypt_op = "byte list \<Rightarrow> byte list \<Rightarrow> goerror + envelope"

record ('s, 'q) service =
  svcPrimaryDomain :: string
  svcQueue :: "'q enqueue_op option"
  svcEncrypter :: "encrypt_op option"
  svcStore :: "'s status_ops option"
  svcPendingTTL :: duration

text \<open>\<^verbatim>\<open>NewService\<close> panics when it is given more than one \<^verbatim>\<open>ServiceOptions\<close>.\<close>

definition NewService ::
  "string \<Rightarrow> 'q enqueue_op option \<Rightarrow> encrypt_op option \<Rightarrow> ('s status_ops option \<times> duration) list
     \<Rightarrow> ('s, 'q) service outcome" where
  "NewService primaryDomain queue encrypter opts =
     (if 1 < length opts then Panicked ''migration.NewService: at most one ServiceOptions is supported''
      else
        let (store, ttl) = (case opts of [] \<Rightarrow> (None, 0) | opt # _ \<Rightarrow> opt);
            pendingTTL = (if ttl \<le> 0 then defaultPendingTTL else ttl)
        in Returned \<lparr>svcPrimaryDomain = primaryDomain, svcQueue = queue, svcEncrypter = encrypter,
                     svcStore = store, svcPendingTTL = pendingTTL\<rparr>)"

definition skipLoginBootstrap ::
  "('s, 'q) service \<Rightarrow> 's status_ops \<Rightarrow> instant \<Rightarrow> 's \<Rightarrow> string \<Rightarrow> bool \<times> string" where
  "skipLoginBootstrap svc store now s upn =
     (case opGet store s upn of
        Inl err \<Rightarrow> (False, [])
      | Inr rec \<Rightarrow>
          if recStatus rec = StatusSynced then (True, ''already_synced'')
          else if recStatus rec = StatusPending then
            if now < recUpdatedAt rec then (False, [])
            else if now < recUpdatedAt rec + svcPendingTTL svc then (True, ''sync_pending'')
            else (False, [])
          else (False, []))"

text \<open>
  \<^verbatim>\<open>Submit\<close> up to the enqueuing: it ends early with a decision and an error if any, or
  goes on with the decision so far. \<open>now1\<close> is the clock at the freshness check.
\<close>

definition submit_guards ::
  "unicode_tables \<Rightarrow> ('s, 'q) service \<Rightarrow> instant \<Rightarrow> 's \<Rightarrow> request
     \<Rightarrow> (decision \<times> goerror option) + decision" where
  "submit_guards U svc now1 s req =
     (if \<not> ValidEventType (reqEventType req) then Inl (emptyDecision, Some ErrInvalidEventType)
      else
        let identityType = ClassifyCN U (reqCN req);
            decision = emptyDecision\<lparr>decIdentityType := identityType\<rparr>
        in if identityType = IdentityExternalEmail
           then Inl (decision\<lparr>decSkipped := True, decReason := ''cn_is_external_email''\<rparr>, None)
           else if identityType = IdentityUnknown then Inl (decision, Some ErrUnknownIdentity)
           else case BuildUPN U (reqCN req) (svcPrimaryDomain svc) of
             Inl err \<Rightarrow> Inl (decision, Some err)
           | Inr upn \<Rightarrow>
               (let decision = decision\<lparr>decUPN := upn\<rparr>;
                    (skip, reason) = (case svcStore svc of
                                        Some store \<Rightarrow>
                                          if reqEventType req = EventLoginBootstrap
                                          then skipLoginBootstrap svc store now1 s upn else (False, [])
                                      | None \<Rightarrow> (False, []))
                in if skip then Inl (decision\<lparr>decSkipped := True, decReason := reason\<rparr>, None)
                   else if svcQueue svc = None
                   then Inl (decision, Some (ErrorString ''migration queue is not configured''))
                   else if svcEncrypter svc = None
                   then Inl (decision, Some (ErrorString ''password encrypter is not configured''))
                   else Inr decision))"

definition new_message :: "request \<Rightarrow> string \<Rightarrow> string \<Rightarrow> instant \<Rightarrow> password_sync_message" where
  "new_message req upn traceID now =
     \<lparr>msgCN = TrimSpace (reqCN req), msgUPN = upn, msgEventType = reqEventType req, msgTraceID = traceID,
      msgPasswordCiphertext = [], msgPasswordNonce = [], msgPasswordKeyID = [], msgPasswordAlg = [],
      msgDisplayName = TrimSpace (reqDisplayName req), msgMail = TrimSpace (reqMail req),
      msgEnqueuedAt = now\<rparr>"

definition seal_message :: "password_sync_message \<Rightarrow> envelope \<Rightarrow> password_sync_message" where
  "seal_message msg env =
     msg\<lparr>msgPasswordCiphertext := envCiphertext env, msgPasswordNonce := envNonce env,
         msgPasswordKeyID := envKeyID env, msgPasswordAlg := envAlgorithm env\<rparr>"

text \<open>
  \<^verbatim>\<open>Submit\<close>: the decision and the error, the states of the store and of the queue, and
  the final contents of \<^verbatim>\<open>req.Password\<close>. \<open>now2\<close> is the clock at the enqueuing.
\<close>

definition Submit ::
  "unicode_tables \<Rightarrow> ('s, 'q) service \<Rightarrow> string \<Rightarrow> instant \<Rightarrow> instant \<Rightarrow> 's \<Rightarrow> 'q \<Rightarrow> request
     \<Rightarrow> decision \<times> goerror option \<times> 's \<times> 'q \<times> byte list" where
  "Submit U svc traceID now1 now2 s q req =
     (case submit_guards U svc now1 s req of
        Inl (decision, err) \<Rightarrow> (decision, err, s, q, ZeroBytes (reqPassword req))
      | Inr decision \<Rightarrow>
          (let upn = decUPN decision; msg = new_message req upn traceID now2
           in case (the (svcEncrypter svc)) (reqPassword req)
                     (passwordAAD (msgCN msg) (msgUPN msg) (msgEnqueuedAt msg)) of
                Inl err \<Rightarrow>
                  (decision, Some (Wrapped ''encrypt password payload: '' err), s, q,
                   ZeroBytes (reqPassword req))
              | Inr env \<Rightarrow>
                  (case (the (svcQueue svc)) q (seal_message msg env) of
                     (q', Some err) \<Rightarrow> (decision, Some err, s, q', ZeroBytes (reqPassword req))
                   | (q', None) \<Rightarrow>
                       (let s' = (case svcStore svc of
                                    None \<Rightarrow> s
                                  | Some store \<Rightarrow> fst (opMarkPending store s upn (msgEnqueuedAt msg)))
                        in (decision\<lparr>decEnqueued := True\<rparr>, None, s', q',
                            ZeroBytes (reqPassword req))))))"

text \<open>The in-process store as the service sees it: the context errors and the clock are fixed per call.\<close>

definition memory_ops ::
  "unicode_tables \<Rightarrow> goerror option \<Rightarrow> goerror option \<Rightarrow> instant \<Rightarrow> memory_store status_ops" where
  "memory_ops U ctxGet ctxMark now =
     \<lparr>opGet = MemoryStore_Get U ctxGet, opMarkPending = MemoryStore_MarkPending U ctxMark now\<rparr>"

section \<open>Lemmas on identities\<close>

lemma identity_distinct [simp]:
  "IdentityStudentID \<noteq> IdentityUnknown" "IdentityEmployeeID \<noteq> IdentityUnknown"
  "IdentityStudentID \<noteq> IdentityExternalEmail" "IdentityEmployeeID \<noteq> IdentityExternalEmail"
  "IdentityExternalEmail \<noteq> IdentityUnknown" "IdentityStudentID \<noteq> IdentityEmployeeID"
  by (simp_all add: identity_defs)

lemmas identity_distinct_sym [simp] = identity_distinct [symmetric]

lemma ClassifyCN_TrimSpace [simp]: "ClassifyCN U (TrimSpace cn) = ClassifyCN U cn"
  by (simp add: ClassifyCN_def TrimSpace_idem)

definition migratable :: "unicode_tables \<Rightarrow> string \<Rightarrow> bool" where
  "migratable U cn \<longleftrightarrow> ClassifyCN U cn = IdentityStudentID \<or> ClassifyCN U cn = IdentityEmployeeID"

text \<open>A migratable name has only letters, digits and hyphens.\<close>

lemma migratable_runes:
  assumes "migratable U cn"
  shows "TrimSpace cn \<noteq> []" "\<not> Contains (TrimSpace cn) ''@''" "allLettersDigitsOrHyphen U (TrimSpace cn)"
proof -
  have "allDigits U s \<Longrightarrow> allLettersDigitsOrHyphen U s" for s
    by (auto simp: allDigits_def allLettersDigitsOrHyphen_def list_all_iff)
  with assms show "TrimSpace cn \<noteq> []" "\<not> Contains (TrimSpace cn) ''@''"
    "allLettersDigitsOrHyphen U (TrimSpace cn)"
    by (auto simp: migratable_def ClassifyCN_def Let_def split: if_splits)
qed

lemma migratable_ascii_chars:
  assumes "migratable U cn" "c \<in> set (TrimSpace cn)" "ord c < 0x80"
  shows "c = CHR ''-'' \<or> 0x30 \<le> ord c \<and> ord c \<le> 0x39 \<or> 0x41 \<le> ord c \<and> ord c \<le> 0x5A
           \<or> 0x61 \<le> ord c \<and> ord c \<le> 0x7A"
proof -
  have "ord c \<in> set (runes (TrimSpace cn))" using assms(2,3) runes_ascii by blast
  then have "ord c = 0x2D \<or> unicode_IsLetter U (ord c) \<or> unicode_IsDigit U (ord c)"
    using migratable_runes(3) [OF assms(1)] by (auto simp: allLettersDigitsOrHyphen_def list_all_iff)
  moreover have "ord c = 0x2D \<Longrightarrow> c = CHR ''-''"
    using ord_eq_iff [of c "CHR ''-''"] by (simp add: ord_def)
  ultimately show ?thesis
    using assms(3) by (auto simp: unicode_IsLetter_def unicode_IsDigit_def)
qed

lemma migratable_no_newline: "migratable U cn \<Longrightarrow> CHR 0x0A \<notin> set (TrimSpace cn)"
  using migratable_ascii_chars [of U cn "CHR 0x0A"] by (auto simp: ord_def)

lemma migratable_no_at: "migratable U cn \<Longrightarrow> CHR ''@'' \<notin> set (TrimSpace cn)"
  using migratable_ascii_chars [of U cn "CHR ''@''"] by (auto simp: ord_def)

lemma BuildUPN_Inr_iff:
  "BuildUPN U cn domain = Inr upn \<longleftrightarrow>
     migratable U cn \<and> ToLower U (TrimSpace domain) \<noteq> []
     \<and> upn = TrimSpace cn @ ''@'' @ ToLower U (TrimSpace domain)"
  using migratable_runes(1) [of U cn]
  by (auto simp: BuildUPN_def migratable_def Let_def)

section \<open>Lemmas on Submit\<close>

lemma submit_guards_Inr:
  assumes "submit_guards U svc now1 s req = Inr d"
  shows "ValidEventType (reqEventType req)" "svcQueue svc \<noteq> None" "svcEncrypter svc \<noteq> None"
    "BuildUPN U (reqCN req) (svcPrimaryDomain svc) = Inr (decUPN d)"
    "d = emptyDecision\<lparr>decIdentityType := ClassifyCN U (reqCN req), decUPN := decUPN d\<rparr>"
  using assms
  by (auto simp: submit_guards_def Let_def emptyDecision_def split: if_splits sum.splits prod.splits option.splits)

lemma submit_guards_Inl:
  assumes "submit_guards U svc now1 s req = Inl (d, err)"
  shows "\<not> decEnqueued d" "decSkipped d \<longleftrightarrow> err = None"
  using assms
  by (auto simp: submit_guards_def Let_def emptyDecision_def split: if_splits sum.splits prod.splits option.splits)

lemma Submit_enqueued:
  assumes "Submit U svc traceID now1 now2 s q req = (d, err, s', q', buf)" and "decEnqueued d"
  obtains enqueue encrypt env where "svcQueue svc = Some enqueue" "svcEncrypter svc = Some encrypt"
    "BuildUPN U (reqCN req) (svcPrimaryDomain svc) = Inr (decUPN d)" "ValidEventType (reqEventType req)"
    "encrypt (reqPassword req) (passwordAAD (TrimSpace (reqCN req)) (decUPN d) now2) = Inr env"
    "enqueue q (seal_message (new_message req (decUPN d) traceID now2) env) = (q', None)"
proof (cases "submit_guards U svc now1 s req")
  case (Inl x)
  then show ?thesis using assms submit_guards_Inl [of U svc now1 s req "fst x" "snd x"] by (simp add: Submit_def split: prod.splits)
next
  case (Inr d0)
  note g = submit_guards_Inr [OF Inr]
  have "\<not> decEnqueued d0" by (subst g(5), simp add: emptyDecision_def)
  then show ?thesis
    using assms Inr g(1-4) that by (auto simp: Submit_def Let_def new_message_def split: sum.splits prod.splits option.splits)
qed

section \<open>Properties of the migration service\<close>

text \<open>
  C3: every path of \<^verbatim>\<open>Submit\<close>. The password buffer is overwritten in full whatever
  happens; the decision says enqueued exactly when there was no error and no skip; a skip
  touches neither queue nor store; an error leaves the store alone; and an enqueued message is
  the one built for this request and account, carrying the encryption of the password bound to
  the account and to the enqueue time.
\<close>

theorem submit_outcome:
  assumes "Submit U svc traceID now1 now2 s q req = (d, err, s', q', buf)"
  shows "zeroed buf \<and> length buf = length (reqPassword req)
    \<and> (decEnqueued d \<longleftrightarrow> err = None \<and> \<not> decSkipped d)
    \<and> (decSkipped d \<longrightarrow> err = None \<and> s' = s \<and> q' = q)
    \<and> (err \<noteq> None \<longrightarrow> s' = s)
    \<and> (decEnqueued d \<longrightarrow> (\<exists>enqueue encrypt env.
         svcQueue svc = Some enqueue \<and> svcEncrypter svc = Some encrypt
         \<and> BuildUPN U (reqCN req) (svcPrimaryDomain svc) = Inr (decUPN d)
         \<and> encrypt (reqPassword req) (passwordAAD (TrimSpace (reqCN req)) (decUPN d) now2) = Inr env
         \<and> enqueue q (seal_message (new_message req (decUPN d) traceID now2) env) = (q', None)))"
proof (cases "submit_guards U svc now1 s req")
  case (Inl x)
  obtain d0 err0 where x: "x = (d0, err0)" by (cases x)
  with Inl assms submit_guards_Inl [of U svc now1 s req d0 err0] show ?thesis
    by (auto simp: Submit_def)
next
  case (Inr d0)
  note g = submit_guards_Inr [OF Inr]
  obtain enqueue encrypt where ops: "svcQueue svc = Some enqueue" "svcEncrypter svc = Some encrypt"
    using g(2,3) by blast
  have d0: "\<not> decSkipped d0" "\<not> decEnqueued d0" by (subst g(5), simp add: emptyDecision_def)+
  show ?thesis
    using assms Inr ops d0 g(4)
    by (auto simp: Submit_def Let_def new_message_def split: sum.splits prod.splits option.splits)
qed

definition sample_service :: "(unit, password_sync_message list) service" where
  "sample_service =
     \<lparr>svcPrimaryDomain = '' NYCU.edu.tw'', svcQueue = Some (\<lambda>q m. (q @ [m], None)),
      svcEncrypter = Some (\<lambda>p aad. Inr \<lparr>envCiphertext = string_of p, envNonce = ''n'', envKeyID = ''k'',
                                       envAlgorithm = ''a''\<rparr>),
      svcStore = None, svcPendingTTL = 300\<rparr>"

definition sample_request :: "event_type \<Rightarrow> request" where
  "sample_request e =
     \<lparr>reqCN = '' A12345'', reqEventType = e, reqPassword = [0x70, 0x77], reqDisplayName = ''A'', reqMail = ''''\<rparr>"

theorem submit_outcome_witness:
  "\<exists>s' q' buf d err. Submit ascii_tables sample_service ''t'' 5 6 () [] (sample_request ''password_change'')
       = (d, err, s', q', buf) \<and> zeroed buf \<and> length buf = 2 \<and> (decEnqueued d \<longleftrightarrow> err = None \<and> \<not> decSkipped d)"
proof -
  obtain d err s' q' buf where r: "Submit ascii_tables sample_service ''t'' 5 6 () [] (sample_request ''password_change'')
       = (d, err, s', q', buf)" by (metis prod_cases5)
  show ?thesis using submit_outcome [OF r] r by (auto simp: sample_request_def)
qed

text \<open>
  C25: a synced account is not enqueued again by a login. If the newest message of the account
  was reported synced, wherever that report fell among the other calls of the store, a
  login-bootstrap event for any spelling of the account is skipped as already synced and
  changes nothing.
\<close>

theorem synced_account_not_reenqueued:
  assumes "m \<in> set ms" and "markStatus m = StatusSynced"
    and newest: "\<forall>m' \<in> set ms. normalizeUPN U (markUPN m') = normalizeUPN U (markUPN m)
                   \<longrightarrow> markSource m' \<le> markSource m"
    and svc: "svcStore svc = Some (memory_ops U None ctxMark nowMark)"
    and req: "reqEventType req = EventLoginBootstrap"
      "BuildUPN U (reqCN req) (svcPrimaryDomain svc) = Inr upn"
      "normalizeUPN U upn = normalizeUPN U (markUPN m)"
  shows "\<exists>d. Submit U svc traceID now1 now2 (memory_marks U NewMemoryStore ms) q req
           = (d, None, memory_marks U NewMemoryStore ms, q, ZeroBytes (reqPassword req))
         \<and> decSkipped d \<and> decReason d = ''already_synced'' \<and> decUPN d = upn"
proof -
  let ?s = "memory_marks U NewMemoryStore ms"
  obtain r where "MemoryStore_Get U None ?s (markUPN m) = Inr r" and r: "recStatus r = StatusSynced"
    using memory_newest_outcome_wins [OF assms(1,2) newest] by blast
  then have get: "MemoryStore_Get U None ?s upn = Inr r"
    using req(3) by (simp add: MemoryStore_Get_def)
  have "migratable U (reqCN req)" using req(2) by (simp add: BuildUPN_Inr_iff)
  then have "ClassifyCN U (reqCN req) \<noteq> IdentityExternalEmail" "ClassifyCN U (reqCN req) \<noteq> IdentityUnknown"
    by (auto simp: migratable_def)
  with req(1,2) svc get r show ?thesis
    by (simp add: Submit_def submit_guards_def skipLoginBootstrap_def memory_ops_def ValidEventType_def
        emptyDecision_def)
qed

definition sample_memory_service :: "(memory_store, password_sync_message list) service" where
  "sample_memory_service =
     \<lparr>svcPrimaryDomain = '' NYCU.edu.tw'', svcQueue = Some (\<lambda>q m. (q @ [m], None)),
      svcEncrypter = Some (\<lambda>p aad. Inr \<lparr>envCiphertext = string_of p, envNonce = ''n'', envKeyID = ''k'',
                                       envAlgorithm = ''a''\<rparr>),
      svcStore = Some (memory_ops ascii_tables None None 8), svcPendingTTL = 300\<rparr>"

definition sample_bootstrap :: request where
  "sample_bootstrap =
     \<lparr>reqCN = '' A1'', reqEventType = EventLoginBootstrap, reqPassword = [0x70, 0x77],
      reqDisplayName = ''A'', reqMail = ''''\<rparr>"

theorem synced_account_not_reenqueued_witness:
  "\<exists>d. Submit ascii_tables sample_memory_service ''t'' 20 21
         (memory_marks ascii_tables NewMemoryStore [sample_mark StatusSynced 5 9, sample_mark StatusPending 5 10])
         [] sample_bootstrap
       = (d, None,
          memory_marks ascii_tables NewMemoryStore [sample_mark StatusSynced 5 9, sample_mark StatusPending 5 10],
          [], ZeroBytes (reqPassword sample_bootstrap))
     \<and> decSkipped d \<and> decReason d = ''already_synced'' \<and> decUPN d = ''A1@nycu.edu.tw''"
proof (rule synced_account_not_reenqueued [where m = "sample_mark StatusSynced 5 9"
      and ctxMark = None and nowMark = 8])
  show "BuildUPN ascii_tables (reqCN sample_bootstrap) (svcPrimaryDomain sample_memory_service)
      = Inr ''A1@nycu.edu.tw''" by code_simp
  show "normalizeUPN ascii_tables ''A1@nycu.edu.tw''
      = normalizeUPN ascii_tables (markUPN (sample_mark StatusSynced 5 9))" by code_simp
qed (auto simp: sample_mark_def sample_memory_service_def sample_bootstrap_def)

text \<open>
  A password change or recovery of a migratable account is enqueued whatever the status
  store says or fails with, and also when recording the pending status fails.
\<close>

theorem password_change_always_enqueued:
  assumes "reqEventType req = EventPasswordChange \<or> reqEventType req = EventPasswordRecovery"
    and "BuildUPN U (reqCN req) (svcPrimaryDomain svc) = Inr upn"
    and "svcQueue svc = Some enqueue" and "svcEncrypter svc = Some encrypt"
    and "encrypt (reqPassword req) (passwordAAD (TrimSpace (reqCN req)) upn now2) = Inr env"
    and "enqueue q (seal_message (new_message req upn traceID now2) env) = (q', None)"
  shows "\<exists>d s'. Submit U svc traceID now1 now2 s q req = (d, None, s', q', ZeroBytes (reqPassword req))
           \<and> decEnqueued d \<and> decUPN d = upn"
proof -
  have "migratable U (reqCN req)" using assms(2) by (simp add: BuildUPN_Inr_iff)
  then have "ClassifyCN U (reqCN req) \<noteq> IdentityExternalEmail" "ClassifyCN U (reqCN req) \<noteq> IdentityUnknown"
    by (auto simp: migratable_def)
  moreover have "ValidEventType (reqEventType req)" "reqEventType req \<noteq> EventLoginBootstrap"
    using assms(1) by (auto simp: ValidEventType_def event_defs)
  ultimately have "submit_guards U svc now1 s req
      = Inr (emptyDecision\<lparr>decIdentityType := ClassifyCN U (reqCN req), decUPN := upn\<rparr>)"
    using assms(2-4) by (simp add: submit_guards_def split: option.split)
  with assms(3-6) show ?thesis by (simp add: Submit_def new_message_def Let_def)
qed

theorem password_change_always_enqueued_witness:
  "\<exists>d s'. Submit ascii_tables sample_service ''t'' 5 6 () [] (sample_request ''password_change'')
       = (d, None, s', [seal_message (new_message (sample_request ''password_change'') ''A12345@nycu.edu.tw'' ''t'' 6)
                          \<lparr>envCiphertext = ''pw'', envNonce = ''n'', envKeyID = ''k'', envAlgorithm = ''a''\<rparr>],
          ZeroBytes (reqPassword (sample_request ''password_change'')))
     \<and> decEnqueued d \<and> decUPN d = ''A12345@nycu.edu.tw''"
proof (rule password_change_always_enqueued [where enqueue = "\<lambda>q m. (q @ [m], None)"])
  show "BuildUPN ascii_tables (reqCN (sample_request ''password_change'')) (svcPrimaryDomain sample_service)
      = Inr ''A12345@nycu.edu.tw''" by code_simp
  have "string_of [0x70, 0x77] = ''pw''" by code_simp
  then show "(\<lambda>p aad. Inr \<lparr>envCiphertext = string_of p, envNonce = ''n'', envKeyID = ''k'', envAlgorithm = ''a''\<rparr>)
       (reqPassword (sample_request ''password_change''))
       (passwordAAD (TrimSpace (reqCN (sample_request ''password_change''))) ''A12345@nycu.edu.tw'' 6)
     = (Inr \<lparr>envCiphertext = ''pw'', envNonce = ''n'', envKeyID = ''k'', envAlgorithm = ''a''\<rparr> :: goerror + envelope)"
    by (simp add: sample_request_def)
qed (simp_all add: sample_service_def sample_request_def EventPasswordChange_def)

text \<open>
  C27: the additional data binds a ciphertext to one account and one enqueue time: two
  requests of migratable names have the same additional data only if name, principal name and
  time agree (for years the JSON form of a time admits).
\<close>

theorem passwordAAD_binds:
  assumes "migratable U cn" "migratable U cn'"
    and "0 \<le> time_year t" "time_year t \<le> 9999" "0 \<le> time_year t'" "time_year t' \<le> 9999"
    and "passwordAAD cn upn t = passwordAAD cn' upn' t'"
  shows "TrimSpace cn = TrimSpace cn' \<and> TrimSpace upn = TrimSpace upn' \<and> t = t'"
proof -
  have "TrimSpace cn @ CHR 0x0A # (TrimSpace upn @ CHR 0x0A # Format_RFC3339Nano t)
      = TrimSpace cn' @ CHR 0x0A # (TrimSpace upn' @ CHR 0x0A # Format_RFC3339Nano t')"
    using assms(7) by (simp add: passwordAAD_def bytes_of_inj)
  then have cn: "TrimSpace cn = TrimSpace cn'"
    and rest: "TrimSpace upn @ CHR 0x0A # Format_RFC3339Nano t = TrimSpace upn' @ CHR 0x0A # Format_RFC3339Nano t'"
    using first_separator_unique migratable_no_newline [OF assms(1)] migratable_no_newline [OF assms(2)]
    by metis+
  from rest have "TrimSpace upn = TrimSpace upn'" "Format_RFC3339Nano t = Format_RFC3339Nano t'"
    using last_separator_unique Format_RFC3339Nano_no_newline [OF assms(3,4)]
      Format_RFC3339Nano_no_newline [OF assms(5,6)] by metis+
  with cn Format_RFC3339Nano_inj [OF assms(3-6)] show ?thesis by blast
qed

theorem passwordAAD_binds_witness:
  "migratable ascii_tables ''A1'' \<and> passwordAAD ''A1'' ''A1@n'' 0 = passwordAAD '' A1'' ''A1@n '' 0
   \<and> TrimSpace ''A1'' = TrimSpace '' A1''"
proof -
  have m: "migratable ascii_tables ''A1''" "migratable ascii_tables '' A1''" by code_simp+
  have a: "passwordAAD ''A1'' ''A1@n'' 0 = passwordAAD '' A1'' ''A1@n '' 0" by code_simp
  have y: "0 \<le> time_year 0" "time_year 0 \<le> 9999" by code_simp+
  show ?thesis using passwordAAD_binds [OF m y y a] m a by blast
qed

end
