(* ===== verification/Observability.thy ===== *)
theory Observability
  imports Go_Base
begin

text \<open>
  Package \<^verbatim>\<open>internal/observability\<close> (\<^verbatim>\<open>events.go\<close>, \<^verbatim>\<open>recorder.go\<close>): metric and
  action names, the identity attributes of log records, and the recorder interface. A call of
  the recorder or of the logger is a value of type \<open>obs\<close>; the other theories return the list
  of such calls an operation makes, in order. A \<^verbatim>\<open>Labels\<close> map is the association list of
  its entries in the order the code assigns them.
\<close>

type_synonym labels = "(string \<times> string) list"

datatype attr =
    AttrString string string
  | AttrInt string int
  | AttrBool string bool

datatype obs =
    Inc string labels
  | ObserveDuration string duration labels
  | SetGauge string int labels
  | LogAttrs string "attr list"

primrec attr_key :: "attr \<Rightarrow> string" where
  "attr_key (AttrString k v) = k"
| "attr_key (AttrInt k i) = k"
| "attr_key (AttrBool k b) = k"

section \<open>Names\<close>

definition MetricHookRequestsTotal :: string where "MetricHookRequestsTotal = ''hook_requests_total''"
definition MetricMigrationSkippedTotal :: string where "MetricMigrationSkippedTotal = ''migration_skipped_total''"
definition MetricMiddlewareRequestsTotal :: string where
  "MetricMiddlewareRequestsTotal = ''middleware_requests_total''"
definition MetricWorkerMessagesTotal :: string where "MetricWorkerMessagesTotal = ''worker_messages_total''"
definition MetricGraphUpsertDuration :: string where
  "MetricGraphUpsertDuration = ''graph_upsert_duration_seconds''"
definition MetricQueueDepth :: string where "MetricQueueDepth = ''queue_depth''"

definition ActionHookAccepted :: string where "ActionHookAccepted = ''hook_password_sync_accepted''"
definition ActionHookSkipped :: string where "ActionHookSkipped = ''hook_password_sync_skipped''"
definition ActionHookRejected :: string where "ActionHookRejected = ''hook_password_sync_rejected''"
definition ActionMiddlewareRejected :: string where "ActionMiddlewareRejected = ''middleware_request_rejected''"
definition ActionMiddlewareRecovered :: string where "ActionMiddlewareRecovered = ''middleware_panic_recovered''"
definition ActionWorkerCompleted :: string where "ActionWorkerCompleted = ''worker_password_sync_completed''"
definition ActionWorkerFailed :: string where "ActionWorkerFailed = ''worker_password_sync_failed''"
definition ActionWorkerInvalid :: string where "ActionWorkerInvalid = ''worker_message_invalid''"
definition ActionWorkerAbandoned :: string where "ActionWorkerAbandoned = ''worker_message_abandoned''"
definition ActionGraphUpsert :: string where "ActionGraphUpsert = ''graph_password_upsert''"
definition ActionQueueDepthProbe :: string where "ActionQueueDepthProbe = ''queue_depth_probe''"

section \<open>Identity attributes\<close>

record safe_identity =
  idTraceID :: string
  idCN :: string
  idUPN :: string
  idEventType :: string
  idIdentityType :: string

definition emptyIdentity :: safe_identity where
  "emptyIdentity = \<lparr>idTraceID = [], idCN = [], idUPN = [], idEventType = [], idIdentityType = []\<rparr>"

definition attr_unless_empty :: "string \<Rightarrow> string \<Rightarrow> attr list" where
  "attr_unless_empty k v = (if v \<noteq> [] then [AttrString k v] else [])"

definition SafeIdentityAttrs :: "safe_identity \<Rightarrow> attr list" where
  "SafeIdentityAttrs identity =
     attr_unless_empty ''traceId'' (idTraceID identity)
     @ attr_unless_empty ''cn'' (idCN identity)
     @ attr_unless_empty ''upn'' (idUPN identity)
     @ attr_unless_empty ''eventType'' (idEventType identity)
     @ attr_unless_empty ''identityType'' (idIdentityType identity)"

primrec attr_text :: "attr \<Rightarrow> string" where
  "attr_text (AttrString k v) = v"
| "attr_text (AttrInt k i) = decimal_int i"
| "attr_text (AttrBool k b) = (if b then ''true'' else ''false'')"

definition LabelsFromAttrs :: "attr list \<Rightarrow> string \<Rightarrow> string option" where
  "LabelsFromAttrs attrs = fold (\<lambda>a m. m(attr_key a \<mapsto> attr_text a)) attrs Map.empty"

section \<open>The capturing recorder\<close>

record sample =
  sampleName :: string
  sampleLabels :: labels
  sampleDuration :: duration
  sampleValue :: int

record capture_recorder =
  counters :: "string \<Rightarrow> sample list"
  durations :: "string \<Rightarrow> sample list"
  gauges :: "string \<Rightarrow> sample list"

definition NewCaptureRecorder :: capture_recorder where
  "NewCaptureRecorder = \<lparr>counters = (\<lambda>_. []), durations = (\<lambda>_. []), gauges = (\<lambda>_. [])\<rparr>"

definition Capture_Inc :: "capture_recorder \<Rightarrow> string \<Rightarrow> labels \<Rightarrow> capture_recorder" where
  "Capture_Inc r name labels =
     r\<lparr>counters := (counters r)(name := counters r name
         @ [\<lparr>sampleName = name, sampleLabels = labels, sampleDuration = 0, sampleValue = 1\<rparr>])\<rparr>"

definition Capture_ObserveDuration ::
  "capture_recorder \<Rightarrow> string \<Rightarrow> duration \<Rightarrow> labels \<Rightarrow> capture_recorder" where
  "Capture_ObserveDuration r name d labels =
     r\<lparr>durations := (durations r)(name := durations r name
         @ [\<lparr>sampleName = name, sampleLabels = labels, sampleDuration = d, sampleValue = 0\<rparr>])\<rparr>"

definition Capture_SetGauge :: "capture_recorder \<Rightarrow> string \<Rightarrow> int \<Rightarrow> labels \<Rightarrow> capture_recorder" where
  "Capture_SetGauge r name v labels =
     r\<lparr>gauges := (gauges r)(name := gauges r name
         @ [\<lparr>sampleName = name, sampleLabels = labels, sampleDuration = 0, sampleValue = v\<rparr>])\<rparr>"

fun capture :: "obs \<Rightarrow> capture_recorder \<Rightarrow> capture_recorder" where
  "capture (Inc name labels) r = Capture_Inc r name labels"
| "capture (ObserveDuration name d labels) r = Capture_ObserveDuration r name d labels"
| "capture (SetGauge name v labels) r = Capture_SetGauge r name v labels"
| "capture (LogAttrs action attrs) r = r"

section \<open>Lemmas\<close>

lemma SafeIdentityAttrs_keys:
  "attr_key ` set (SafeIdentityAttrs identity)
     \<subseteq> {''traceId'', ''cn'', ''upn'', ''eventType'', ''identityType''}"
  by (auto simp: SafeIdentityAttrs_def attr_unless_empty_def)

text \<open>The recorder keeps the increments of a counter in the order they were made.\<close>

lemma capture_counters:
  "map sampleLabels (counters (fold capture os r) name)
     = map sampleLabels (counters r name)
       @ List.map_filter (\<lambda>ob. case ob of Inc n ls \<Rightarrow> if n = name then Some ls else None | _ \<Rightarrow> None) os"
proof (induction os arbitrary: r)
  case (Cons ob os)
  then show ?case
    by (cases ob) (auto simp: Capture_Inc_def Capture_ObserveDuration_def Capture_SetGauge_def)
qed simp

end
