(* ===== verification/Worker.thy ===== *)
theory Worker
  imports Migration Observability
begin

text \<open>
  Package \<^verbatim>\<open>internal/worker\<close> (\<^verbatim>\<open>worker.go\<close>): the loop that receives password sync
  messages, decrypts and processes them with retries, records the outcome and settles them.

  The state is the history of the worker's calls to its collaborators, a list of \<open>event\<close>s.
  What a collaborator answers is a function of the history before the call (record
  \<open>worker_env\<close>), so that no assumption about receiver, processor, sink, recorder, clock or
  context is built in; each evaluation of \<^verbatim>\<open>ctx.Err()\<close> is an event of its own. A message
  pointer is the optional message with a number that stands for its address. The operations
  return the final contents of the message body and of every plaintext buffer.
\<close>

section \<open>Data\<close>

definition passwordSyncKind :: string where "passwordSyncKind = ''password-sync''"

definition DeadLetterReasonInvalidMessageSchema :: string where
  "DeadLetterReasonInvalidMessageSchema = ''invalid_message_schema''"
definition DeadLetterReasonPermanentProcessor :: string where
  "DeadLetterReasonPermanentProcessor = ''permanent_processor_error''"
definition DeadLetterReasonTransientRetriesExhausted :: string where
  "DeadLetterReasonTransientRetriesExhausted = ''transient_processor_retries_exhausted''"
definition dlqDescriptionInvalidMessage :: string where
  "dlqDescriptionInvalidMessage = ''invalid password sync message''"
definition dlqDescriptionPermanentError :: string where
  "dlqDescriptionPermanentError = ''permanent processor error''"
definition dlqDescriptionRetriesExhausted :: string where
  "dlqDescriptionRetriesExhausted = ''transient processor retries exhausted''"
definition PermanentReasonProcessorError :: string where
  "PermanentReasonProcessorError = DeadLetterReasonPermanentProcessor"

lemmas dead_letter_reason_defs =
  DeadLetterReasonInvalidMessageSchema_def DeadLetterReasonPermanentProcessor_def
  DeadLetterReasonTransientRetriesExhausted_def

definition defaultSettlementTimeout :: duration where "defaultSettlementTimeout = 10 * second_ns"
definition defaultEmptyReceiveDelay :: duration where "defaultEmptyReceiveDelay = 250 * millisecond_ns"
definition defaultRetryBackoffs :: "duration list" where
  "defaultRetryBackoffs = [second_ns, 2 * second_ns, 4 * second_ns]"

record worker_message =
  wmAddress :: nat
  wmBody :: "byte list"
  wmKind :: string

record password_sync_command =
  cmdCN :: string
  cmdUPN :: string
  cmdTraceID :: string
  cmdPassword :: "byte list"
  cmdDisplayName :: string
  cmdMail :: string
  cmdEnqueuedAt :: instant

record dead_letter_entry =
  dlKind :: string
  dlCN :: string
  dlUPN :: string
  dlReason :: string
  dlDescription :: string
  dlAttempts :: nat
  dlEnqueuedAt :: instant
  dlFailedAt :: instant
  dlPassword :: string

datatype event =
    CtxErr
  | Receive nat
  | Sleep duration
  | Now
  | DecryptCall envelope "byte list"
  | Process password_sync_command
  | RecordFailure dead_letter_entry
  | MarkSynced string instant
  | MarkFailed string instant
  | Complete "worker_message option"
  | Abandon "worker_message option"
  | Observe obs

type_synonym history = "event list"

record worker_env =
  envCtxErr :: "history \<Rightarrow> goerror option"
  envReceive :: "history \<Rightarrow> goerror + worker_message option list"
  envSleep :: "history \<Rightarrow> duration \<Rightarrow> goerror option"
  envNow :: "history \<Rightarrow> instant"
  envDecrypt :: "history \<Rightarrow> envelope \<Rightarrow> byte list \<Rightarrow> (goerror + byte list) outcome"
  envProcess :: "history \<Rightarrow> password_sync_command \<Rightarrow> goerror option"
  envRecordFailure :: "history \<Rightarrow> dead_letter_entry \<Rightarrow> goerror option"
  envComplete :: "history \<Rightarrow> worker_message option \<Rightarrow> goerror option"
  envAbandon :: "history \<Rightarrow> worker_message option \<Rightarrow> goerror option"

text \<open>
  The decoding of a message body by \<^verbatim>\<open>encoding/json\<close>, into the message and into the
  partial structure used for a message that is not valid.
\<close>

record message_json =
  jsonMessage :: "byte list \<Rightarrow> goerror + password_sync_message"
  jsonPartial :: "byte list \<Rightarrow> goerror + (string \<times> string \<times> instant)"

record worker =
  wkMaxMessages :: int
  wkSettlementTimeout :: duration
  wkEmptyReceiveDelay :: duration
  wkRetryBackoffs :: "duration list"

record worker_options =
  optReceiver :: bool
  optProcessor :: bool
  optDeadLetterSink :: bool
  optPasswordDecrypter :: bool
  optSyncStatusRecorder :: bool
  optMaxMessages :: int
  optSettlementTimeout :: duration
  optEmptyReceiveDelay :: duration
  optRetryBackoffs :: "duration list"

text \<open>\<^verbatim>\<open>New\<close>; a collaborator is given as whether the interface value is non-nil.\<close>

definition NewWorker :: "worker_options \<Rightarrow> goerror + worker" where
  "NewWorker options =
     (if \<not> optReceiver options then Inl (ErrorString ''worker receiver is required'')
      else if \<not> optProcessor options then Inl (ErrorString ''worker processor is required'')
      else if \<not> optDeadLetterSink options then Inl (ErrorString ''worker dead-letter sink is required'')
      else if \<not> optPasswordDecrypter options then Inl (ErrorString ''worker password decrypter is required'')
      else if \<not> optSyncStatusRecorder options then Inl (ErrorString ''worker sync status recorder is required'')
      else Inr
        \<lparr>wkMaxMessages = (if optMaxMessages options \<le> 0 then 1 else optMaxMessages options),
         wkSettlementTimeout = (if optSettlementTimeout options \<le> 0 then defaultSettlementTimeout
                                else optSettlementTimeout options),
         wkEmptyReceiveDelay = (if optEmptyReceiveDelay options \<le> 0 then defaultEmptyReceiveDelay
                                else optEmptyReceiveDelay options),
         wkRetryBackoffs = (if length (optRetryBackoffs options) = 0 then defaultRetryBackoffs
                            else optRetryBackoffs options)\<rparr>)"

section \<open>Decoding a message\<close>

definition zeroMessageBody :: "worker_message option \<Rightarrow> worker_message option" where
  "zeroMessageBody msg = map_option (\<lambda>m. m\<lparr>wmBody := ZeroBytes (wmBody m)\<rparr>) msg"

definition decodePasswordSyncMessage ::
  "message_json \<Rightarrow> worker_message option \<Rightarrow> goerror + password_sync_message" where
  "decodePasswordSyncMessage J msg =
     (case msg of
        None \<Rightarrow> Inl (ErrorString ''message is nil'')
      | Some m \<Rightarrow>
          if TrimSpace (wmKind m) \<noteq> passwordSyncKind
          then Inl (QuotedError ''unexpected message kind '' (wmKind m))
          else (case jsonMessage J (wmBody m) of
                  Inl err \<Rightarrow> Inl (Wrapped ''decode password sync message: '' err)
                | Inr out \<Rightarrow>
                    if TrimSpace (msgCN out) = []
                    then Inl (ErrorString ''password sync message CN is required'')
                    else if TrimSpace (msgUPN out) = []
                    then Inl (ErrorString ''password sync message UPN is required'')
                    else if TrimSpace (msgPasswordCiphertext out) = []
                    then Inl (ErrorString ''password sync message passwordCiphertext is required'')
                    else if TrimSpace (msgPasswordNonce out) = []
                    then Inl (ErrorString ''password sync message passwordNonce is required'')
                    else if TrimSpace (msgPasswordKeyID out) = []
                    then Inl (ErrorString ''password sync message passwordKeyId is required'')
                    else if TrimSpace (msgPasswordAlg out) = []
                    then Inl (ErrorString ''password sync message passwordAlg is required'')
                    else if msgEnqueuedAt out = 0
                    then Inl (ErrorString ''password sync message EnqueuedAt is required'')
                    else Inr out))"

definition invalidMessageDeadLetterEntry ::
  "message_json \<Rightarrow> worker_message option \<Rightarrow> instant \<Rightarrow> dead_letter_entry" where
  "invalidMessageDeadLetterEntry J msg failedAt =
     (let entry = \<lparr>dlKind = passwordSyncKind, dlCN = [], dlUPN = [],
                   dlReason = DeadLetterReasonInvalidMessageSchema,
                   dlDescription = dlqDescriptionInvalidMessage, dlAttempts = 0, dlEnqueuedAt = 0,
                   dlFailedAt = failedAt, dlPassword = []\<rparr>
      in case msg of
           None \<Rightarrow> entry
         | Some m \<Rightarrow>
             (let entry = (if TrimSpace (wmKind m) \<noteq> [] then entry\<lparr>dlKind := TrimSpace (wmKind m)\<rparr> else entry)
              in case jsonPartial J (wmBody m) of
                   Inl err \<Rightarrow> entry
                 | Inr (cn, upn, enqueuedAt) \<Rightarrow>
                     entry\<lparr>dlCN := cn, dlUPN := upn, dlEnqueuedAt := enqueuedAt\<rparr>))"

definition emptyMessage :: password_sync_message where
  "emptyMessage =
     \<lparr>msgCN = [], msgUPN = [], msgEventType = [], msgTraceID = [], msgPasswordCiphertext = [],
      msgPasswordNonce = [], msgPasswordKeyID = [], msgPasswordAlg = [], msgDisplayName = [], msgMail = [],
      msgEnqueuedAt = 0\<rparr>"

definition invalidMessageForObservability :: "dead_letter_entry \<Rightarrow> password_sync_message" where
  "invalidMessageForObservability entry =
     emptyMessage\<lparr>msgCN := dlCN entry, msgUPN := dlUPN entry, msgEnqueuedAt := dlEnqueuedAt entry\<rparr>"

section \<open>Observing outcomes\<close>

definition recordOutcome ::
  "string \<Rightarrow> password_sync_message \<Rightarrow> string \<Rightarrow> string \<Rightarrow> nat \<Rightarrow> history" where
  "recordOutcome action msg outcome reason attempts =
     [Observe (Inc MetricWorkerMessagesTotal
        ([(''outcome'', outcome)]
         @ (if msgEventType msg \<noteq> [] then [(''eventType'', msgEventType msg)] else [])
         @ (if reason \<noteq> [] then [(''reason'', reason)] else [])
         @ (if 0 < attempts then [(''attempts'', decimal attempts)] else []))),
      Observe (LogAttrs action
        ([AttrString ''action'' action, AttrString ''outcome'' outcome]
         @ SafeIdentityAttrs (emptyIdentity\<lparr>idTraceID := msgTraceID msg, idCN := msgCN msg, idUPN := msgUPN msg,
                                            idEventType := msgEventType msg\<rparr>)
         @ (if reason \<noteq> [] then [AttrString ''reason'' reason] else [])
         @ (if 0 < attempts then [AttrInt ''attempts'' (int attempts)] else [])))]"

section \<open>Processing with retries\<close>

record processor_result =
  resErr :: "goerror option"
  resAttempts :: nat
  resPermanent :: bool
  resRetryCanceled :: bool

definition message_envelope :: "password_sync_message \<Rightarrow> envelope" where
  "message_envelope msg =
     \<lparr>envCiphertext = msgPasswordCiphertext msg, envNonce = msgPasswordNonce msg,
      envKeyID = msgPasswordKeyID msg, envAlgorithm = msgPasswordAlg msg\<rparr>"

definition message_command :: "password_sync_message \<Rightarrow> byte list \<Rightarrow> password_sync_command" where
  "message_command msg plaintext =
     \<lparr>cmdCN = msgCN msg, cmdUPN = msgUPN msg, cmdTraceID = msgTraceID msg, cmdPassword = plaintext,
      cmdDisplayName = msgDisplayName msg, cmdMail = msgMail msg, cmdEnqueuedAt = msgEnqueuedAt msg\<rparr>"

text \<open>One call of the processor: its error, the history, the final contents of the plaintext.\<close>

definition processPasswordSyncAttempt ::
  "worker_env \<Rightarrow> history \<Rightarrow> password_sync_message \<Rightarrow> byte list \<Rightarrow> goerror option \<times> history \<times> byte list" where
  "processPasswordSyncAttempt E h msg plaintext =
     (let cmd = message_command msg plaintext
      in (envProcess E h cmd, h @ [Process cmd], ZeroBytes plaintext))"

text \<open>
  The loop over \<^verbatim>\<open>attempts\<close>: \<open>backoffs\<close> is \<^verbatim>\<open>w.retryBackoffs[attempts-1:]\<close>, so
  \<^verbatim>\<open>attempts > len(w.retryBackoffs)\<close> is that it is empty. The result carries the history and
  the final contents of the plaintext buffers of all attempts.
\<close>

fun process_attempts ::
  "worker_env \<Rightarrow> password_sync_message \<Rightarrow> nat \<Rightarrow> duration list \<Rightarrow> history
     \<Rightarrow> processor_result outcome \<times> history \<times> byte list list" where
  "process_attempts E msg attempts backoffs h =
     (let env = message_envelope msg; aad = PasswordAAD (msgCN msg) (msgUPN msg) (msgEnqueuedAt msg);
          h1 = h @ [DecryptCall env aad]
      in case envDecrypt E h env aad of
           Panicked m \<Rightarrow> (Panicked m, h1, [])
         | Returned (Inl err) \<Rightarrow>
             (Returned \<lparr>resErr = Some (WorkerPermanentError PermanentReasonProcessorError (Some err)),
                        resAttempts = attempts, resPermanent = True, resRetryCanceled = False\<rparr>, h1, [])
         | Returned (Inr plaintext) \<Rightarrow>
             (let (err, h2, buf) = processPasswordSyncAttempt E h1 msg plaintext
              in case err of
                   None \<Rightarrow>
                     (Returned \<lparr>resErr = None, resAttempts = attempts, resPermanent = False,
                                resRetryCanceled = False\<rparr>, h2, [buf])
                 | Some e \<Rightarrow>
                     (case errors_find is_worker_permanent e of
                        Some permanentErr \<Rightarrow>
                          (Returned \<lparr>resErr = Some permanentErr, resAttempts = attempts, resPermanent = True,
                                     resRetryCanceled = False\<rparr>, h2, [buf])
                      | None \<Rightarrow>
                          (case backoffs of
                             [] \<Rightarrow>
                               (Returned \<lparr>resErr = Some e, resAttempts = attempts, resPermanent = False,
                                          resRetryCanceled = False\<rparr>, h2, [buf])
                           | delay # rest \<Rightarrow>
                               (let h3 = h2 @ [Sleep delay]
                                in case envSleep E h2 delay of
                                     Some sleepErr \<Rightarrow>
                                       (Returned \<lparr>resErr = Some sleepErr, resAttempts = attempts,
                                                  resPermanent = False, resRetryCanceled = True\<rparr>, h3, [buf])
                                   | None \<Rightarrow>
                                       (let (r, h', bufs) = process_attempts E msg (attempts + 1) rest h3
                                        in (r, h', buf # bufs)))))))"

definition processPasswordSync ::
  "worker_env \<Rightarrow> worker \<Rightarrow> history \<Rightarrow> password_sync_message
     \<Rightarrow> processor_result outcome \<times> history \<times> byte list list" where
  "processPasswordSync E w h msg = process_attempts E msg 1 (wkRetryBackoffs w) h"

section \<open>Settling a message\<close>

definition recordPasswordSyncFailure ::
  "worker_env \<Rightarrow> history \<Rightarrow> dead_letter_entry \<Rightarrow> goerror option \<times> history" where
  "recordPasswordSyncFailure E h entry =
     (let entry = entry\<lparr>dlPassword := []\<rparr> in (envRecordFailure E h entry, h @ [RecordFailure entry]))"

definition abandonAfterDeadLetterFailure ::
  "worker_env \<Rightarrow> history \<Rightarrow> worker_message option \<Rightarrow> string \<Rightarrow> goerror \<Rightarrow> password_sync_message \<Rightarrow> nat
     \<Rightarrow> goerror \<times> history" where
  "abandonAfterDeadLetterFailure E h msg operation err observedMessage attempts =
     (let recordErr = Wrapped (operation @ '': '') err; h1 = h @ [Abandon msg]
      in case envAbandon E h msg of
           Some abandonErr \<Rightarrow>
             (Joined [recordErr, Wrapped ''abandon worker message after dead-letter failure: '' abandonErr], h1)
         | None \<Rightarrow>
             (recordErr,
              h1 @ recordOutcome ActionWorkerAbandoned observedMessage ''abandoned'' ''safe_dlq_write_failed''
                     attempts))"

definition settle_invalid ::
  "worker_env \<Rightarrow> message_json \<Rightarrow> history \<Rightarrow> worker_message option
     \<Rightarrow> goerror option \<times> history \<times> worker_message option" where
  "settle_invalid E J h msg =
     (let entry = invalidMessageDeadLetterEntry J msg (envNow E h); h0 = h @ [Now];
          zmsg = zeroMessageBody msg;
          observedMessage = invalidMessageForObservability entry;
          (dlErr, h1) = recordPasswordSyncFailure E h0 entry
      in case dlErr of
           Some settleErr \<Rightarrow>
             (let (err, h2) = abandonAfterDeadLetterFailure E h1 zmsg
                                ''record invalid worker message dead-letter'' settleErr observedMessage 0
              in (Some err, h2, zmsg))
         | None \<Rightarrow>
             (case envComplete E h1 zmsg of
                Some settleErr \<Rightarrow>
                  (Some (Wrapped ''complete invalid worker message: '' settleErr), h1 @ [Complete zmsg], zmsg)
              | None \<Rightarrow>
                  (None,
                   h1 @ [Complete zmsg]
                     @ recordOutcome ActionWorkerInvalid observedMessage ''invalid_message''
                         DeadLetterReasonInvalidMessageSchema 0, zmsg)))"

definition settle_synced ::
  "worker_env \<Rightarrow> history \<Rightarrow> worker_message option \<Rightarrow> password_sync_message \<Rightarrow> nat
     \<Rightarrow> goerror option \<times> history \<times> worker_message option" where
  "settle_synced E h msg syncMessage attempts =
     (let zmsg = zeroMessageBody msg;
          h1 = h @ [MarkSynced (msgUPN syncMessage) (msgEnqueuedAt syncMessage)]
      in case envComplete E h1 zmsg of
           Some settleErr \<Rightarrow>
             (Some (Wrapped ''complete worker message: '' settleErr), h1 @ [Complete zmsg], zmsg)
         | None \<Rightarrow>
             (None, h1 @ [Complete zmsg] @ recordOutcome ActionWorkerCompleted syncMessage ''synced'' [] attempts,
              zmsg))"

definition settle_canceled ::
  "worker_env \<Rightarrow> history \<Rightarrow> worker_message option \<Rightarrow> password_sync_message \<Rightarrow> nat
     \<Rightarrow> goerror option \<times> history \<times> worker_message option" where
  "settle_canceled E h msg syncMessage attempts =
     (let zmsg = zeroMessageBody msg
      in case envAbandon E h zmsg of
           Some settleErr \<Rightarrow> (Some (Wrapped ''abandon worker message: '' settleErr), h @ [Abandon zmsg], zmsg)
         | None \<Rightarrow>
             (None, h @ [Abandon zmsg] @ recordOutcome ActionWorkerAbandoned syncMessage ''abandoned'' [] attempts,
              zmsg))"

definition settle_failed ::
  "worker_env \<Rightarrow> history \<Rightarrow> worker_message option \<Rightarrow> password_sync_message \<Rightarrow> processor_result
     \<Rightarrow> goerror option \<times> history \<times> worker_message option" where
  "settle_failed E h msg syncMessage result =
     (let reason = (if resPermanent result then DeadLetterReasonPermanentProcessor
                    else DeadLetterReasonTransientRetriesExhausted);
          description = (if resPermanent result then dlqDescriptionPermanentError
                         else dlqDescriptionRetriesExhausted);
          zmsg = zeroMessageBody msg;
          entry = \<lparr>dlKind = passwordSyncKind, dlCN = msgCN syncMessage, dlUPN = msgUPN syncMessage,
                   dlReason = reason, dlDescription = description, dlAttempts = resAttempts result,
                   dlEnqueuedAt = msgEnqueuedAt syncMessage, dlFailedAt = envNow E h, dlPassword = []\<rparr>;
          h0 = h @ [Now];
          (dlErr, h1) = recordPasswordSyncFailure E h0 entry
      in case dlErr of
           Some settleErr \<Rightarrow>
             (let (err, h2) = abandonAfterDeadLetterFailure E h1 zmsg ''record worker message dead-letter''
                                settleErr syncMessage (resAttempts result)
              in (Some err, h2, zmsg))
         | None \<Rightarrow>
             (let h2 = h1 @ [MarkFailed (msgUPN syncMessage) (msgEnqueuedAt syncMessage)]
              in case envComplete E h2 zmsg of
                   Some settleErr \<Rightarrow>
                     (Some (Wrapped ''complete failed worker message: '' settleErr), h2 @ [Complete zmsg], zmsg)
                 | None \<Rightarrow>
                     (None,
                      h2 @ [Complete zmsg]
                        @ recordOutcome ActionWorkerFailed syncMessage ''sync_failed'' reason
                            (resAttempts result), zmsg)))"

text \<open>
  \<^verbatim>\<open>processMessage\<close>: what it returns or the panic that unwinds it, the history, the
  message with the final contents of its body, and the final contents of the plaintexts.
\<close>

definition processMessage ::
  "worker_env \<Rightarrow> message_json \<Rightarrow> worker \<Rightarrow> history \<Rightarrow> worker_message option
     \<Rightarrow> goerror option outcome \<times> history \<times> worker_message option \<times> byte list list" where
  "processMessage E J w h msg =
     (case decodePasswordSyncMessage J msg of
        Inl err \<Rightarrow> (let (r, h', m) = settle_invalid E J h msg in (Returned r, h', m, []))
      | Inr syncMessage \<Rightarrow>
          (case processPasswordSync E w h syncMessage of
             (Panicked p, h1, bufs) \<Rightarrow> (Panicked p, h1, msg, bufs)
           | (Returned result, h1, bufs) \<Rightarrow>
               (let (r, h', m) =
                      (if resErr result = None then settle_synced E h1 msg syncMessage (resAttempts result)
                       else if resRetryCanceled result
                       then settle_canceled E h1 msg syncMessage (resAttempts result)
                       else settle_failed E h1 msg syncMessage result)
                in (Returned r, h', m, bufs))))"

section \<open>The receive loop\<close>

datatype loop_step =
    Again history
  | Stop "goerror option" history
  | Crash string history

fun process_batch ::
  "worker_env \<Rightarrow> message_json \<Rightarrow> worker \<Rightarrow> history \<Rightarrow> worker_message option list \<Rightarrow> loop_step" where
  "process_batch E J w h [] = Again h"
| "process_batch E J w h (msg # msgs) =
     (let h1 = h @ [CtxErr]
      in if envCtxErr E h \<noteq> None then Stop None h1
         else case processMessage E J w h1 msg of
                (Panicked p, h2, _) \<Rightarrow> Crash p h2
              | (Returned (Some err), h2, _) \<Rightarrow> Stop (Some err) h2
              | (Returned None, h2, _) \<Rightarrow> process_batch E J w h2 msgs)"

definition waitAfterEmptyReceive :: "worker_env \<Rightarrow> worker \<Rightarrow> history \<Rightarrow> goerror option \<times> history" where
  "waitAfterEmptyReceive E w h =
     (envSleep E h (wkEmptyReceiveDelay w), h @ [Sleep (wkEmptyReceiveDelay w)])"

definition run_iteration :: "worker_env \<Rightarrow> message_json \<Rightarrow> worker \<Rightarrow> history \<Rightarrow> loop_step" where
  "run_iteration E J w h =
     (let h1 = h @ [CtxErr]
      in if envCtxErr E h \<noteq> None then Stop None h1
         else
           let h2 = h1 @ [Receive (nat (wkMaxMessages w))]
           in case envReceive E h1 of
                Inl err \<Rightarrow>
                  if envCtxErr E h2 \<noteq> None then Stop None (h2 @ [CtxErr])
                  else Stop (Some (Wrapped ''receive worker messages: '' err)) (h2 @ [CtxErr])
              | Inr messages \<Rightarrow>
                  if messages = [] then
                    (let (err, h3) = waitAfterEmptyReceive E w h2
                     in if err \<noteq> None then Stop None h3 else Again h3)
                  else process_batch E J w h2 messages)"

text \<open>\<^verbatim>\<open>Run\<close> with a bound on the iterations of the outer loop; \<open>None\<close> is that it has not ended.\<close>

fun Run :: "worker_env \<Rightarrow> message_json \<Rightarrow> worker \<Rightarrow> nat \<Rightarrow> history \<Rightarrow> (goerror option outcome \<times> history) option" where
  "Run E J w 0 h = None"
| "Run E J w (Suc n) h =
     (case run_iteration E J w h of
        Stop err h' \<Rightarrow> Some (Returned err, h')
      | Crash p h' \<Rightarrow> Some (Panicked p, h')
      | Again h' \<Rightarrow> Run E J w n h')"

text \<open>
  The default \<^verbatim>\<open>sleep\<close>: it ends with the context's error if the context is done before the
  timer fires, with nil otherwise.
\<close>

definition sleep :: "bool \<Rightarrow> goerror \<Rightarrow> goerror option" where
  "sleep done_first ctxErr = (if done_first then Some ctxErr else None)"

definition permanentDeadLetterReason :: "(string \<times> goerror option) option \<Rightarrow> string" where
  "permanentDeadLetterReason err =
     (case err of
        None \<Rightarrow> DeadLetterReasonPermanentProcessor
      | Some (reason, _) \<Rightarrow>
          if reason = PermanentReasonProcessorError then reason else DeadLetterReasonPermanentProcessor)"

declare process_attempts.simps [simp del] process_batch.simps(2) [simp del]

section \<open>Lemmas on the attempts\<close>

definition decrypt_event :: "password_sync_message \<Rightarrow> event" where
  "decrypt_event msg =
     DecryptCall (message_envelope msg) (PasswordAAD (msgCN msg) (msgUPN msg) (msgEnqueuedAt msg))"

definition decrypts_to :: "worker_env \<Rightarrow> history \<Rightarrow> password_sync_message \<Rightarrow> (goerror + byte list) outcome" where
  "decrypts_to E h msg =
     envDecrypt E h (message_envelope msg) (PasswordAAD (msgCN msg) (msgUPN msg) (msgEnqueuedAt msg))"

definition result :: "goerror option \<Rightarrow> nat \<Rightarrow> bool \<Rightarrow> bool \<Rightarrow> processor_result" where
  "result err attempts permanent canceled =
     \<lparr>resErr = err, resAttempts = attempts, resPermanent = permanent, resRetryCanceled = canceled\<rparr>"

lemma result_simps [simp]:
  "resErr (result e k p c) = e" "resAttempts (result e k p c) = k"
  "resPermanent (result e k p c) = p" "resRetryCanceled (result e k p c) = c"
  by (simp_all add: result_def)

text \<open>One iteration of the loop, with what it appends to the history.\<close>

lemma process_attempts_cases:
  assumes "process_attempts E msg k bs h = (r, h', bufs)"
  obtains
    (Panic) m where "decrypts_to E h msg = Panicked m" "r = Panicked m" "h' = h @ [decrypt_event msg]" "bufs = []"
  | (DecryptError) e where "decrypts_to E h msg = Returned (Inl e)" "h' = h @ [decrypt_event msg]" "bufs = []"
      "r = Returned (result (Some (WorkerPermanentError PermanentReasonProcessorError (Some e))) k True False)"
  | (Done) pt where "decrypts_to E h msg = Returned (Inr pt)"
      "envProcess E (h @ [decrypt_event msg]) (message_command msg pt) = None"
      "r = Returned (result None k False False)" "bufs = [ZeroBytes pt]"
      "h' = h @ [decrypt_event msg, Process (message_command msg pt)]"
  | (Permanent) pt e pe where "decrypts_to E h msg = Returned (Inr pt)"
      "envProcess E (h @ [decrypt_event msg]) (message_command msg pt) = Some e"
      "errors_find is_worker_permanent e = Some pe"
      "r = Returned (result (Some pe) k True False)" "bufs = [ZeroBytes pt]"
      "h' = h @ [decrypt_event msg, Process (message_command msg pt)]"
  | (Exhausted) pt e where "decrypts_to E h msg = Returned (Inr pt)"
      "envProcess E (h @ [decrypt_event msg]) (message_command msg pt) = Some e"
      "errors_find is_worker_permanent e = None" "bs = []"
      "r = Returned (result (Some e) k False False)" "bufs = [ZeroBytes pt]"
      "h' = h @ [decrypt_event msg, Process (message_command msg pt)]"
  | (Canceled) pt e d ds se where "decrypts_to E h msg = Returned (Inr pt)"
      "envProcess E (h @ [decrypt_event msg]) (message_command msg pt) = Some e"
      "errors_find is_worker_permanent e = None" "bs = d # ds"
      "envSleep E (h @ [decrypt_event msg, Process (message_command msg pt)]) d = Some se"
      "r = Returned (result (Some se) k False True)" "bufs = [ZeroBytes pt]"
      "h' = h @ [decrypt_event msg, Process (message_command msg pt), Sleep d]"
  | (Retry) pt e d ds bufs' where "decrypts_to E h msg = Returned (Inr pt)"
      "envProcess E (h @ [decrypt_event msg]) (message_command msg pt) = Some e"
      "errors_find is_worker_permanent e = None" "bs = d # ds"
      "envSleep E (h @ [decrypt_event msg, Process (message_command msg pt)]) d = None"
      "bufs = ZeroBytes pt # bufs'"
      "process_attempts E msg (k + 1) ds (h @ [decrypt_event msg, Process (message_command msg pt), Sleep d])
         = (r, h', bufs')"
proof -
  note unf = process_attempts.simps [of E msg k _ h] decrypts_to_def decrypt_event_def result_def
    processPasswordSyncAttempt_def Let_def
  show ?thesis
  proof (cases "decrypts_to E h msg")
    case (Panicked m)
    with assms Panic show ?thesis by (simp add: unf)
  next
    case (Returned x)
    show ?thesis
    proof (cases x)
      case (Inl e)
      with Returned assms DecryptError show ?thesis by (simp add: unf)
    next
      case (Inr pt)
      let ?h2 = "h @ [decrypt_event msg]" and ?cmd = "message_command msg pt"
      show ?thesis
      proof (cases "envProcess E ?h2 ?cmd")
        case None
        with Returned Inr assms Done [of pt] show ?thesis by (simp add: unf)
      next
        case (Some e)
        note perr = Some
        show ?thesis
        proof (cases "errors_find is_worker_permanent e")
          case (Some pe)
          with perr Returned Inr assms Permanent [of pt e pe] show ?thesis by (simp add: unf)
        next
          case None
          note find = None
          show ?thesis
          proof (cases bs)
            case Nil
            with perr find Returned Inr assms Exhausted [of pt e] show ?thesis by (simp add: unf)
          next
            case (Cons d ds)
            show ?thesis
            proof (cases "envSleep E (?h2 @ [Process ?cmd]) d")
              case (Some se)
              with Cons perr find Returned Inr assms Canceled [of pt e d ds se] show ?thesis by (simp add: unf)
            next
              case None
              obtain r' h'' bufs' where rec:
                "process_attempts E msg (k + 1) ds (?h2 @ [Process ?cmd, Sleep d]) = (r', h'', bufs')"
                by (metis prod_cases3)
              have "process_attempts E msg k bs h = (r', h'', ZeroBytes pt # bufs')"
                using None Cons perr find Returned Inr rec by (simp add: unf)
              with assms have "r' = r" "h'' = h'" "bufs = ZeroBytes pt # bufs'" by simp_all
              with None Cons perr find Returned Inr rec Retry [of pt e d ds bufs'] show ?thesis by simp
            qed
          qed
        qed
      qed
    qed
  qed
qed

fun is_settlement :: "event \<Rightarrow> bool" where
  "is_settlement (Complete m) = True"
| "is_settlement (Abandon m) = True"
| "is_settlement _ = False"

fun is_process :: "event \<Rightarrow> bool" where
  "is_process (Process cmd) = True"
| "is_process _ = False"

fun attempt_event :: "password_sync_message \<Rightarrow> event \<Rightarrow> bool" where
  "attempt_event msg (Process cmd) = (\<exists>pt. cmd = message_command msg pt)"
| "attempt_event msg (Sleep d) = True"
| "attempt_event msg ev = (ev = decrypt_event msg)"

text \<open>What a returned result says about the events \<open>new\<close> the loop appended to \<open>h\<close>.\<close>

definition attempts_ok ::
  "worker_env \<Rightarrow> password_sync_message \<Rightarrow> nat \<Rightarrow> nat \<Rightarrow> history \<Rightarrow> history \<Rightarrow> processor_result \<Rightarrow> bool" where
  "attempts_ok E msg k n h new res \<longleftrightarrow>
     k \<le> resAttempts res \<and> resAttempts res \<le> k + n
     \<and> (resErr res = None \<longrightarrow> \<not> resPermanent res \<and> \<not> resRetryCanceled res
          \<and> (\<exists>p pt. new = p @ [Process (message_command msg pt)]
                \<and> envProcess E (h @ p) (message_command msg pt) = None))
     \<and> (resRetryCanceled res \<longrightarrow> (\<exists>p d. new = p @ [Sleep d] \<and> envSleep E (h @ p) d \<noteq> None))
     \<and> (resErr res \<noteq> None \<and> \<not> resPermanent res \<and> \<not> resRetryCanceled res
          \<longrightarrow> length (filter is_process new) = n + 1)
     \<and> (resPermanent res \<longrightarrow> \<not> resRetryCanceled res)"

lemma decrypt_event_kinds [simp]:
  "\<not> is_process (decrypt_event msg)" "\<not> is_settlement (decrypt_event msg)" "attempt_event msg (decrypt_event msg)"
  by (simp_all add: decrypt_event_def)

lemma attempt_event_not_settlement [simp]: "attempt_event msg ev \<Longrightarrow> \<not> is_settlement ev"
  by (cases ev) (auto simp: decrypt_event_def)

lemma attempts_ok_retry:
  assumes "attempts_ok E msg (k + 1) n (h @ [decrypt_event msg, Process cmd, Sleep d]) new res"
  shows "attempts_ok E msg k (Suc n) h ([decrypt_event msg, Process cmd, Sleep d] @ new) res"
proof -
  let ?a = "[decrypt_event msg, Process cmd, Sleep d]"
  have "\<exists>p pt. ?a @ new = p @ [Process (message_command msg pt)] \<and> envProcess E (h @ p) (message_command msg pt) = None"
    if ok: "resErr res = None"
  proof -
    obtain p pt where "new = p @ [Process (message_command msg pt)]"
      "envProcess E ((h @ ?a) @ p) (message_command msg pt) = None"
      using assms ok unfolding attempts_ok_def by blast
    then show ?thesis by (intro exI [of _ "?a @ p"] exI [of _ pt]) simp
  qed
  moreover have "\<exists>p d. ?a @ new = p @ [Sleep d] \<and> envSleep E (h @ p) d \<noteq> None" if canceled: "resRetryCanceled res"
  proof -
    obtain p d' where "new = p @ [Sleep d']" "envSleep E ((h @ ?a) @ p) d' \<noteq> None"
      using assms canceled unfolding attempts_ok_def by blast
    then show ?thesis by (intro exI [of _ "?a @ p"] exI [of _ d']) simp
  qed
  ultimately show ?thesis using assms unfolding attempts_ok_def by auto
qed

lemma process_attempts_trace:
  assumes "process_attempts E msg k bs h = (r, h', bufs)"
  shows "\<exists>new. h' = h @ new \<and> list_all (attempt_event msg) new
    \<and> length (filter is_process new) \<le> length bs + 1 \<and> list_all zeroed bufs
    \<and> (\<forall>res. r = Returned res \<longrightarrow> attempts_ok E msg k (length bs) h new res)"
  using assms
proof (induction bs arbitrary: k h r h' bufs rule: length_induct)
  case (1 bs)
  from 1(2) show ?case
  proof (cases rule: process_attempts_cases)
    case (Panic m)
    then show ?thesis by (intro exI [of _ "[decrypt_event msg]"]) simp
  next
    case (DecryptError e)
    then show ?thesis by (intro exI [of _ "[decrypt_event msg]"]) (simp add: attempts_ok_def)
  next
    case (Done pt)
    then show ?thesis
      by (intro exI [of _ "[decrypt_event msg, Process (message_command msg pt)]"])
        (auto simp: attempts_ok_def intro!: exI [of _ "[decrypt_event msg]"])
  next
    case (Permanent pt e pe)
    then show ?thesis
      by (intro exI [of _ "[decrypt_event msg, Process (message_command msg pt)]"]) (auto simp: attempts_ok_def)
  next
    case (Exhausted pt e)
    then show ?thesis
      by (intro exI [of _ "[decrypt_event msg, Process (message_command msg pt)]"]) (auto simp: attempts_ok_def)
  next
    case (Canceled pt e d ds se)
    then show ?thesis
      by (intro exI [of _ "[decrypt_event msg, Process (message_command msg pt), Sleep d]"])
        (auto simp: attempts_ok_def
          intro!: exI [of _ "[decrypt_event msg, Process (message_command msg pt)]"] exI [of _ d])
  next
    case (Retry pt e d ds bufs')
    let ?a = "[decrypt_event msg, Process (message_command msg pt), Sleep d]"
    have "length ds < length bs" using Retry(4) by simp
    from 1(1) [rule_format, OF this Retry(7)] obtain new
      where new: "h' = (h @ ?a) @ new" "list_all (attempt_event msg) new"
        "length (filter is_process new) \<le> length ds + 1" "list_all zeroed bufs'"
        "\<forall>res. r = Returned res \<longrightarrow> attempts_ok E msg (k + 1) (length ds) (h @ ?a) new res"
      by blast
    have "\<forall>res. r = Returned res \<longrightarrow> attempts_ok E msg k (length bs) h (?a @ new) res"
      using new(5) attempts_ok_retry Retry(4) by fastforce
    with new Retry show ?thesis by (intro exI [of _ "?a @ new"]) auto
  qed
qed

section \<open>Lemmas on settlement\<close>

fun is_observe :: "event \<Rightarrow> bool" where
  "is_observe (Observe ob) = True"
| "is_observe _ = False"

lemma recordOutcome_observes [simp]: "list_all is_observe (recordOutcome a m out rsn k)"
  by (simp add: recordOutcome_def)

lemma is_observe_not [simp]: "is_observe ev \<Longrightarrow> \<not> is_settlement ev" "is_observe ev \<Longrightarrow> \<not> is_process ev"
  by (cases ev; simp)+

lemma observes_filter [simp]:
  "list_all is_observe evs \<Longrightarrow> filter is_settlement evs = []" "list_all is_observe evs \<Longrightarrow> filter is_process evs = []"
  by (induction evs) simp_all

lemma zeroMessageBody_idem [simp]: "zeroMessageBody (zeroMessageBody msg) = zeroMessageBody msg"
  by (cases msg) (simp_all add: zeroMessageBody_def ZeroBytes_def)

text \<open>
  The events of a dead-letter settlement: the record was refused and the message abandoned, or
  the record was accepted and the message completed.
\<close>

definition dead_lettered ::
  "worker_env \<Rightarrow> history \<Rightarrow> worker_message option \<Rightarrow> dead_letter_entry \<Rightarrow> history \<Rightarrow> history \<Rightarrow> goerror option \<Rightarrow> bool" where
  "dead_lettered E h msg entry marks new err \<longleftrightarrow>
     (\<exists>post. list_all is_observe post
        \<and> (envRecordFailure E (h @ [Now]) entry \<noteq> None \<and> err \<noteq> None
             \<and> new = [Now, RecordFailure entry, Abandon (zeroMessageBody msg)] @ post
           \<or> envRecordFailure E (h @ [Now]) entry = None
             \<and> (err = None \<longleftrightarrow> envComplete E (h @ [Now, RecordFailure entry] @ marks) (zeroMessageBody msg) = None)
             \<and> new = [Now, RecordFailure entry] @ marks @ [Complete (zeroMessageBody msg)] @ post))"

lemma abandonAfterDeadLetterFailure_trace:
  obtains post where "list_all is_observe post"
    "snd (abandonAfterDeadLetterFailure E h msg op err m k) = h @ [Abandon msg] @ post"
proof (cases "envAbandon E h msg")
  case None
  then show ?thesis using that [of "recordOutcome ActionWorkerAbandoned m ''abandoned'' ''safe_dlq_write_failed'' k"]
    by (simp add: abandonAfterDeadLetterFailure_def Let_def)
next
  case (Some e)
  then show ?thesis using that [of "[]"] by (simp add: abandonAfterDeadLetterFailure_def Let_def)
qed

lemma settle_invalid_trace:
  assumes "settle_invalid E J h msg = (err, h', m)"
  shows "m = zeroMessageBody msg \<and> (\<exists>new. h' = h @ new
    \<and> dead_lettered E h msg (invalidMessageDeadLetterEntry J msg (envNow E h)) [] new err)"
proof -
  let ?e = "invalidMessageDeadLetterEntry J msg (envNow E h)"
  let ?o = "invalidMessageForObservability ?e"
  have pw: "?e\<lparr>dlPassword := []\<rparr> = ?e"
    by (auto simp: invalidMessageDeadLetterEntry_def Let_def split: option.split sum.split prod.split)
  have m: "m = zeroMessageBody msg"
    using assms by (auto simp: settle_invalid_def Let_def split: prod.splits option.splits)
  show ?thesis
  proof (cases "envRecordFailure E (h @ [Now]) ?e")
    case None
    note n = None
    show ?thesis
    proof (cases "envComplete E (h @ [Now, RecordFailure ?e]) (zeroMessageBody msg)")
      case None
      with assms n m show ?thesis
        by (auto simp: settle_invalid_def Let_def recordPasswordSyncFailure_def pw dead_lettered_def)
    next
      case (Some x)
      with assms n m show ?thesis
        by (auto simp: settle_invalid_def Let_def recordPasswordSyncFailure_def pw dead_lettered_def)
    qed
  next
    case (Some x)
    obtain post where p: "list_all is_observe post"
      "snd (abandonAfterDeadLetterFailure E (h @ [Now, RecordFailure ?e]) (zeroMessageBody msg)
          ''record invalid worker message dead-letter'' x ?o 0)
       = (h @ [Now, RecordFailure ?e]) @ [Abandon (zeroMessageBody msg)] @ post"
      by (rule abandonAfterDeadLetterFailure_trace)
    with assms Some m show ?thesis
      by (auto simp: settle_invalid_def Let_def recordPasswordSyncFailure_def pw dead_lettered_def
          split: prod.splits)
  qed
qed

definition failure_entry :: "password_sync_message \<Rightarrow> processor_result \<Rightarrow> instant \<Rightarrow> dead_letter_entry" where
  "failure_entry msg res failedAt =
     \<lparr>dlKind = passwordSyncKind, dlCN = msgCN msg, dlUPN = msgUPN msg,
      dlReason = (if resPermanent res then DeadLetterReasonPermanentProcessor
                  else DeadLetterReasonTransientRetriesExhausted),
      dlDescription = (if resPermanent res then dlqDescriptionPermanentError
                       else dlqDescriptionRetriesExhausted),
      dlAttempts = resAttempts res, dlEnqueuedAt = msgEnqueuedAt msg, dlFailedAt = failedAt, dlPassword = []\<rparr>"

lemma settle_failed_trace:
  assumes "settle_failed E h msg sm res = (err, h', m)"
  shows "m = zeroMessageBody msg \<and> (\<exists>new. h' = h @ new
    \<and> dead_lettered E h msg (failure_entry sm res (envNow E h)) [MarkFailed (msgUPN sm) (msgEnqueuedAt sm)] new err)"
proof -
  let ?e = "failure_entry sm res (envNow E h)"
  have m: "m = zeroMessageBody msg"
    using assms by (auto simp: settle_failed_def Let_def split: prod.splits option.splits)
  show ?thesis
  proof (cases "envRecordFailure E (h @ [Now]) ?e")
    case None
    note n = None
    show ?thesis
    proof (cases "envComplete E (h @ [Now, RecordFailure ?e, MarkFailed (msgUPN sm) (msgEnqueuedAt sm)])
        (zeroMessageBody msg)")
      case None
      with assms n m show ?thesis
        by (auto simp: settle_failed_def Let_def recordPasswordSyncFailure_def failure_entry_def dead_lettered_def)
    next
      case (Some x)
      with assms n m show ?thesis
        by (auto simp: settle_failed_def Let_def recordPasswordSyncFailure_def failure_entry_def dead_lettered_def)
    qed
  next
    case (Some x)
    obtain post where p: "list_all is_observe post"
      "snd (abandonAfterDeadLetterFailure E (h @ [Now, RecordFailure ?e]) (zeroMessageBody msg)
          ''record worker message dead-letter'' x sm (resAttempts res))
       = (h @ [Now, RecordFailure ?e]) @ [Abandon (zeroMessageBody msg)] @ post"
      by (rule abandonAfterDeadLetterFailure_trace)
    with assms Some m show ?thesis
      by (auto simp: settle_failed_def Let_def recordPasswordSyncFailure_def failure_entry_def dead_lettered_def
          split: prod.splits)
  qed
qed

lemma settle_synced_trace:
  assumes "settle_synced E h msg sm k = (err, h', m)"
  obtains post where "m = zeroMessageBody msg" "list_all is_observe post"
    "h' = h @ [MarkSynced (msgUPN sm) (msgEnqueuedAt sm), Complete (zeroMessageBody msg)] @ post"
  using assms that [of "[]"] that [of "recordOutcome ActionWorkerCompleted sm ''synced'' [] k"]
  by (auto simp: settle_synced_def Let_def split: option.splits)

lemma settle_canceled_trace:
  assumes "settle_canceled E h msg sm k = (err, h', m)"
  obtains post where "m = zeroMessageBody msg" "list_all is_observe post"
    "h' = h @ [Abandon (zeroMessageBody msg)] @ post"
  using assms that [of "[]"] that [of "recordOutcome ActionWorkerAbandoned sm ''abandoned'' [] k"]
  by (auto simp: settle_canceled_def Let_def split: option.splits)

text \<open>The four courses of \<^verbatim>\<open>processMessage\<close> that return, and the panic.\<close>

lemma processMessage_cases:
  assumes "processMessage E J w h msg = (r, h', m, bufs)"
  obtains
    (Panic) sm p where "decodePasswordSyncMessage J msg = Inr sm" "r = Panicked p"
      "processPasswordSync E w h sm = (Panicked p, h', bufs)" "m = msg"
  | (Invalid) err e new where "decodePasswordSyncMessage J msg = Inl e" "r = Returned err" "h' = h @ new"
      "dead_lettered E h msg (invalidMessageDeadLetterEntry J msg (envNow E h)) [] new err"
      "m = zeroMessageBody msg" "bufs = []"
  | (Synced) sm err h1 res post where "decodePasswordSyncMessage J msg = Inr sm" "r = Returned err"
      "processPasswordSync E w h sm = (Returned res, h1, bufs)" "resErr res = None"
      "h' = h1 @ [MarkSynced (msgUPN sm) (msgEnqueuedAt sm), Complete (zeroMessageBody msg)] @ post"
      "list_all is_observe post" "m = zeroMessageBody msg"
  | (Canceled) sm err h1 res post where "decodePasswordSyncMessage J msg = Inr sm" "r = Returned err"
      "processPasswordSync E w h sm = (Returned res, h1, bufs)" "resErr res \<noteq> None" "resRetryCanceled res"
      "h' = h1 @ [Abandon (zeroMessageBody msg)] @ post" "list_all is_observe post" "m = zeroMessageBody msg"
  | (Failed) sm err h1 res new where "decodePasswordSyncMessage J msg = Inr sm" "r = Returned err"
      "processPasswordSync E w h sm = (Returned res, h1, bufs)" "resErr res \<noteq> None" "\<not> resRetryCanceled res"
      "h' = h1 @ new"
      "dead_lettered E h1 msg (failure_entry sm res (envNow E h1)) [MarkFailed (msgUPN sm) (msgEnqueuedAt sm)] new err"
      "m = zeroMessageBody msg"
proof (cases "decodePasswordSyncMessage J msg")
  case (Inl e)
  obtain err h'' m' where s: "settle_invalid E J h msg = (err, h'', m')" by (metis prod_cases3)
  with assms Inl have eq: "r = Returned err" "h' = h''" "m = m'" "bufs = []" by (simp_all add: processMessage_def)
  from settle_invalid_trace [OF s] obtain new where "h'' = h @ new" "m' = zeroMessageBody msg"
    "dead_lettered E h msg (invalidMessageDeadLetterEntry J msg (envNow E h)) [] new err" by blast
  then show ?thesis using Invalid [OF Inl eq(1)] eq by simp
next
  case (Inr sm)
  obtain x h1 bs where p: "processPasswordSync E w h sm = (x, h1, bs)" by (metis prod_cases3)
  show ?thesis
  proof (cases x)
    case (Panicked p')
    have eq: "r = Panicked p'" "h' = h1" "m = msg" "bufs = bs"
      using assms Inr p Panicked by (simp_all add: processMessage_def)
    then show ?thesis using Panic [OF Inr eq(1)] p Panicked by simp
  next
    case (Returned res)
    note ret = Returned
    consider "resErr res = None" | "resErr res \<noteq> None" "resRetryCanceled res"
      | "resErr res \<noteq> None" "\<not> resRetryCanceled res" by blast
    then show ?thesis
    proof cases
      case 1
      obtain err h'' m' where s: "settle_synced E h1 msg sm (resAttempts res) = (err, h'', m')"
        by (metis prod_cases3)
      with assms Inr p ret 1 have eq: "r = Returned err" "h' = h''" "m = m'" "bufs = bs"
        by (simp_all add: processMessage_def)
      from s obtain post where "m' = zeroMessageBody msg" "list_all is_observe post"
        "h'' = h1 @ [MarkSynced (msgUPN sm) (msgEnqueuedAt sm), Complete (zeroMessageBody msg)] @ post"
        by (rule settle_synced_trace)
      then show ?thesis using Synced [OF Inr eq(1)] p ret 1 eq by simp
    next
      case 2
      obtain err h'' m' where s: "settle_canceled E h1 msg sm (resAttempts res) = (err, h'', m')"
        by (metis prod_cases3)
      with assms Inr p ret 2 have eq: "r = Returned err" "h' = h''" "m = m'" "bufs = bs"
        by (auto simp: processMessage_def)
      from s obtain post where "m' = zeroMessageBody msg" "list_all is_observe post"
        "h'' = h1 @ [Abandon (zeroMessageBody msg)] @ post" by (rule settle_canceled_trace)
      then show ?thesis using Canceled [OF Inr eq(1)] p ret 2 eq by simp
    next
      case 3
      obtain err h'' m' where s: "settle_failed E h1 msg sm res = (err, h'', m')" by (metis prod_cases3)
      with assms Inr p ret 3 have eq: "r = Returned err" "h' = h''" "m = m'" "bufs = bs"
        by (auto simp: processMessage_def)
      from settle_failed_trace [OF s] obtain new where "m' = zeroMessageBody msg" "h'' = h1 @ new"
        "dead_lettered E h1 msg (failure_entry sm res (envNow E h1))
           [MarkFailed (msgUPN sm) (msgEnqueuedAt sm)] new err" by blast
      then show ?thesis using Failed [OF Inr eq(1)] p ret 3 eq by simp
    qed
  qed
qed

end
