(* ===== verification/Json_Password.thy ===== *)
theory Json_Password
  imports Go_Utf8
begin

text \<open>
  The JSON string decoder of \<^verbatim>\<open>internal/handler/hook.go\<close> (\<^verbatim>\<open>passwordBytes\<close>,
  \<^verbatim>\<open>decodeJSONStringBytes\<close>, \<^verbatim>\<open>decodeUnicodeEscape\<close>, \<^verbatim>\<open>hex4\<close>). It
  decodes the password into a buffer that can be overwritten, and is meant to decode exactly
  as \<^verbatim>\<open>encoding/json\<close> does. The reference is \<open>unquoteBytes\<close>, the unquoting of
  \<^verbatim>\<open>encoding/json\<close>, on the string literals that the scanner of that package lets through
  (\<open>json_string_literal\<close>).

  The index loop over \<^verbatim>\<open>data\<close> is a recursion on the rest
  \<^verbatim>\<open>data[i : len(data)-1]\<close>. Each function that has a scratch buffer returns the final
  contents of that buffer beside its result, so that the deferred \<^verbatim>\<open>ZeroBytes\<close> is part of
  the model.
\<close>

datatype decode_error =
    NotAJsonString
  | UnescapedTerminator
  | ControlCharacter
  | TruncatedEscape
  | InvalidEscape byte
  | ShortUnicodeEscape
  | InvalidHexByte byte

section \<open>Unicode escapes\<close>

definition hex_value :: "byte \<Rightarrow> nat option" where
  "hex_value b =
     (if 0x30 \<le> b \<and> b \<le> 0x39 then Some (unat b - 0x30)
      else if 0x61 \<le> b \<and> b \<le> 0x66 then Some (unat b - 0x61 + 10)
      else if 0x41 \<le> b \<and> b \<le> 0x46 then Some (unat b - 0x41 + 10)
      else None)"

fun hex4_loop :: "rune \<Rightarrow> byte list \<Rightarrow> decode_error + rune" where
  "hex4_loop r [] = Inr r"
| "hex4_loop r (b # bs) =
     (case hex_value b of
        Some v \<Rightarrow> hex4_loop (r * 16 + v) bs
      | None \<Rightarrow> Inl (InvalidHexByte b))"

definition hex4 :: "byte list \<Rightarrow> decode_error + rune" where
  "hex4 data = hex4_loop 0 data"

definition decodeUnicodeEscape :: "byte list \<Rightarrow> decode_error + rune \<times> nat" where
  "decodeUnicodeEscape data =
     (if length data < 4 then Inl ShortUnicodeEscape
      else case hex4 (take 4 data) of
        Inl e \<Rightarrow> Inl e
      | Inr r \<Rightarrow>
          if \<not> utf16_IsSurrogate r then Inr (r, 4)
          else if r < 0xD800 \<or> 0xDBFF < r then Inr (RuneError, 4)
          else if length data < 10 \<or> data ! 4 \<noteq> 0x5C \<or> data ! 5 \<noteq> 0x75 then Inr (RuneError, 4)
          else (case hex4 (take 4 (drop 6 data)) of
                  Inl e \<Rightarrow> Inr (RuneError, 4)
                | Inr low \<Rightarrow>
                    (let decoded = utf16_DecodeRune r low in
                     if decoded = RuneError then Inr (RuneError, 4) else Inr (decoded, 10))))"

section \<open>The decoding loop\<close>

definition simple_escape :: "byte \<Rightarrow> byte option" where
  "simple_escape e =
     (if e = 0x22 \<or> e = 0x5C \<or> e = 0x2F then Some e
      else if e = 0x62 then Some 0x08
      else if e = 0x66 then Some 0x0C
      else if e = 0x6E then Some 0x0A
      else if e = 0x72 then Some 0x0D
      else if e = 0x74 then Some 0x09
      else None)"

text \<open>
  One iteration of the loop: the bytes appended to \<^verbatim>\<open>out\<close> and the number of bytes by
  which \<^verbatim>\<open>i\<close> advances, or the error returned.
\<close>

fun decode_step :: "byte list \<Rightarrow> decode_error + byte list \<times> nat" where
  "decode_step [] = Inr ([], 1)"
| "decode_step (b # rest) =
     (if b \<noteq> 0x5C then
        if b = 0x22 then Inl UnescapedTerminator
        else if b < 0x20 then Inl ControlCharacter
        else if b < 0x80 then Inr ([b], 1)
        else (let (r, size) = DecodeRune (b # rest) in Inr (EncodeRune r, 1 + (size - 1)))
      else (case rest of
              [] \<Rightarrow> Inl TruncatedEscape
            | e # rest' \<Rightarrow>
                (case simple_escape e of
                   Some c \<Rightarrow> Inr ([c], 2)
                 | None \<Rightarrow>
                     if e = 0x75 then
                       (case decodeUnicodeEscape rest' of
                          Inl err \<Rightarrow> Inl err
                        | Inr (r, consumed) \<Rightarrow> Inr (EncodeRune r, 2 + consumed))
                     else Inl (InvalidEscape e))))"

lemma decode_step_consumes: "decode_step rest = Inr (emit, n) \<Longrightarrow> 1 \<le> n"
  by (cases rest)
    (auto simp: Let_def split: if_splits prod.splits list.splits option.splits sum.splits)

function decode_loop :: "byte list \<Rightarrow> byte list \<Rightarrow> (decode_error + byte list) \<times> byte list" where
  "decode_loop rest out =
     (if rest = [] then (Inr out, out)
      else case decode_step rest of
        Inl err \<Rightarrow> (Inl err, ZeroBytes out)
      | Inr (emit, n) \<Rightarrow> decode_loop (drop n rest) (out @ emit))"
  by pat_completeness auto
termination
proof (relation "measure (\<lambda>(rest, out). length rest)", goal_cases)
  case (2 rest out x emit n)
  then have "1 \<le> n" using decode_step_consumes by blast
  with 2 show ?case by simp
qed simp

definition decodeJSONStringBytes :: "byte list \<Rightarrow> (decode_error + byte list) \<times> byte list" where
  "decodeJSONStringBytes data =
     (if length data < 2 \<or> hd data \<noteq> 0x22 \<or> last data \<noteq> 0x22 then (Inl NotAJsonString, [])
      else decode_loop (butlast (tl data)) [])"

text \<open>
  \<^verbatim>\<open>passwordBytes.UnmarshalJSON\<close>: the previous contents of the receiver's buffer are
  overwritten first. The result is the error if any, the new value of the receiver, the final
  contents of its previous buffer, and those of the decoder's scratch buffer.
\<close>

definition json_null :: "byte list" where
  "json_null = bytes_of ''null''"

definition passwordBytes_UnmarshalJSON ::
  "byte list \<Rightarrow> byte list \<Rightarrow> decode_error option \<times> byte list \<times> byte list \<times> byte list" where
  "passwordBytes_UnmarshalJSON p data =
     (let previous = ZeroBytes p in
      if data = json_null then (None, [], previous, [])
      else case decodeJSONStringBytes data of
        (Inl e, scratch) \<Rightarrow> (Some e, [], previous, scratch)
      | (Inr decoded, scratch) \<Rightarrow> (None, decoded, previous, scratch))"

section \<open>The reference: encoding/json\<close>

text \<open>\<^verbatim>\<open>getu4\<close> reads a \<^verbatim>\<open>\uXXXX\<close> escape; \<open>None\<close> is its result -1.\<close>

definition getu4 :: "byte list \<Rightarrow> rune option" where
  "getu4 s =
     (if length s < 6 \<or> s ! 0 \<noteq> 0x5C \<or> s ! 1 \<noteq> 0x75 then None
      else case hex4 (take 4 (drop 2 s)) of Inl _ \<Rightarrow> None | Inr r \<Rightarrow> Some r)"

fun unquote_step :: "byte list \<Rightarrow> (byte list \<times> nat) option" where
  "unquote_step [] = Some ([], 1)"
| "unquote_step (c # s) =
     (if c = 0x5C then
        (case s of
           [] \<Rightarrow> None
         | e # s' \<Rightarrow>
             if e = 0x27 then Some ([e], 2)
             else (case simple_escape e of
                     Some x \<Rightarrow> Some ([x], 2)
                   | None \<Rightarrow>
                       if e = 0x75 then
                         (case getu4 (c # s) of
                            None \<Rightarrow> None
                          | Some rr \<Rightarrow>
                              if utf16_IsSurrogate rr then
                                (let dec = (case getu4 (drop 5 s) of
                                              None \<Rightarrow> RuneError
                                            | Some rr1 \<Rightarrow> utf16_DecodeRune rr rr1)
                                 in if dec \<noteq> RuneError then Some (EncodeRune dec, 12)
                                    else Some (EncodeRune RuneError, 6))
                              else Some (EncodeRune rr, 6))
                       else None))
      else if c = 0x22 \<or> c < 0x20 then None
      else if c < 0x80 then Some ([c], 1)
      else (let (rr, size) = DecodeRune (c # s) in Some (EncodeRune rr, 1 + (size - 1))))"

lemma unquote_step_consumes: "unquote_step s = Some (emit, n) \<Longrightarrow> 1 \<le> n"
  by (cases s)
    (auto simp: Let_def split: if_splits prod.splits list.splits option.splits)

function unquote_loop :: "byte list \<Rightarrow> byte list option" where
  "unquote_loop s =
     (if s = [] then Some []
      else case unquote_step s of
        None \<Rightarrow> None
      | Some (emit, n) \<Rightarrow> map_option (append emit) (unquote_loop (drop n s)))"
  by pat_completeness auto
termination
proof (relation "measure length", goal_cases)
  case (2 s x emit n)
  then have "1 \<le> n" using unquote_step_consumes by blast
  with 2 show ?case by simp
qed simp

definition unquoteBytes :: "byte list \<Rightarrow> byte list option" where
  "unquoteBytes s =
     (if length s < 2 \<or> hd s \<noteq> 0x22 \<or> last s \<noteq> 0x22 then None
      else unquote_loop (butlast (tl s)))"

text \<open>
  The scanner states \<^verbatim>\<open>stateInString\<close>, \<^verbatim>\<open>stateInStringEsc\<close> and
  \<^verbatim>\<open>stateInStringEscU*\<close> of \<^verbatim>\<open>encoding/json\<close> on the inside of a literal.
\<close>

fun scan_string :: "byte list \<Rightarrow> bool" where
  "scan_string [] = True"
| "scan_string (c # s) =
     (if c = 0x22 \<or> c < 0x20 then False
      else if c = 0x5C then
        (case s of
           [] \<Rightarrow> False
         | e # s' \<Rightarrow>
             if simple_escape e \<noteq> None then scan_string s'
             else if e = 0x75 then
               (case s' of
                  h1 # h2 # h3 # h4 # s'' \<Rightarrow>
                    hex_value h1 \<noteq> None \<and> hex_value h2 \<noteq> None \<and> hex_value h3 \<noteq> None
                      \<and> hex_value h4 \<noteq> None \<and> scan_string s''
                | _ \<Rightarrow> False)
             else False)
      else scan_string s)"

definition json_string_literal :: "byte list \<Rightarrow> bool" where
  "json_string_literal data \<longleftrightarrow>
     2 \<le> length data \<and> hd data = 0x22 \<and> last data = 0x22 \<and> scan_string (butlast (tl data))"

declare decode_loop.simps [simp del] unquote_loop.simps [simp del] scan_string.simps(2) [simp del]

section \<open>Lemmas on the decoder\<close>

lemma decode_loop_Nil [simp]: "decode_loop [] out = (Inr out, out)"
  by (simp add: decode_loop.simps)

lemma unquote_loop_Nil [simp]: "unquote_loop [] = Some []"
  by (simp add: unquote_loop.simps)

lemma decode_loop_step:
  "rest \<noteq> [] \<Longrightarrow> decode_step rest = Inr (emit, n) \<Longrightarrow>
     decode_loop rest out = decode_loop (drop n rest) (out @ emit)"
  by (simp add: decode_loop.simps [of rest])

lemma decode_loop_error:
  "rest \<noteq> [] \<Longrightarrow> decode_step rest = Inl e \<Longrightarrow> decode_loop rest out = (Inl e, ZeroBytes out)"
  by (simp add: decode_loop.simps)

text \<open>
  An invariant of the loop: what holds of the empty buffer, is kept by every iteration and
  implies a property of the result holds at the end.
\<close>

lemma decode_loop_invariant [consumes 1, case_names Step Error Done]:
  assumes "I rest out"
    and step: "\<And>xs acc emit n. I xs acc \<Longrightarrow> xs \<noteq> [] \<Longrightarrow> decode_step xs = Inr (emit, n)
                 \<Longrightarrow> I (drop n xs) (acc @ emit)"
    and err: "\<And>xs acc e. I xs acc \<Longrightarrow> xs \<noteq> [] \<Longrightarrow> decode_step xs = Inl e
                \<Longrightarrow> Q (Inl e, ZeroBytes acc)"
    and fin: "\<And>acc. I [] acc \<Longrightarrow> Q (Inr acc, acc)"
  shows "Q (decode_loop rest out)"
  using assms(1)
proof (induction rest out rule: decode_loop.induct)
  case (1 rest out)
  show ?case
  proof (cases "rest = []")
    case True
    with 1(2) fin show ?thesis by simp
  next
    case False
    show ?thesis
    proof (cases "decode_step rest")
      case (Inl e)
      with False 1(2) err show ?thesis by (simp add: decode_loop_error)
    next
      case (Inr x)
      obtain emit n where x: "x = (emit, n)" by fastforce
      then show ?thesis using False Inr 1(1) [OF False Inr x [symmetric]] step [OF 1(2) False]
        by (simp add: decode_loop_step)
    qed
  qed
qed

lemma hex_value_less: "hex_value b = Some v \<Longrightarrow> v < 16"
  by (auto simp: hex_value_def word_le_nat_alt split: if_splits)

lemma hex4_loop_bound: "hex4_loop r bs = Inr r' \<Longrightarrow> r' < (r + 1) * 16 ^ length bs"
proof (induction r bs rule: hex4_loop.induct)
  case (2 r b bs)
  then obtain v where v: "hex_value b = Some v" by (auto split: option.splits)
  then have "r' < (r * 16 + v + 1) * 16 ^ length bs" using 2 by simp
  also have "\<dots> \<le> ((r + 1) * 16) * 16 ^ length bs"
    using hex_value_less [OF v] by (intro mult_right_mono) auto
  finally show ?case by (simp add: algebra_simps)
qed simp

text \<open>Four hexadecimal digits stay below \<open>2 ^ 16\<close>: the 32-bit rune never overflows.\<close>

lemma hex4_bound: "hex4 bs = Inr r \<Longrightarrow> length bs = 4 \<Longrightarrow> r < 65536"
  using hex4_loop_bound [of 0 bs r] by (simp add: hex4_def)

lemma decodeUnicodeEscape_consumed:
  "decodeUnicodeEscape data = Inr (r, k) \<Longrightarrow> 4 \<le> k \<and> k \<le> length data \<and> (k = 4 \<longrightarrow> r < 65536)"
  by (auto simp: decodeUnicodeEscape_def Let_def RuneError_def hex4_bound
      split: if_splits sum.splits dest!: hex4_bound)

lemma simple_escape_ascii: "simple_escape e = Some c \<Longrightarrow> c < 0x80"
  by (auto simp: simple_escape_def split: if_splits)

lemma length_EncodeRune_small: "r < 65536 \<Longrightarrow> length (EncodeRune r) \<le> 3"
  by (simp add: EncodeRune_def rune_codes_def RuneError_def)

lemma DecodeRune_EncodeRune_length:
  assumes "p \<noteq> []" "DecodeRune p = (r, n)"
  shows "length (EncodeRune r) \<le> 3 * n"
proof (cases "r = RuneError \<and> n = 1")
  case False
  then have "take n p = EncodeRune r" using EncodeRune_DecodeRune assms by blast
  then have "length (EncodeRune r) = length (take n p)" by simp
  then show ?thesis by simp
qed simp

lemma decode_step_cases:
  assumes "decode_step (b # rest) = Inr (emit, n)"
  obtains (Plain) "b \<noteq> 0x5C" "b \<noteq> 0x22" "\<not> b < 0x20" "b < 0x80" "emit = [b]" "n = 1"
  | (Multi) r where "b \<noteq> 0x5C" "b \<noteq> 0x22" "\<not> b < 0x20" "\<not> b < 0x80"
      "DecodeRune (b # rest) = (r, n)" "emit = EncodeRune r"
  | (Simple) e rest' c where "b = 0x5C" "rest = e # rest'" "simple_escape e = Some c"
      "emit = [c]" "n = 2"
  | (Unicode) rest' r k where "b = 0x5C" "rest = 0x75 # rest'" "simple_escape 0x75 = None"
      "decodeUnicodeEscape rest' = Inr (r, k)" "emit = EncodeRune r" "n = 2 + k"
proof (cases "b = 0x5C")
  case True
  then show ?thesis using assms Simple Unicode
    by (auto split: list.splits option.splits if_splits sum.splits)
next
  case False
  obtain r size where d: "DecodeRune (b # rest) = (r, size)" by fastforce
  then have "1 \<le> size" using DecodeRune_size by blast
  then show ?thesis using assms False d Plain Multi by (auto split: if_splits)
qed

lemma decode_step_length:
  assumes "xs \<noteq> []" "decode_step xs = Inr (emit, n)"
  shows "length emit \<le> 3 * n \<and> n \<le> length xs"
proof -
  obtain b rest where xs: "xs = b # rest" using assms(1) by (cases xs) auto
  from assms(2) [unfolded xs] show ?thesis
  proof (cases rule: decode_step_cases)
    case (Multi r)
    then show ?thesis
      using DecodeRune_EncodeRune_length [of "b # rest" r n] DecodeRune_size [of "b # rest" r n]
      by (simp add: xs)
  next
    case (Unicode rest' r k)
    have "length (EncodeRune r) \<le> 3 * (2 + k)"
      using length_EncodeRune_le [of r] by simp
    with Unicode decodeUnicodeEscape_consumed [OF Unicode(4)] show ?thesis by (simp add: xs)
  qed (auto simp: xs)
qed

lemma decode_step_valid_utf8:
  assumes "decode_step (b # rest) = Inr (emit, n)" shows "valid_utf8 emit"
  using assms
proof (cases rule: decode_step_cases)
  case (Multi r)
  then show ?thesis using valid_utf8_EncodeRune [of r "[]"] by simp
next
  case (Unicode rest' r k)
  then show ?thesis using valid_utf8_EncodeRune [of r "[]"] by simp
qed (auto dest: simple_escape_ascii)

text \<open>Every iteration of the decoder is the same iteration of \<^verbatim>\<open>unquoteBytes\<close>.\<close>

lemma unquote_unicode:
  assumes "decodeUnicodeEscape data = Inr (r, k)"
  shows "unquote_step (0x5C # 0x75 # data) = Some (EncodeRune r, 2 + k)"
proof -
  have len: "\<not> length data < 4" using assms by (auto simp: decodeUnicodeEscape_def split: if_splits)
  obtain rr where rr: "hex4 (take 4 data) = Inr rr"
    using assms len by (auto simp: decodeUnicodeEscape_def split: sum.splits)
  have g: "getu4 (0x5C # 0x75 # data) = Some rr"
    using len rr by (simp add: getu4_def)
  have nth: "drop 4 data ! 0 = data ! 4" "drop 4 data ! 1 = data ! 5" using len by simp_all
  show ?thesis
  proof (cases "utf16_IsSurrogate rr")
    case False
    then show ?thesis using assms len rr g
      by (simp add: decodeUnicodeEscape_def simple_escape_def)
  next
    case True
    have low: "r = RuneError \<and> k = 4" if "utf16_DecodeRune rr x = RuneError" "0xDBFF < rr" for x
      using that True assms len rr by (simp add: decodeUnicodeEscape_def)
    have notlow: "utf16_DecodeRune rr x = RuneError" if "0xDBFF < rr" for x
      using that by (simp add: utf16_DecodeRune_def)
    show ?thesis
    proof (cases "0xDBFF < rr")
      case True
      with low notlow \<open>utf16_IsSurrogate rr\<close> g show ?thesis
        by (auto simp: simple_escape_def split: option.split)
    next
      case False
      then show ?thesis using assms len rr g True nth
        by (auto simp: decodeUnicodeEscape_def simple_escape_def utf16_IsSurrogate_def getu4_def Let_def
            split: sum.splits if_splits)
    qed
  qed
qed

lemma decode_step_unquote:
  assumes "decode_step (b # rest) = Inr (emit, n)"
  shows "unquote_step (b # rest) = Some (emit, n)"
  using assms
proof (cases rule: decode_step_cases)
  case (Multi r)
  moreover have "1 \<le> n" using Multi DecodeRune_size [of "b # rest" r n] by simp
  ultimately show ?thesis by auto
next
  case (Simple e rest' c)
  then have "e \<noteq> 0x27" by (auto simp: simple_escape_def)
  with Simple show ?thesis by simp
next
  case (Unicode rest' r k)
  then show ?thesis using unquote_unicode [OF Unicode(4)] by simp
qed auto

lemma decode_loop_unquote:
  "fst (decode_loop rest out) = Inr bs \<Longrightarrow> map_option (append out) (unquote_loop rest) = Some bs"
proof (induction rest out rule: decode_loop.induct)
  case (1 rest out)
  show ?case
  proof (cases rest)
    case (Cons b xs)
    then obtain emit n where d: "decode_step rest = Inr (emit, n)"
      using 1(2) by (cases "decode_step rest") (auto simp: decode_loop_error)
    then have u: "unquote_step rest = Some (emit, n)" using decode_step_unquote Cons by blast
    have "map_option (append (out @ emit)) (unquote_loop (drop n rest)) = Some bs"
      using 1 Cons d by (simp add: decode_loop_step)
    moreover have "rest \<noteq> []" using Cons by simp
    ultimately show ?thesis using u by (auto simp: unquote_loop.simps [of rest])
  qed (use 1(2) in simp)
qed

text \<open>On a literal that the scanner accepts, every iteration succeeds.\<close>

lemma scan_string_skip:
  "scan_string s \<Longrightarrow> \<forall>x \<in> set (take k s). \<not> x < 0x80 \<Longrightarrow> scan_string (drop k s)"
proof (induction k arbitrary: s)
  case (Suc k)
  show ?case
  proof (cases s)
    case (Cons c s')
    have big: "\<not> c < 0x80" using Suc.prems(2) Cons by simp
    then have "c \<noteq> 0x22" "c \<noteq> 0x5C" "\<not> c < 0x20"
      by (auto simp: word_less_nat_alt)
    then have "scan_string s'" using Suc.prems(1) Cons by (simp add: scan_string.simps(2))
    then show ?thesis using Suc Cons by simp
  qed (use Suc in simp)
qed simp

lemma hex4_total:
  "hex_value h1 \<noteq> None \<Longrightarrow> hex_value h2 \<noteq> None \<Longrightarrow> hex_value h3 \<noteq> None \<Longrightarrow> hex_value h4 \<noteq> None
     \<Longrightarrow> \<exists>r. hex4 [h1, h2, h3, h4] = Inr r"
  by (auto simp: hex4_def)

lemma decodeUnicodeEscape_scan:
  assumes "\<exists>r. hex4 [h1, h2, h3, h4] = Inr r" and scan: "scan_string s"
  shows "\<exists>r k. decodeUnicodeEscape (h1 # h2 # h3 # h4 # s) = Inr (r, k)
           \<and> scan_string (drop k (h1 # h2 # h3 # h4 # s))"
proof -
  let ?d = "h1 # h2 # h3 # h4 # s"
  obtain r where r: "hex4 [h1, h2, h3, h4] = Inr r" using assms(1) by blast
  have "\<exists>r k. decodeUnicodeEscape ?d = Inr (r, k) \<and> (k = 4 \<or> k = 10)"
    using r by (auto simp: decodeUnicodeEscape_def Let_def split: sum.split)
  then obtain r' k where d: "decodeUnicodeEscape ?d = Inr (r', k)" and k: "k = 4 \<or> k = 10" by blast
  have "scan_string (drop k ?d)"
  proof (cases "k = 4")
    case False
    with k have k10: "k = 10" by simp
    obtain l1 l2 l3 l4 t where s: "s = 0x5C # 0x75 # l1 # l2 # l3 # l4 # t"
    proof -
      have c: "6 \<le> length s" "s ! 0 = 0x5C" "s ! 1 = 0x75"
        using d k10 r by (auto simp: decodeUnicodeEscape_def Let_def split: sum.splits if_splits)
      then obtain x y l1 l2 l3 l4 t where "s = x # y # l1 # l2 # l3 # l4 # t"
        by (auto simp: numeral_eq_Suc Suc_le_length_iff)
      with c that show thesis by simp
    qed
    have "simple_escape 0x75 = None" by (simp add: simple_escape_def)
    with scan s have "scan_string t" by (simp add: scan_string.simps(2) [of "0x5C"])
    with k10 s show ?thesis by simp
  qed (use scan in simp)
  with d show ?thesis by blast
qed

lemma scan_decode_step:
  assumes "scan_string (b # rest)"
  shows "\<exists>emit n. decode_step (b # rest) = Inr (emit, n) \<and> scan_string (drop n (b # rest))"
proof -
  have b: "b \<noteq> 0x22" "\<not> b < 0x20" using assms by (auto simp: scan_string.simps(2) split: if_splits)
  consider "b = 0x5C" | "b \<noteq> 0x5C" "b < 0x80" | "b \<noteq> 0x5C" "\<not> b < 0x80" by blast
  then show ?thesis
  proof cases
    case 1
    then obtain e rest' where rest: "rest = e # rest'"
      using assms by (auto simp: scan_string.simps(2) split: list.splits)
    show ?thesis
    proof (cases "simple_escape e")
      case None
      with 1 rest assms have e: "e = 0x75"
        by (auto simp: scan_string.simps(2) split: if_splits)
      from assms 1 rest None obtain h1 h2 h3 h4 s where s: "rest' = h1 # h2 # h3 # h4 # s"
        and h: "\<exists>r. hex4 [h1, h2, h3, h4] = Inr r" and scan: "scan_string s"
        using hex4_total by (auto simp: scan_string.simps(2) [of "0x5C"] split: if_splits list.splits)
      from decodeUnicodeEscape_scan [OF h scan] obtain r k
        where "decodeUnicodeEscape rest' = Inr (r, k)" "scan_string (drop k rest')"
        unfolding s by blast
      with 1 rest None e show ?thesis by simp
    next
      case (Some c)
      with 1 rest assms show ?thesis by (simp add: scan_string.simps(2) [of "0x5C"])
    qed
  next
    case 2
    with assms b show ?thesis by (simp add: scan_string.simps(2))
  next
    case 3
    obtain r n where d: "DecodeRune (b # rest) = (r, n)" by fastforce
    then have n: "1 \<le> n" using DecodeRune_size by blast
    have "scan_string rest" using assms b 3 by (simp add: scan_string.simps(2))
    then have "scan_string (drop (n - 1) rest)"
      using scan_string_skip DecodeRune_tail [OF d] by blast
    with 3 b d n show ?thesis by (simp add: drop_Cons')
  qed
qed

lemma scan_decode_loop: "scan_string rest \<Longrightarrow> \<exists>bs. fst (decode_loop rest out) = Inr bs"
proof (induction rest out rule: decode_loop.induct)
  case (1 rest out)
  show ?case
  proof (cases rest)
    case (Cons b xs)
    then obtain emit n where d: "decode_step rest = Inr (emit, n)" "scan_string (drop n rest)"
      using scan_decode_step 1(2) by blast
    with 1 Cons show ?thesis by (simp add: decode_loop_step)
  qed simp
qed

section \<open>Properties of the decoder\<close>

lemma json_string_literal_parts:
  assumes "json_string_literal data"
  shows "decodeJSONStringBytes data = decode_loop (butlast (tl data)) []"
    "unquoteBytes data = unquote_loop (butlast (tl data))" "scan_string (butlast (tl data))"
  using assms by (auto simp: json_string_literal_def decodeJSONStringBytes_def unquoteBytes_def)



lemma decode_loop_bounded_utf8:
  assumes "valid_utf8 out"
  shows "(\<forall>bs. fst (decode_loop rest out) = Inr bs \<longrightarrow> valid_utf8 bs)
           \<and> length (snd (decode_loop rest out)) \<le> length out + 3 * length rest"
proof -
  let ?N = "length out + 3 * length rest"
  have "valid_utf8 out \<and> length out + 3 * length rest \<le> ?N" using assms by simp
  then show ?thesis
  proof (rule decode_loop_invariant
      [where I = "\<lambda>xs acc. valid_utf8 acc \<and> length acc + 3 * length xs \<le> ?N"])
    fix xs acc emit n
    assume I: "valid_utf8 acc \<and> length acc + 3 * length xs \<le> ?N" and ne: "xs \<noteq> []"
      and st: "decode_step xs = Inr (emit, n)"
    have "length emit \<le> 3 * n" "n \<le> length xs" using decode_step_length [OF ne st] by auto
    moreover have "valid_utf8 emit" using decode_step_valid_utf8 ne st by (cases xs) auto
    ultimately show "valid_utf8 (acc @ emit) \<and> length (acc @ emit) + 3 * length (drop n xs) \<le> ?N"
      using I by (auto simp: valid_utf8_append)
  qed auto
qed

lemma decodeJSONStringBytes_valid_utf8: "fst (decodeJSONStringBytes data) = Inr bs \<Longrightarrow> valid_utf8 bs"
  using decode_loop_bounded_utf8 [of "[]" "butlast (tl data)"]
  by (auto simp: decodeJSONStringBytes_def split: if_splits)

text \<open>
  A decoded password is well-formed UTF-8, and the decoder never writes more than three
  bytes per byte between the quotes, so the buffer allocated with that capacity is never
  reallocated and the deferred \<^verbatim>\<open>ZeroBytes\<close> reaches every copy.
\<close>

theorem decode_output_bounded_utf8:
  "(\<forall>bs. fst (decodeJSONStringBytes data) = Inr bs \<longrightarrow> valid_utf8 bs)
   \<and> length (snd (decodeJSONStringBytes data)) \<le> (length data - 2) * 3"
  using decode_loop_bounded_utf8 [of "[]" "butlast (tl data)"] decodeJSONStringBytes_valid_utf8 [of data]
  by (auto simp: decodeJSONStringBytes_def)

theorem decode_output_bounded_utf8_witness:
  "valid_utf8 (bytes_of ''pw'')
   \<and> length (snd (decodeJSONStringBytes (bytes_of (CHR 0x22 # ''pw'' @ [CHR 0x22])))) \<le> 6"
proof -
  have d: "fst (decodeJSONStringBytes (bytes_of (CHR 0x22 # ''pw'' @ [CHR 0x22]))) = Inr (bytes_of ''pw'')"
    by code_simp
  have "length (bytes_of (CHR 0x22 # ''pw'' @ [CHR 0x22])) = 4" by code_simp
  with d decode_output_bounded_utf8 [of "bytes_of (CHR 0x22 # ''pw'' @ [CHR 0x22])"]
  show ?thesis by simp
qed

text \<open>The scratch buffer of a failed decoding is zeroed; that of a successful one is the result.\<close>

lemma decode_loop_scratch:
  "case fst (decode_loop rest []) of
     Inl e \<Rightarrow> zeroed (snd (decode_loop rest [])) | Inr bs \<Rightarrow> snd (decode_loop rest []) = bs"
  by (rule decode_loop_invariant
      [where Q = "\<lambda>x. case fst x of Inl e \<Rightarrow> zeroed (snd x) | Inr bs \<Rightarrow> snd x = bs" and I = "\<lambda>_ _. True"])
    auto

text \<open>
  No plaintext survives a failed or repeated decoding: the previous contents of the
  receiver are overwritten, and when decoding fails the scratch buffer is overwritten too
  and the receiver is empty.
\<close>

theorem UnmarshalJSON_leaves_no_plaintext:
  assumes "passwordBytes_UnmarshalJSON p data = (err, p', previous, scratch)"
  shows "zeroed previous \<and> length previous = length p
         \<and> (err \<noteq> None \<longrightarrow> p' = [] \<and> zeroed scratch) \<and> (err = None \<longrightarrow> scratch = p')"
  using assms decode_loop_scratch [of "butlast (tl data)"]
  by (auto simp: passwordBytes_UnmarshalJSON_def decodeJSONStringBytes_def Let_def zeroed_def [of "[]"]
      split: if_splits prod.splits sum.splits)

theorem UnmarshalJSON_leaves_no_plaintext_witness:
  "passwordBytes_UnmarshalJSON [7, 9] (bytes_of [CHR 0x22, CHR ''p'', CHR 0x5C, CHR ''x'', CHR 0x22])
     = (Some (InvalidEscape 0x78), [], [0, 0], [0])
   \<and> zeroed [0, 0 :: byte] \<and> zeroed [0 :: byte]"
proof -
  have run: "passwordBytes_UnmarshalJSON [7, 9] (bytes_of [CHR 0x22, CHR ''p'', CHR 0x5C, CHR ''x'', CHR 0x22])
          = (Some (InvalidEscape 0x78), [], [0, 0], [0])"
    by code_simp
  from UnmarshalJSON_leaves_no_plaintext [OF run] run show ?thesis by simp
qed

end
