(* ===== verification/Graph_Client.thy ===== *)
theory Graph_Client
  imports Json_Password
begin

text \<open>
  Package \<^verbatim>\<open>internal/graphclient\<close> (\<^verbatim>\<open>client.go\<close>): the Microsoft Graph requests
  that set a password, and the byte-level JSON they carry.

  The requests sent so far are the state. What the token credential, the construction of a
  request and the HTTP round trip return is given by the fields of \<open>graph_env\<close>, which may
  depend on the requests sent before. Every request body is a buffer; the operations return
  the final contents of the body they allocated, so that the deferred \<^verbatim>\<open>ZeroBytes\<close> is
  visible. The hook \<^verbatim>\<open>AfterRequestBodyBuilt\<close> of \<^verbatim>\<open>Options\<close>, unset in
  the service, is not modelled.
\<close>

section \<open>JSON bodies\<close>

definition hexDigit :: "byte \<Rightarrow> byte" where
  "hexDigit b = bytes_of ''0123456789abcdef'' ! (unat b mod 16)"

definition json_escape :: "byte \<Rightarrow> byte list" where
  "json_escape b =
     (if b = 0x5C \<or> b = 0x22 then [0x5C, b]
      else if b = 0x0A then [0x5C, 0x6E]
      else if b = 0x0D then [0x5C, 0x72]
      else if b = 0x09 then [0x5C, 0x74]
      else if b < 0x20 then [0x5C, 0x75, 0x30, 0x30, hexDigit (drop_bit 4 b), hexDigit b]
      else [b])"

definition appendJSONString :: "byte list \<Rightarrow> byte list \<Rightarrow> byte list" where
  "appendJSONString dst value = dst @ [0x22] @ concat (map json_escape value) @ [0x22]"

definition appendJSONStringFromString :: "byte list \<Rightarrow> string \<Rightarrow> byte list" where
  "appendJSONStringFromString dst value = appendJSONString dst (bytes_of value)"

record graph_user =
  userUPN :: string
  userDisplayName :: string
  userMail :: string

definition mailNickname :: "string \<Rightarrow> string" where
  "mailNickname upn =
     (let (local_part, _, found) = CutChar CHR ''@'' upn in
      if found \<and> TrimSpace local_part \<noteq> [] then local_part else upn)"

definition dq :: string where "dq = [CHR 0x22]"

definition buildPatchBody :: "byte list \<Rightarrow> byte list" where
  "buildPatchBody password =
     (let body = bytes_of (''{'' @ dq @ ''passwordProfile'' @ dq @ '':{'' @ dq @ ''password'' @ dq @ '':'');
          body = appendJSONString body password
      in body @ bytes_of ('','' @ dq @ ''forceChangePasswordNextSignIn'' @ dq @ '':false}}''))"

definition buildCreateBody :: "graph_user \<Rightarrow> byte list \<Rightarrow> byte list" where
  "buildCreateBody user password =
     (let body = bytes_of (''{'' @ dq @ ''accountEnabled'' @ dq @ '':true,'' @ dq @ ''displayName'' @ dq @ '':'');
          body = appendJSONStringFromString body (userDisplayName user);
          body = body @ bytes_of ('','' @ dq @ ''mailNickname'' @ dq @ '':'');
          body = appendJSONStringFromString body (mailNickname (userUPN user));
          body = body @ bytes_of ('','' @ dq @ ''userPrincipalName'' @ dq @ '':'');
          body = appendJSONStringFromString body (userUPN user);
          mail = TrimSpace (userMail user);
          body = (if mail \<noteq> [] then
                    (let body = body @ bytes_of ('','' @ dq @ ''mail'' @ dq @ '':'');
                         body = appendJSONStringFromString body mail;
                         body = body @ bytes_of ('','' @ dq @ ''otherMails'' @ dq @ '':['');
                         body = appendJSONStringFromString body mail
                     in body @ bytes_of '']'')
                  else body);
          body = body @ bytes_of ('','' @ dq @ ''passwordProfile'' @ dq @ '':{'' @ dq @ ''password'' @ dq @ '':'');
          body = appendJSONString body password
      in body @ bytes_of ('','' @ dq @ ''forceChangePasswordNextSignIn'' @ dq @ '':false}}''))"

section \<open>Request paths\<close>

text \<open>
  \<^verbatim>\<open>url.PathEscape\<close>: letters, digits, \<^verbatim>\<open>- _ . ~\<close> and, inside a path segment,
  \<^verbatim>\<open>$ & + : = @\<close> are kept; every other byte becomes a percent sign and two
  upper-case hexadecimal digits.
\<close>

definition path_unreserved :: "char \<Rightarrow> bool" where
  "path_unreserved c \<longleftrightarrow>
     (let n = ord c in (48 \<le> n \<and> n \<le> 57) \<or> (65 \<le> n \<and> n \<le> 90) \<or> (97 \<le> n \<and> n \<le> 122))
     \<or> c \<in> set ''-_.~$&+:=@''"

definition upperHex :: "nat \<Rightarrow> char" where
  "upperHex n = ''0123456789ABCDEF'' ! n"

definition PathEscape :: "string \<Rightarrow> string" where
  "PathEscape s =
     concat (map (\<lambda>c. if path_unreserved c then [c]
                       else [CHR ''%'', upperHex (ord c div 16), upperHex (ord c mod 16)]) s)"

definition graphPathSegment :: "string \<Rightarrow> string" where
  "graphPathSegment value =
     concat (map (\<lambda>c. if c = CHR ''@'' then ''%40'' else [c]) (PathEscape value))"

definition userPath :: "string \<Rightarrow> string" where
  "userPath upn = ''/v1.0/users/'' @ graphPathSegment upn"

section \<open>Requests\<close>

record http_request =
  reqMethod :: string
  reqURL :: string
  reqHeaders :: "(string \<times> string) list"
  reqBody :: "byte list"

record graph_env =
  envToken :: "http_request list \<Rightarrow> string \<Rightarrow> goerror + string"
  envNewRequest :: "http_request list \<Rightarrow> string \<Rightarrow> string \<Rightarrow> goerror option"
  envDo :: "http_request list \<Rightarrow> http_request \<Rightarrow> goerror + int"

text \<open>
  Of the parsed base URL the client uses the scheme, the host, and its rendering without
  query and fragment. \<^verbatim>\<open>url.Parse\<close> is an argument of the constructor.
\<close>

record parsed_url =
  urlScheme :: string
  urlHost :: string
  urlString :: string

record http_client =
  clientBaseURL :: parsed_url
  clientScope :: string

definition defaultBaseURL :: string where "defaultBaseURL = ''https://graph.microsoft.com''"
definition defaultScope :: string where "defaultScope = ''https://graph.microsoft.com/.default''"

definition NewHTTPClient ::
  "(string \<Rightarrow> goerror + parsed_url) \<Rightarrow> bool \<Rightarrow> string \<Rightarrow> string \<Rightarrow> goerror + http_client" where
  "NewHTTPClient url_Parse credential_present optBaseURL optScope =
     (if \<not> credential_present then Inl (ErrorString ''graph token credential is required'')
      else
        let rawBaseURL = (if TrimSpace optBaseURL = [] then defaultBaseURL else TrimSpace optBaseURL);
            scope = (if TrimSpace optScope = [] then defaultScope else TrimSpace optScope)
        in case url_Parse rawBaseURL of
             Inl err \<Rightarrow> Inl (Wrapped ''graph base URL is invalid: '' err)
           | Inr u \<Rightarrow>
               if urlScheme u = [] \<or> urlHost u = []
               then Inl (Wrapped ''graph base URL is invalid: '' (ErrorString ''missing scheme or host''))
               else Inr \<lparr>clientBaseURL = u, clientScope = scope\<rparr>)"

definition graphURL :: "http_client \<Rightarrow> string \<Rightarrow> string" where
  "graphURL c path = TrimRightChar CHR ''/'' (urlString (clientBaseURL c)) @ path"

definition classifyGraphResponse :: "string \<Rightarrow> int \<Rightarrow> goerror" where
  "classifyGraphResponse operation status =
     (if status = 400 \<or> status = 403 then GraphPermanentError status operation None
      else if status = 429 \<or> status = 503 then GraphTransientError status operation None
      else GraphTransientError status operation None)"

definition graph_request ::
  "http_client \<Rightarrow> string \<Rightarrow> string \<Rightarrow> string \<Rightarrow> byte list option \<Rightarrow> http_request" where
  "graph_request c token verb path body =
     \<lparr>reqMethod = verb, reqURL = graphURL c path,
      reqHeaders = [(''Accept'', ''application/json''), (''Authorization'', ''Bearer '' @ token)]
        @ (if body \<noteq> None then [(''Content-Type'', ''application/json'')] else []),
      reqBody = (case body of None \<Rightarrow> [] | Some b \<Rightarrow> b)\<rparr>"

definition doGraphRequest ::
  "graph_env \<Rightarrow> http_client \<Rightarrow> http_request list \<Rightarrow> string \<Rightarrow> string \<Rightarrow> string \<Rightarrow> byte list option
     \<Rightarrow> (goerror + int) \<times> http_request list" where
  "doGraphRequest E c sent operation verb path body =
     (case envToken E sent (clientScope c) of
        Inl err \<Rightarrow> (Inl (GraphTransientError 0 operation (Some (Wrapped ''get graph token: '' err))), sent)
      | Inr token \<Rightarrow>
          (case envNewRequest E sent verb (graphURL c path) of
             Some err \<Rightarrow>
               (Inl (GraphTransientError 0 operation (Some (Wrapped ''build graph request: '' err))), sent)
           | None \<Rightarrow>
               (let req = graph_request c token verb path body
                in case envDo E sent req of
                     Inl err \<Rightarrow> (Inl (GraphTransientError 0 operation (Some err)), sent @ [req])
                   | Inr status \<Rightarrow> (Inr status, sent @ [req]))))"

text \<open>
  The write operations return the error if any, the requests sent and the final contents of
  the body buffer.
\<close>

definition patchUserPassword ::
  "graph_env \<Rightarrow> http_client \<Rightarrow> http_request list \<Rightarrow> string \<Rightarrow> byte list
     \<Rightarrow> goerror option \<times> http_request list \<times> byte list" where
  "patchUserPassword E c sent upn password =
     (let body = buildPatchBody password in
      case doGraphRequest E c sent ''patch user'' ''PATCH'' (userPath upn) (Some body) of
        (Inl err, sent') \<Rightarrow> (Some err, sent', ZeroBytes body)
      | (Inr status, sent') \<Rightarrow>
          (if status < 200 \<or> 299 < status then Some (classifyGraphResponse ''patch user'' status) else None,
           sent', ZeroBytes body))"

definition createUser ::
  "graph_env \<Rightarrow> http_client \<Rightarrow> http_request list \<Rightarrow> graph_user \<Rightarrow> byte list
     \<Rightarrow> goerror option \<times> http_request list \<times> byte list" where
  "createUser E c sent user password =
     (let body = buildCreateBody user password in
      case doGraphRequest E c sent ''create user'' ''POST'' ''/v1.0/users'' (Some body) of
        (Inl err, sent') \<Rightarrow> (Some err, sent', ZeroBytes body)
      | (Inr status, sent') \<Rightarrow>
          (if status < 200 \<or> 299 < status then Some (classifyGraphResponse ''create user'' status) else None,
           sent', ZeroBytes body))"

definition UpsertUserPassword ::
  "graph_env \<Rightarrow> http_client \<Rightarrow> http_request list \<Rightarrow> graph_user \<Rightarrow> byte list
     \<Rightarrow> goerror option \<times> http_request list \<times> byte list" where
  "UpsertUserPassword E c sent user password =
     (let upn = TrimSpace (userUPN user) in
      if upn = [] then
        (Some (GraphPermanentError 0 ''validate user'' (Some (ErrorString ''user UPN is required''))), sent, [])
      else if password = [] then
        (Some (GraphPermanentError 0 ''validate password'' (Some (ErrorString ''password is required''))), sent, [])
      else case doGraphRequest E c sent ''lookup user'' ''GET'' (userPath upn) None of
        (Inl err, sent') \<Rightarrow> (Some err, sent', [])
      | (Inr status, sent') \<Rightarrow>
          if status = 200 then patchUserPassword E c sent' upn password
          else if status = 404 then createUser E c sent' (user\<lparr>userUPN := upn\<rparr>) password
          else (Some (classifyGraphResponse ''lookup user'' status), sent', []))"

section \<open>Lemmas on the JSON strings\<close>

lemma hexDigit_value: "hex_value (hexDigit b) = Some (unat b mod 16)"
proof -
  have "\<forall>n < 16. hex_value (bytes_of ''0123456789abcdef'' ! n) = Some n" by code_simp
  then show ?thesis by (simp add: hexDigit_def)
qed

lemma unat_drop_bit4: "unat (drop_bit 4 (b :: byte)) = unat b div 16"
  by (simp only: unat_drop_bit_eq) (simp add: drop_bit_eq_div)

lemma simple_escape_self [simp]:
  "simple_escape 0x5C = Some 0x5C" "simple_escape 0x22 = Some 0x22" "simple_escape 0x6E = Some 0x0A"
  "simple_escape 0x72 = Some 0x0D" "simple_escape 0x74 = Some 0x09" "simple_escape 0x75 = None"
  by (simp_all add: simple_escape_def)

lemma decode_control_escape:
  assumes "b < 0x20"
  shows "decodeUnicodeEscape (0x30 # 0x30 # hexDigit (drop_bit 4 b) # hexDigit b # xs) = Inr (unat b, 4)"
proof -
  have z: "hex_value 0x30 = Some 0" by code_simp
  have "unat b div 16 mod 16 * 16 + unat b mod 16 = unat b"
    using unat_byte_less [of b] div_mult_mod_eq [of "unat b" 16] by (simp add: less_mult_imp_div_less)
  moreover have "unat b < 0x20" using assms by (simp add: word_less_nat_alt)
  ultimately show ?thesis
    by (simp add: decodeUnicodeEscape_def hex4_def hexDigit_value z unat_drop_bit4 utf16_IsSurrogate_def)
qed

text \<open>One iteration of the decoder undoes one iteration of \<^verbatim>\<open>appendJSONString\<close>.\<close>

lemma decode_json_escape:
  assumes "b < 0x80"
  shows "decode_step (json_escape b @ xs) = Inr ([b], length (json_escape b))"
proof -
  consider "b = 0x5C" | "b = 0x22" | "b = 0x0A" | "b = 0x0D" | "b = 0x09"
    | "b \<notin> {0x5C, 0x22, 0x0A, 0x0D, 0x09}" "b < 0x20" | "b \<notin> {0x5C, 0x22, 0x0A, 0x0D, 0x09}" "\<not> b < 0x20"
    by blast
  then show ?thesis
  proof cases
    case 6
    then show ?thesis
      using decode_control_escape [of b xs] EncodeRune_ascii [OF assms] by (simp add: json_escape_def)
  qed (use assms in \<open>simp_all add: json_escape_def\<close>)
qed

lemma json_escape_big: "\<not> b < 0x80 \<Longrightarrow> json_escape b = [b]"
proof -
  assume "\<not> b < 0x80"
  then have "128 \<le> unat b" by (simp add: word_less_nat_alt)
  then have "b \<noteq> 0x5C" "b \<noteq> 0x22" "b \<noteq> 0x0A" "b \<noteq> 0x0D" "b \<noteq> 0x09" "\<not> b < 0x20"
    by (auto simp: word_less_nat_alt)
  then show ?thesis by (simp add: json_escape_def)
qed

lemma json_escape_multi:
  "\<forall>x \<in> set bs. \<not> x < 0x80 \<Longrightarrow> concat (map json_escape bs) = bs"
  by (induction bs) (simp_all add: json_escape_big)

lemma decode_step_multi:
  assumes "valid_rune r" "\<not> r < 0x80"
  shows "decode_step (EncodeRune r @ xs) = Inr (EncodeRune r, length (EncodeRune r))"
proof -
  obtain b bs where e: "EncodeRune r = b # bs" by (cases "EncodeRune r") auto
  have "\<not> b < 0x80" using EncodeRune_multi_byte [OF assms] e by simp
  then have "b \<noteq> 0x5C" "b \<noteq> 0x22" "\<not> b < 0x20" using json_escape_big [of b]
    by (auto simp: word_less_nat_alt)
  with \<open>\<not> b < 0x80\<close> DecodeRune_EncodeRune [OF assms(1), of xs] e show ?thesis by simp
qed

lemma decode_escaped:
  assumes "valid_utf8 v"
  shows "decode_loop (concat (map json_escape v)) out = (Inr (out @ v), out @ v)"
  using assms
proof (induction v arbitrary: out rule: valid_utf8_induct)
  case (Rune r xs)
  let ?rest = "concat (map json_escape xs)"
  show ?case
  proof (cases "r < 0x80")
    case True
    define b :: byte where "b = word_of_nat r"
    have r: "r = unat b" using True by (simp add: b_def unat_word_of_nat_byte)
    then have b: "b < 0x80" using True by (simp add: word_less_nat_alt)
    have ne: "json_escape b @ ?rest \<noteq> []" by (simp add: json_escape_def)
    have "decode_loop (json_escape b @ ?rest) out = decode_loop ?rest (out @ [b])"
      using decode_loop_step [OF ne decode_json_escape [OF b]] by simp
    with Rune.IH show ?thesis using r EncodeRune_ascii [OF b] by simp
  next
    case False
    have "decode_loop (EncodeRune r @ ?rest) out = decode_loop ?rest (out @ EncodeRune r)"
      using decode_loop_step [OF _ decode_step_multi [OF Rune(1) False]] by simp
    with Rune.IH show ?thesis
      using json_escape_multi [OF EncodeRune_multi_byte [OF Rune(1) False]] by simp
  qed
qed simp

lemma scan_json_escape: "scan_string (json_escape b @ xs) = scan_string xs"
proof -
  consider "b = 0x5C" | "b = 0x22" | "b = 0x0A" | "b = 0x0D" | "b = 0x09"
    | "b \<notin> {0x5C, 0x22, 0x0A, 0x0D, 0x09}" "b < 0x20" | "b \<notin> {0x5C, 0x22, 0x0A, 0x0D, 0x09}" "\<not> b < 0x20"
    by blast
  then show ?thesis
  proof cases
    case 6
    moreover have "hex_value 0x30 = Some 0" by code_simp
    ultimately show ?thesis
      by (simp add: json_escape_def scan_string.simps(2) [of "0x5C"] hexDigit_value)
  qed (simp_all add: json_escape_def scan_string.simps(2) [of "0x5C"] scan_string.simps(2) [of b])
qed

lemma scan_escaped: "scan_string (concat (map json_escape v))"
  by (induction v) (simp_all add: scan_json_escape)

lemma appendJSONString_literal: "json_string_literal (appendJSONString [] v)"
  by (simp add: json_string_literal_def appendJSONString_def scan_escaped butlast_append)

lemma appendJSONString_append: "appendJSONString dst v = dst @ appendJSONString [] v"
  by (simp add: appendJSONString_def)

section \<open>Lemmas on the request paths\<close>

text \<open>\<^verbatim>\<open>url.PathUnescape\<close>, what the server applies to the path segment.\<close>

fun PathUnescape :: "string \<Rightarrow> string option" where
  "PathUnescape [] = Some []"
| "PathUnescape (c # s) =
     (if c = CHR ''%'' then
        (case s of
           h # l # s' \<Rightarrow>
             (case (fromHexChar h, fromHexChar l) of
                (Some a, Some b) \<Rightarrow> map_option (Cons (char_of (a * 16 + b))) (PathUnescape s')
              | _ \<Rightarrow> None)
         | _ \<Rightarrow> None)
      else map_option (Cons c) (PathUnescape s))"

definition segment_char :: "char \<Rightarrow> string" where
  "segment_char c =
     (if c = CHR ''@'' then ''%40''
      else if path_unreserved c then [c]
      else [CHR ''%'', upperHex (ord c div 16), upperHex (ord c mod 16)])"

lemma upperHex_not_at: "n < 16 \<Longrightarrow> upperHex n \<noteq> CHR ''@''"
proof -
  have "\<forall>n < 16. upperHex n \<noteq> CHR ''@''" by code_simp
  then show "n < 16 \<Longrightarrow> upperHex n \<noteq> CHR ''@''" by blast
qed

lemma fromHexChar_upperHex [simp]: "n < 16 \<Longrightarrow> fromHexChar (upperHex n) = Some n"
  by (auto simp: upperHex_def fromHexChar_def ord_def nth_Cons numeral_eq_Suc less_Suc_eq)

lemma ord_div16 [simp]: "ord c div 16 < 16" "ord c mod 16 < 16"
  using ord_less [of c] by (simp_all add: less_mult_imp_div_less)

lemma graphPathSegment_chars: "graphPathSegment s = concat (map segment_char s)"
  by (induction s)
    (auto simp: graphPathSegment_def PathEscape_def segment_char_def upperHex_not_at path_unreserved_def)

lemma unescape_segment_char:
  "PathUnescape (segment_char c @ s) = map_option (Cons c) (PathUnescape s)"
proof (cases "c = CHR ''@''")
  case True
  have "fromHexChar CHR ''4'' = Some 4" "fromHexChar CHR ''0'' = Some 0" by code_simp+
  moreover have "char_of (64 :: nat) = CHR ''@''" by code_simp
  ultimately show ?thesis using True by (simp add: segment_char_def)
next
  case False
  have p: "\<not> path_unreserved CHR ''%''" by code_simp
  have "char_of (ord c div 16 * 16 + ord c mod 16) = c" by (simp add: div_mult_mod_eq ord_def)
  with False p show ?thesis by (auto simp: segment_char_def)
qed

lemma unescape_graphPathSegment: "PathUnescape (graphPathSegment s) = Some s"
  by (induction s) (simp_all add: graphPathSegment_chars unescape_segment_char)

definition segment_safe :: "char \<Rightarrow> bool" where
  "segment_safe c \<longleftrightarrow> c = CHR ''%'' \<or> path_unreserved c \<and> c \<noteq> CHR ''@''"

lemma segment_char_safe: "\<forall>x \<in> set (segment_char c). segment_safe x"
proof -
  have h: "\<forall>n < 16. segment_safe (upperHex n)" by code_simp
  have "segment_safe (upperHex (ord c div 16))" "segment_safe (upperHex (ord c mod 16))"
    using h by simp_all
  moreover have "segment_safe CHR ''4''" "segment_safe CHR ''0''" "segment_safe CHR ''%''" by code_simp+
  moreover have "path_unreserved c \<Longrightarrow> c \<noteq> CHR ''@'' \<Longrightarrow> segment_safe c" by (simp add: segment_safe_def)
  ultimately show ?thesis by (simp add: segment_char_def)
qed

lemma graphPathSegment_safe: "x \<in> set (graphPathSegment s) \<Longrightarrow> segment_safe x"
  using segment_char_safe by (auto simp: graphPathSegment_chars)

section \<open>Lemmas on the requests\<close>

lemma doGraphRequest_cases:
  obtains
    (Unsent) e x where "doGraphRequest E c sent operation verb path body
        = (Inl (GraphTransientError 0 operation (Some (Wrapped x e))), sent)"
      "envToken E sent (clientScope c) = Inl e \<or> envNewRequest E sent verb (graphURL c path) = Some e"
  | (Failed) req e where "doGraphRequest E c sent operation verb path body
        = (Inl (GraphTransientError 0 operation (Some e)), sent @ [req])"
      "envDo E sent req = Inl e" "reqMethod req = verb" "reqURL req = graphURL c path"
      "reqBody req = (case body of None \<Rightarrow> [] | Some b \<Rightarrow> b)"
  | (Answered) req status where "doGraphRequest E c sent operation verb path body
        = (Inr status, sent @ [req])"
      "envDo E sent req = Inr status" "reqMethod req = verb" "reqURL req = graphURL c path"
      "reqBody req = (case body of None \<Rightarrow> [] | Some b \<Rightarrow> b)"
proof (cases "envToken E sent (clientScope c)")
  case (Inl e)
  then show ?thesis using Unsent by (simp add: doGraphRequest_def)
next
  case (Inr token)
  show ?thesis
  proof (cases "envNewRequest E sent verb (graphURL c path)")
    case (Some e)
    with Inr show ?thesis using Unsent by (simp add: doGraphRequest_def)
  next
    case None
    let ?req = "graph_request c token verb path body"
    have r: "doGraphRequest E c sent operation verb path body
        = (case envDo E sent ?req of
             Inl err \<Rightarrow> (Inl (GraphTransientError 0 operation (Some err)), sent @ [?req])
           | Inr status \<Rightarrow> (Inr status, sent @ [?req]))"
      using Inr None by (simp add: doGraphRequest_def Let_def)
    have f: "reqMethod ?req = verb" "reqURL ?req = graphURL c path"
      "reqBody ?req = (case body of None \<Rightarrow> [] | Some b \<Rightarrow> b)" by (simp_all add: graph_request_def)
    show ?thesis
      using r f Failed [where req = ?req] Answered [where req = ?req] by (cases "envDo E sent ?req") simp_all
  qed
qed

text \<open>
  A write: \<open>is_write\<close> says what the write operations have in common, so that the properties of
  \<^verbatim>\<open>UpsertUserPassword\<close> need not look at which of the two was made.
\<close>

primrec write_result ::
  "string \<Rightarrow> byte list \<Rightarrow> http_request list \<Rightarrow> goerror + int \<Rightarrow> goerror option \<times> http_request list \<times> byte list"
where
  "write_result op body sent' (Inl err) = (Some err, sent', ZeroBytes body)"
| "write_result op body sent' (Inr status) =
     (if status < 200 \<or> 299 < status then Some (classifyGraphResponse op status) else None,
      sent', ZeroBytes body)"

definition is_write ::
  "graph_env \<Rightarrow> http_client \<Rightarrow> http_request list \<Rightarrow> string \<Rightarrow> string \<Rightarrow> byte list
     \<Rightarrow> goerror option \<times> http_request list \<times> byte list \<Rightarrow> bool" where
  "is_write E c sent verb path body res \<longleftrightarrow>
     (\<exists>op. res = (let (r, sent') = doGraphRequest E c sent op verb path (Some body)
                  in write_result op body sent' r))"

lemma patchUserPassword_is_write:
  "is_write E c sent ''PATCH'' (userPath upn) (buildPatchBody pw) (patchUserPassword E c sent upn pw)"
  unfolding is_write_def patchUserPassword_def Let_def
  by (rule exI [of _ "''patch user''"]) (auto split: prod.split sum.split)

lemma createUser_is_write:
  "is_write E c sent ''POST'' ''/v1.0/users'' (buildCreateBody u pw) (createUser E c sent u pw)"
  unfolding is_write_def createUser_def Let_def
  by (rule exI [of _ "''create user''"]) (auto split: prod.split sum.split)

lemma is_write_cases:
  assumes "is_write E c sent verb path body (err, sent', buf)"
  obtains
    (Unsent) op x e where "err = Some (GraphTransientError 0 op (Some (Wrapped x e)))" "sent' = sent"
      "buf = ZeroBytes body"
      "envToken E sent (clientScope c) = Inl e \<or> envNewRequest E sent verb (graphURL c path) = Some e"
  | (Failed) op req e where "err = Some (GraphTransientError 0 op (Some e))" "sent' = sent @ [req]"
      "buf = ZeroBytes body" "envDo E sent req = Inl e" "reqMethod req = verb"
      "reqURL req = graphURL c path" "reqBody req = body"
  | (Answered) op req status where "sent' = sent @ [req]" "buf = ZeroBytes body"
      "envDo E sent req = Inr status" "reqMethod req = verb"
      "reqURL req = graphURL c path" "reqBody req = body"
      "err = (if status < 200 \<or> 299 < status then Some (classifyGraphResponse op status) else None)"
proof -
  from assms obtain op where w: "(err, sent', buf)
      = (let (r, s) = doGraphRequest E c sent op verb path (Some body) in write_result op body s r)"
    unfolding is_write_def by blast
  show ?thesis
  proof (cases rule: doGraphRequest_cases [where E = E and c = c and sent = sent and operation = op
        and verb = verb and path = path and body = "Some body"])
    case (Unsent e x)
    with w that(1) show ?thesis by simp
  next
    case (Failed req e)
    with w that(2) show ?thesis by simp
  next
    case (Answered req status)
    with w that(3) show ?thesis by simp
  qed
qed

text \<open>
  The course of an upsert: rejected before any request, stopped at the lookup, or a write
  after a lookup that answered 200 or 404.
\<close>

lemma UpsertUserPassword_cases:
  assumes "UpsertUserPassword E c sent user pw = (err, sent', buf)"
  obtains
    (Rejected) op msg where "TrimSpace (userUPN user) = [] \<or> pw = []" "sent' = sent" "buf = []"
      "err = Some (GraphPermanentError 0 op (Some (ErrorString msg)))"
  | (Unsent) op x e where "TrimSpace (userUPN user) \<noteq> []" "pw \<noteq> []" "sent' = sent" "buf = []"
      "err = Some (GraphTransientError 0 op (Some (Wrapped x e)))"
      "envToken E sent (clientScope c) = Inl e
        \<or> envNewRequest E sent ''GET'' (graphURL c (userPath (TrimSpace (userUPN user)))) = Some e"
  | (Failed) op req e where "TrimSpace (userUPN user) \<noteq> []" "pw \<noteq> []" "sent' = sent @ [req]" "buf = []"
      "reqMethod req = ''GET''" "reqURL req = graphURL c (userPath (TrimSpace (userUPN user)))"
      "reqBody req = []" "envDo E sent req = Inl e" "err = Some (GraphTransientError 0 op (Some e))"
  | (Stopped) op req status where "TrimSpace (userUPN user) \<noteq> []" "pw \<noteq> []" "sent' = sent @ [req]"
      "buf = []" "reqMethod req = ''GET''" "reqURL req = graphURL c (userPath (TrimSpace (userUPN user)))"
      "reqBody req = []" "envDo E sent req = Inr status" "status \<noteq> 200" "status \<noteq> 404"
      "err = Some (classifyGraphResponse op status)"
  | (Write) req status verb path body where "TrimSpace (userUPN user) \<noteq> []" "pw \<noteq> []"
      "reqMethod req = ''GET''" "reqURL req = graphURL c (userPath (TrimSpace (userUPN user)))"
      "reqBody req = []" "envDo E sent req = Inr status"
      "status = 200 \<and> verb = ''PATCH'' \<and> path = userPath (TrimSpace (userUPN user)) \<and> body = buildPatchBody pw
       \<or> status = 404 \<and> verb = ''POST'' \<and> path = ''/v1.0/users''
           \<and> body = buildCreateBody (user\<lparr>userUPN := TrimSpace (userUPN user)\<rparr>) pw"
      "is_write E c (sent @ [req]) verb path body (err, sent', buf)"
proof (cases "TrimSpace (userUPN user) = [] \<or> pw = []")
  case True
  with assms Rejected show ?thesis by (auto simp: UpsertUserPassword_def Let_def split: if_splits)
next
  case ne: False
  let ?upn = "TrimSpace (userUPN user)"
  show ?thesis
  proof (cases rule: doGraphRequest_cases [where E = E and c = c and sent = sent
        and operation = "''lookup user''" and verb = "''GET''" and path = "userPath ?upn" and body = None])
    case (Unsent e x)
    with assms ne that(2) show ?thesis by (auto simp: UpsertUserPassword_def)
  next
    case (Failed req e)
    with assms ne that(3) show ?thesis by (auto simp: UpsertUserPassword_def)
  next
    case (Answered req status)
    consider "status = 200" | "status = 404" | "status \<noteq> 200" "status \<noteq> 404" by blast
    then show ?thesis
    proof cases
      case 1
      with Answered assms ne have "patchUserPassword E c (sent @ [req]) ?upn pw = (err, sent', buf)"
        by (simp add: UpsertUserPassword_def)
      then have "is_write E c (sent @ [req]) ''PATCH'' (userPath ?upn) (buildPatchBody pw) (err, sent', buf)"
        by (metis patchUserPassword_is_write)
      with 1 Answered ne that(5) show ?thesis by simp
    next
      case 2
      let ?u = "user\<lparr>userUPN := ?upn\<rparr>"
      from 2 Answered assms ne have "createUser E c (sent @ [req]) ?u pw = (err, sent', buf)"
        by (simp add: UpsertUserPassword_def)
      then have "is_write E c (sent @ [req]) ''POST'' ''/v1.0/users'' (buildCreateBody ?u pw) (err, sent', buf)"
        by (metis createUser_is_write)
      with 2 Answered ne that(5) show ?thesis by simp
    next
      case 3
      with Answered assms ne that(4) show ?thesis by (auto simp: UpsertUserPassword_def)
    qed
  qed
qed

section \<open>Properties of the Graph client\<close>

definition profile_end :: "byte list" where
  "profile_end = bytes_of ('','' @ dq @ ''forceChangePasswordNextSignIn'' @ dq @ '':false}}'')"

definition profile_start :: "byte list" where
  "profile_start = bytes_of (dq @ ''passwordProfile'' @ dq @ '':{'' @ dq @ ''password'' @ dq @ '':'')"

lemma bytes_of_Cons: "bytes_of (c # s) = word_of_nat (ord c) # bytes_of s"
  by (simp add: bytes_of_def)

lemma buildPatchBody_literal:
  "buildPatchBody pw = 0x7B # profile_start @ appendJSONString [] pw @ profile_end"
  by (simp add: buildPatchBody_def profile_start_def profile_end_def appendJSONString_def bytes_of_append
      bytes_of_Cons ord_def)

lemma buildCreateBody_literal:
  "\<exists>fields. buildCreateBody user pw
     = fields @ 0x2C # profile_start @ appendJSONString [] pw @ profile_end"
  by (simp add: buildCreateBody_def profile_start_def profile_end_def appendJSONString_def
      bytes_of_append bytes_of_Cons ord_def Let_def)

lemma unquote_appendJSONString:
  assumes "valid_utf8 pw" shows "unquoteBytes (appendJSONString [] pw) = Some pw"
proof -
  have "decodeJSONStringBytes (appendJSONString [] pw) = (Inr pw, pw)"
    using decode_escaped [OF assms, of "[]"]
    by (simp add: decodeJSONStringBytes_def appendJSONString_def butlast_append)
  then show ?thesis
    using decode_loop_unquote [of "butlast (tl (appendJSONString [] pw))" "[]" pw]
      json_string_literal_parts [OF appendJSONString_literal [of pw]]
    by (cases "unquote_loop (butlast (tl (appendJSONString [] pw)))") simp_all
qed

text \<open>
  C5: the password reaches Graph unchanged. Whatever literal the hook decoded, the bodies
  sent to Graph carry the password as one JSON string literal, in the same place of the
  document whatever its bytes are, and that literal decodes to exactly the decoded password.
\<close>

theorem hook_password_reaches_graph:
  assumes "fst (decodeJSONStringBytes data) = Inr pw"
  shows "\<exists>lit fields. json_string_literal lit \<and> unquoteBytes lit = Some pw
           \<and> buildPatchBody pw = 0x7B # profile_start @ lit @ profile_end
           \<and> buildCreateBody user pw = fields @ 0x2C # profile_start @ lit @ profile_end"
  using appendJSONString_literal unquote_appendJSONString [OF decodeJSONStringBytes_valid_utf8 [OF assms]]
    buildPatchBody_literal buildCreateBody_literal by blast

theorem hook_password_reaches_graph_witness:
  "\<exists>lit fields. json_string_literal lit \<and> unquoteBytes lit = Some [0x70, 0x0A, 0x22]
     \<and> buildPatchBody [0x70, 0x0A, 0x22] = 0x7B # profile_start @ lit @ profile_end
     \<and> buildCreateBody \<lparr>userUPN = ''a@b'', userDisplayName = ''A'', userMail = ''''\<rparr> [0x70, 0x0A, 0x22]
         = fields @ 0x2C # profile_start @ lit @ profile_end"
  by (rule hook_password_reaches_graph
      [of "[0x22, 0x70, 0x5C, 0x75, 0x30, 0x30, 0x30, 0x61, 0x5C, 0x22, 0x22]"]) code_simp

text \<open>
  C23: the course of an upsert. A request that carries the password is sent only after a
  lookup of the same user that carried none, as a PATCH of the looked-up URL when the lookup
  answered 200 and as a POST when it answered 404; success means that write answered 2xx; and
  the body buffer is overwritten on every path.
\<close>

theorem upsert_protocol:
  assumes "UpsertUserPassword E c sent user pw = (err, sent', buf)"
  shows "zeroed buf
    \<and> (sent' = sent
       \<or> (\<exists>lookup. reqMethod lookup = ''GET'' \<and> reqBody lookup = []
            \<and> reqURL lookup = graphURL c (userPath (TrimSpace (userUPN user)))
            \<and> (sent' = sent @ [lookup]
               \<or> (\<exists>w. sent' = sent @ [lookup, w]
                    \<and> (envDo E sent lookup = Inr 200 \<and> reqMethod w = ''PATCH'' \<and> reqURL w = reqURL lookup
                          \<and> reqBody w = buildPatchBody pw
                       \<or> envDo E sent lookup = Inr 404 \<and> reqMethod w = ''POST''
                          \<and> reqURL w = graphURL c ''/v1.0/users''
                          \<and> reqBody w = buildCreateBody (user\<lparr>userUPN := TrimSpace (userUPN user)\<rparr>) pw)))))
    \<and> (err = None \<longrightarrow> (\<exists>lookup w status. sent' = sent @ [lookup, w]
         \<and> envDo E (sent @ [lookup]) w = Inr status \<and> 200 \<le> status \<and> status \<le> 299))"
  using assms
proof (cases rule: UpsertUserPassword_cases)
  case (Write req status verb path body)
  from Write(8) show ?thesis
  proof (cases rule: is_write_cases)
    case (Unsent op x e)
    with Write show ?thesis by auto
  next
    case (Failed op w e)
    have "sent' = sent @ [req, w]" using Failed by simp
    with Failed(1,3-) Write(3-7) show ?thesis by auto
  next
    case (Answered op w status')
    have "sent' = sent @ [req, w]" using Answered by simp
    with Answered(2-) Write(3-7) show ?thesis by (auto split: if_splits)
  qed
qed (auto simp: zeroed_def classifyGraphResponse_def)

definition sample_graph_env :: graph_env where
  "sample_graph_env =
     \<lparr>envToken = (\<lambda>_ _. Inr ''token''), envNewRequest = (\<lambda>_ _ _. None),
      envDo = (\<lambda>_ r. Inr (if reqMethod r = ''GET'' then 404 else 201))\<rparr>"

definition sample_client :: http_client where
  "sample_client =
     \<lparr>clientBaseURL = \<lparr>urlScheme = ''https'', urlHost = ''g'', urlString = ''https://g/''\<rparr>, clientScope = ''s''\<rparr>"

definition sample_user :: graph_user where
  "sample_user = \<lparr>userUPN = '' a@b'', userDisplayName = ''A'', userMail = ''''\<rparr>"

theorem upsert_protocol_witness:
  "\<exists>lookup w status.
     fst (snd (UpsertUserPassword sample_graph_env sample_client [] sample_user [0x70])) = [lookup, w]
     \<and> envDo sample_graph_env [lookup] w = Inr status \<and> 200 \<le> status \<and> status \<le> 299"
proof -
  let ?r = "UpsertUserPassword sample_graph_env sample_client [] sample_user [0x70]"
  have "fst ?r = None" by code_simp
  then obtain sent' buf where r: "?r = (None, sent', buf)" by (cases ?r) auto
  from upsert_protocol [OF r] r show ?thesis by auto
qed

text \<open>
  The user principal name is one path segment of the request URL. It holds no character
  that ends a segment, starts a query or a fragment, or is outside the unreserved set, and the
  server's unescaping gives the name back, so that two users never share a URL.
\<close>

theorem user_path_single_segment:
  "userPath upn = ''/v1.0/users/'' @ graphPathSegment upn
   \<and> set (graphPathSegment upn) \<inter> set ''/?#;,@ '' = {}
   \<and> PathUnescape (graphPathSegment upn) = Some upn"
proof -
  have "\<forall>x \<in> set ''/?#;,@ ''. \<not> segment_safe x" by code_simp
  then have "set (graphPathSegment upn) \<inter> set ''/?#;,@ '' = {}"
    using graphPathSegment_safe by blast
  then show ?thesis using unescape_graphPathSegment by (simp add: userPath_def)
qed

section \<open>Which failures are permanent\<close>

definition graph_env_errors_foreign :: "graph_env \<Rightarrow> bool" where
  "graph_env_errors_foreign E \<longleftrightarrow>
     (\<forall>h scope e. envToken E h scope = Inl e \<longrightarrow> \<not> errors_any is_graph_permanent e)
     \<and> (\<forall>h verb url e. envNewRequest E h verb url = Some e \<longrightarrow> \<not> errors_any is_graph_permanent e)
     \<and> (\<forall>h req e. envDo E h req = Inl e \<longrightarrow> \<not> errors_any is_graph_permanent e)"

lemma classifyGraphResponse_permanent:
  "errors_any is_graph_permanent (classifyGraphResponse op status) \<longleftrightarrow> status = 400 \<or> status = 403"
  by (simp add: classifyGraphResponse_def)

lemma envDo_new_cases:
  "(\<exists>k < length (sent @ new). length sent \<le> k \<and> P (take k (sent @ new)) ((sent @ new) ! k))
     \<longleftrightarrow> (\<exists>k < length new. P (sent @ take k new) (new ! k))"
proof
  assume "\<exists>k < length (sent @ new). length sent \<le> k \<and> P (take k (sent @ new)) ((sent @ new) ! k)"
  then obtain k where "k < length sent + length new" "length sent \<le> k"
    "P (take k (sent @ new)) ((sent @ new) ! k)" by auto
  then show "\<exists>k < length new. P (sent @ take k new) (new ! k)"
    by (intro exI [of _ "k - length sent"]) (auto simp: nth_append)
next
  assume "\<exists>k < length new. P (sent @ take k new) (new ! k)"
  then obtain k where "k < length new" "P (sent @ take k new) (new ! k)" by blast
  then show "\<exists>k < length (sent @ new). length sent \<le> k \<and> P (take k (sent @ new)) ((sent @ new) ! k)"
    by (intro exI [of _ "length sent + k"]) (auto simp: nth_append)
qed

text \<open>Some request of this upsert, the k-th of all sent, was answered with one of the statuses.\<close>

definition answered :: "graph_env \<Rightarrow> http_request list \<Rightarrow> http_request list \<Rightarrow> int set \<Rightarrow> bool" where
  "answered E sent sent' statuses \<longleftrightarrow>
     (\<exists>k < length sent'. length sent \<le> k
        \<and> (case envDo E (take k sent') (sent' ! k) of Inl _ \<Rightarrow> False | Inr s \<Rightarrow> s \<in> statuses))"

lemma answered_simps [simp]:
  "answered E sent sent S = False"
  "answered E sent (sent @ [a]) S = (case envDo E sent a of Inl _ \<Rightarrow> False | Inr s \<Rightarrow> s \<in> S)"
  "answered E sent (sent @ [a, b]) S =
     ((case envDo E sent a of Inl _ \<Rightarrow> False | Inr s \<Rightarrow> s \<in> S)
      \<or> (case envDo E (sent @ [a]) b of Inl _ \<Rightarrow> False | Inr s \<Rightarrow> s \<in> S))"
  using envDo_new_cases [of sent "[a]" "\<lambda>h r. case envDo E h r of Inl _ \<Rightarrow> False | Inr s \<Rightarrow> s \<in> S"]
    envDo_new_cases [of sent "[a, b]" "\<lambda>h r. case envDo E h r of Inl _ \<Rightarrow> False | Inr s \<Rightarrow> s \<in> S"]
  by (auto simp: answered_def less_Suc_eq)

lemma upsert_permanent_iff:
  assumes "graph_env_errors_foreign E"
    and "UpsertUserPassword E c sent user pw = (Some err, sent', buf)"
  shows "errors_any is_graph_permanent err
    \<longleftrightarrow> TrimSpace (userUPN user) = [] \<or> pw = [] \<or> answered E sent sent' {400, 403}"
  using assms(2)
proof (cases rule: UpsertUserPassword_cases)
  case (Write req status verb path body)
  from Write(8) show ?thesis
  proof (cases rule: is_write_cases)
    case (Unsent op x e)
    with Write assms(1) show ?thesis by (auto simp: graph_env_errors_foreign_def)
  next
    case (Failed op w e)
    have "sent' = sent @ [req, w]" using Failed by simp
    with Failed Write assms(1) show ?thesis by (auto simp: graph_env_errors_foreign_def)
  next
    case (Answered op w status')
    have "sent' = sent @ [req, w]" using Answered by simp
    with Answered(2-) Write(1-7) show ?thesis
      by (auto simp: classifyGraphResponse_permanent split: if_splits)
  qed
qed (use assms(1) in \<open>auto simp: classifyGraphResponse_permanent graph_env_errors_foreign_def\<close>)

end
