(* ===== verification/Graph_Processor.thy ===== *)
theory Graph_Processor
  imports Worker Graph_Client
begin

text \<open>
  Package \<^verbatim>\<open>internal/graphprocessor\<close> (\<^verbatim>\<open>processor.go\<close>): the worker's processor, which
  hands the command to the Graph client, observes the call and turns a permanent Graph error
  into the worker's permanent error. The two clock readings are arguments.
\<close>

definition NewProcessor :: "bool \<Rightarrow> goerror option" where
  "NewProcessor client_present =
     (if \<not> client_present then Some (ErrorString ''graph client is required'') else None)"

definition NewProcessorWithOptions :: "bool \<Rightarrow> goerror option" where
  "NewProcessorWithOptions client_present =
     (if \<not> client_present then Some (ErrorString ''graph client is required'') else None)"

definition upsert_outcome :: "goerror option \<Rightarrow> string" where
  "upsert_outcome err =
     (case err of
        None \<Rightarrow> ''success''
      | Some e \<Rightarrow> if errors_find is_graph_permanent e \<noteq> None then ''permanent_error'' else ''transient_error'')"

definition command_user :: "password_sync_command \<Rightarrow> graph_user" where
  "command_user cmd = \<lparr>userUPN = cmdUPN cmd, userDisplayName = cmdDisplayName cmd, userMail = cmdMail cmd\<rparr>"

definition ProcessPasswordSync ::
  "graph_env \<Rightarrow> http_client \<Rightarrow> instant \<Rightarrow> instant \<Rightarrow> http_request list \<Rightarrow> password_sync_command
     \<Rightarrow> goerror option \<times> http_request list \<times> byte list \<times> obs list" where
  "ProcessPasswordSync G c start finish sent cmd =
     (let (err, sent', buf) = UpsertUserPassword G c sent (command_user cmd) (cmdPassword cmd);
          outcome = upsert_outcome err;
          duration = time_Sub finish start;
          observed =
            [ObserveDuration MetricGraphUpsertDuration duration [(''outcome'', outcome)],
             LogAttrs ActionGraphUpsert
               ([AttrString ''action'' ActionGraphUpsert, AttrString ''outcome'' outcome,
                 AttrInt ''durationMs'' (duration_Milliseconds duration)]
                @ SafeIdentityAttrs (emptyIdentity\<lparr>idTraceID := cmdTraceID cmd, idUPN := cmdUPN cmd\<rparr>))]
      in case err of
           None \<Rightarrow> (None, sent', buf, observed)
         | Some e \<Rightarrow>
             (case errors_find is_graph_permanent e of
                Some permanent \<Rightarrow>
                  (Some (WorkerPermanentError PermanentReasonProcessorError (Some permanent)), sent', buf, observed)
              | None \<Rightarrow> (Some e, sent', buf, observed)))"

section \<open>Which failures the worker will retry\<close>

definition graph_env_errors_not_worker :: "graph_env \<Rightarrow> bool" where
  "graph_env_errors_not_worker G \<longleftrightarrow>
     (\<forall>h scope e. envToken G h scope = Inl e \<longrightarrow> \<not> errors_any is_worker_permanent e)
     \<and> (\<forall>h verb url e. envNewRequest G h verb url = Some e \<longrightarrow> \<not> errors_any is_worker_permanent e)
     \<and> (\<forall>h req e. envDo G h req = Inl e \<longrightarrow> \<not> errors_any is_worker_permanent e)"

lemma classify_not_worker [simp]: "\<not> errors_any is_worker_permanent (classifyGraphResponse op st)"
  by (simp add: classifyGraphResponse_def)

lemma upsert_not_worker:
  assumes "graph_env_errors_not_worker G" and "UpsertUserPassword G c sent user pw = (Some e, sent', buf)"
  shows "\<not> errors_any is_worker_permanent e"
  using assms(2)
proof (cases rule: UpsertUserPassword_cases)
  case (Write req status verb path body)
  from Write(8) show ?thesis
    by (cases rule: is_write_cases) (use assms(1) in \<open>auto simp: graph_env_errors_not_worker_def split: if_splits\<close>)
qed (use assms(1) in \<open>auto simp: graph_env_errors_not_worker_def\<close>)

text \<open>
  C31: the worker gives up at once on exactly the failures that a retry cannot mend. The
  processor's error is permanent for the worker if and only if the account or the password is
  empty, or Graph answered one of the requests with 400 or 403; every other failure, including
  token, transport and throttling errors, is retried. The request body is overwritten.
\<close>

theorem processor_permanent_iff:
  assumes "graph_env_errors_foreign G" and "graph_env_errors_not_worker G"
    and "ProcessPasswordSync G c start finish sent cmd = (Some err, sent', buf, observed)"
  shows "(errors_find is_worker_permanent err \<noteq> None
          \<longleftrightarrow> TrimSpace (cmdUPN cmd) = [] \<or> cmdPassword cmd = [] \<or> answered G sent sent' {400, 403})
         \<and> zeroed buf"
proof -
  obtain e where u: "UpsertUserPassword G c sent (command_user cmd) (cmdPassword cmd) = (Some e, sent', buf)"
    and err: "err = (case errors_find is_graph_permanent e of
                Some p \<Rightarrow> WorkerPermanentError PermanentReasonProcessorError (Some p) | None \<Rightarrow> e)"
    using assms(3) by (auto simp: ProcessPasswordSync_def Let_def split: prod.splits option.splits)
  have iff: "errors_any is_graph_permanent e
      \<longleftrightarrow> TrimSpace (cmdUPN cmd) = [] \<or> cmdPassword cmd = [] \<or> answered G sent sent' {400, 403}"
    using upsert_permanent_iff [OF assms(1) u] by (simp add: command_user_def)
  have "errors_find is_worker_permanent err \<noteq> None \<longleftrightarrow> errors_any is_graph_permanent e"
  proof (cases "errors_find is_graph_permanent e")
    case None
    then have "err = e" using err by simp
    moreover have "\<not> errors_any is_graph_permanent e" using None errors_find_None by blast
    ultimately
    show ?thesis using upsert_not_worker [OF assms(2) u] by (simp add: errors_find_None)
  next
    case (Some p)
    then have "errors_any is_graph_permanent e" using errors_find_None [of is_graph_permanent e] by auto
    with Some err show ?thesis by simp
  qed
  moreover have "zeroed buf"
    using u by (cases rule: UpsertUserPassword_cases)
      (auto simp: zeroed_def [of "[]"] elim!: is_write_cases)
  ultimately show ?thesis using iff by simp
qed

definition sample_command :: password_sync_command where
  "sample_command =
     \<lparr>cmdCN = ''A1'', cmdUPN = ''A1@n'', cmdTraceID = ''t'', cmdPassword = [0x70], cmdDisplayName = ''A'',
      cmdMail = [], cmdEnqueuedAt = 5\<rparr>"

definition forbidden_graph_env :: graph_env where
  "forbidden_graph_env =
     \<lparr>envToken = (\<lambda>_ _. Inr ''token''), envNewRequest = (\<lambda>_ _ _. None), envDo = (\<lambda>_ r. Inr 403)\<rparr>"

theorem processor_permanent_iff_witness:
  "\<exists>err sent' buf observed.
     ProcessPasswordSync forbidden_graph_env sample_client 1 2 [] sample_command = (Some err, sent', buf, observed)
     \<and> errors_find is_worker_permanent err \<noteq> None \<and> answered forbidden_graph_env [] sent' {400, 403}"
proof -
  let ?r = "ProcessPasswordSync forbidden_graph_env sample_client 1 2 [] sample_command"
  have "fst ?r \<noteq> None" by code_simp
  then obtain err sent' buf observed where r: "?r = (Some err, sent', buf, observed)" by (cases ?r) auto
  have "case fst ?r of None \<Rightarrow> False | Some e \<Rightarrow> errors_find is_worker_permanent e \<noteq> None" by code_simp
  then have p: "errors_find is_worker_permanent err \<noteq> None" using r by simp
  have "graph_env_errors_foreign forbidden_graph_env" "graph_env_errors_not_worker forbidden_graph_env"
    by (auto simp: graph_env_errors_foreign_def graph_env_errors_not_worker_def forbidden_graph_env_def)
  from processor_permanent_iff [OF this r] have
    "TrimSpace (cmdUPN sample_command) = [] \<or> cmdPassword sample_command = []
     \<or> answered forbidden_graph_env [] sent' {400, 403}" using p by simp
  moreover have "TrimSpace (cmdUPN sample_command) \<noteq> []" "cmdPassword sample_command \<noteq> []" by code_simp+
  ultimately show ?thesis using r p by blast
qed

end
