(* ===== verification/Go_Json.thy ===== *)
theory Go_Json
  imports Json_Password Go_Time "HOL-Library.Monad_Syntax"
begin

text \<open>
  The parts of \<^verbatim>\<open>encoding/json\<close> that the program uses: \<^verbatim>\<open>Unmarshal\<close> into a structure whose
  fields are strings, times or have their own \<^verbatim>\<open>UnmarshalJSON\<close>, and \<^verbatim>\<open>Marshal\<close> of a structure
  of strings, integers and times. Strings inside a literal are those of theory \<open>Json_Password\<close>.
  Of an error only its presence is kept: no text of a JSON error is stored, logged or sent.
\<close>

section \<open>Values\<close>

text \<open>A parsed value; every string keeps its raw contents, arrays and objects their raw text.\<close>

datatype json =
    JLiteral "byte list"
  | JText "byte list"
  | JArray "byte list" "json list"
  | JObject "byte list" "(byte list \<times> json) list"

primrec json_raw :: "json \<Rightarrow> byte list" where
  "json_raw (JLiteral lit) = lit"
| "json_raw (JText lit) = 0x22 # lit @ [0x22]"
| "json_raw (JArray raw vs) = raw"
| "json_raw (JObject raw ms) = raw"

definition is_ws :: "byte \<Rightarrow> bool" where
  "is_ws b \<longleftrightarrow> b = 0x20 \<or> b = 0x09 \<or> b = 0x0D \<or> b = 0x0A"

definition skip_ws :: "byte list \<Rightarrow> byte list" where
  "skip_ws s = dropWhile is_ws s"

definition digit_byte :: "byte \<Rightarrow> bool" where
  "digit_byte b \<longleftrightarrow> 0x30 \<le> b \<and> b \<le> 0x39"

text \<open>The rest of a string literal after its opening quote: the contents and what follows.\<close>

fun string_end :: "byte list \<Rightarrow> (byte list \<times> byte list) option" where
  "string_end [] = None"
| "string_end (b # s) =
     (if b = 0x22 then Some ([], s)
      else if b < 0x20 then None
      else if b = 0x5C then
        (case s of
           [] \<Rightarrow> None
         | e # s' \<Rightarrow>
             if simple_escape e \<noteq> None then map_option (apfst (append [b, e])) (string_end s')
             else if e = 0x75 then
               (case s' of
                  h1 # h2 # h3 # h4 # s'' \<Rightarrow>
                    if hex_value h1 \<noteq> None \<and> hex_value h2 \<noteq> None \<and> hex_value h3 \<noteq> None \<and> hex_value h4 \<noteq> None
                    then map_option (apfst (append [b, e, h1, h2, h3, h4])) (string_end s'')
                    else None
                | _ \<Rightarrow> None)
             else None)
      else map_option (apfst (append [b])) (string_end s))"

text \<open>Numbers: an integer part without leading zeros, a fraction and an exponent.\<close>

definition digits_split :: "byte list \<Rightarrow> (byte list \<times> byte list) option" where
  "digits_split s =
     (let ds = takeWhile digit_byte s in if ds = [] then None else Some (ds, dropWhile digit_byte s))"

definition integer_part :: "byte list \<Rightarrow> (byte list \<times> byte list) option" where
  "integer_part s =
     (case s of
        [] \<Rightarrow> None
      | b # r \<Rightarrow> if b = 0x30 then Some ([b], r) else digits_split s)"

definition fraction_part :: "byte list \<Rightarrow> (byte list \<times> byte list) option" where
  "fraction_part s =
     (case s of
        [] \<Rightarrow> Some ([], s)
      | b # r \<Rightarrow> if b = 0x2E then map_option (apfst (append [b])) (digits_split r) else Some ([], s))"

definition exponent_part :: "byte list \<Rightarrow> (byte list \<times> byte list) option" where
  "exponent_part s =
     (case s of
        [] \<Rightarrow> Some ([], s)
      | b # r \<Rightarrow>
          if b = 0x65 \<or> b = 0x45 then
            (case r of
               c # r' \<Rightarrow> if c = 0x2B \<or> c = 0x2D then map_option (apfst (append [b, c])) (digits_split r')
                         else map_option (apfst (append [b])) (digits_split r)
             | [] \<Rightarrow> None)
          else Some ([], s))"

definition number_end :: "byte list \<Rightarrow> (byte list \<times> byte list) option" where
  "number_end s =
     (let (sign, s1) = (if s \<noteq> [] \<and> hd s = 0x2D then ([0x2D], tl s) else ([], s)) in
      case integer_part s1 of
        None \<Rightarrow> None
      | Some (i, s2) \<Rightarrow>
          (case fraction_part s2 of
             None \<Rightarrow> None
           | Some (f, s3) \<Rightarrow>
               (case exponent_part s3 of
                  None \<Rightarrow> None
                | Some (e, s4) \<Rightarrow> Some (sign @ i @ f @ e, s4))))"

definition literal_end :: "byte list \<Rightarrow> (byte list \<times> byte list) option" where
  "literal_end s =
     (case find (\<lambda>w. starts_with w s) [bytes_of ''true'', bytes_of ''false'', bytes_of ''null''] of
        Some w \<Rightarrow> Some (w, drop (length w) s)
      | None \<Rightarrow> number_end s)"

definition maxNestingDepth :: nat where "maxNestingDepth = 10000"

text \<open>The text consumed between a position and a later one.\<close>

definition consumed :: "byte list \<Rightarrow> byte list \<Rightarrow> byte list" where
  "consumed s rest = take (length s - length rest) s"

text \<open>
  One value, the elements of an array and the members of an object. The first argument bounds
  the recursion; a value takes at least one byte, so the length of the input is enough. The
  second is the nesting depth reached.
\<close>

fun parse_value :: "nat \<Rightarrow> nat \<Rightarrow> byte list \<Rightarrow> (json \<times> byte list) option"
and parse_elements :: "nat \<Rightarrow> nat \<Rightarrow> byte list \<Rightarrow> (json list \<times> byte list) option"
and parse_members :: "nat \<Rightarrow> nat \<Rightarrow> byte list \<Rightarrow> ((byte list \<times> json) list \<times> byte list) option" where
  "parse_value 0 d s = None"
| "parse_value (Suc n) d s =
     (case skip_ws s of
        [] \<Rightarrow> None
      | b # r \<Rightarrow>
          if b = 0x22 then map_option (apfst JText) (string_end r)
          else if b = 0x7B then
            (if maxNestingDepth \<le> d then None
             else case skip_ws r of
               [] \<Rightarrow> None
             | c # r' \<Rightarrow>
                 if c = 0x7D then Some (JObject (consumed (b # r) r') [], r')
                 else map_option (\<lambda>(ms, rest). (JObject (consumed (b # r) rest) ms, rest)) (parse_members n (Suc d) r))
          else if b = 0x5B then
            (if maxNestingDepth \<le> d then None
             else case skip_ws r of
               [] \<Rightarrow> None
             | c # r' \<Rightarrow>
                 if c = 0x5D then Some (JArray (consumed (b # r) r') [], r')
                 else map_option (\<lambda>(vs, rest). (JArray (consumed (b # r) rest) vs, rest)) (parse_elements n (Suc d) r))
          else map_option (apfst JLiteral) (literal_end (b # r)))"
| "parse_elements 0 d s = None"
| "parse_elements (Suc n) d s =
     (case parse_value n d s of
        None \<Rightarrow> None
      | Some (v, rest) \<Rightarrow>
          (case skip_ws rest of
             [] \<Rightarrow> None
           | b # r \<Rightarrow>
               if b = 0x5D then Some ([v], r)
               else if b = 0x2C then map_option (apfst (Cons v)) (parse_elements n d r)
               else None))"
| "parse_members 0 d s = None"
| "parse_members (Suc n) d s =
     (case skip_ws s of
        [] \<Rightarrow> None
      | q # s1 \<Rightarrow>
          if q \<noteq> 0x22 then None
          else case string_end s1 of
            None \<Rightarrow> None
          | Some (key, s2) \<Rightarrow>
              (case skip_ws s2 of
                 [] \<Rightarrow> None
               | col # s3 \<Rightarrow>
                   if col \<noteq> 0x3A then None
                   else case parse_value n d s3 of
                     None \<Rightarrow> None
                   | Some (v, rest) \<Rightarrow>
                       (case skip_ws rest of
                          [] \<Rightarrow> None
                        | b # r \<Rightarrow>
                            if b = 0x7D then Some ([(key, v)], r)
                            else if b = 0x2C then map_option (apfst (Cons (key, v))) (parse_members n d r)
                            else None)))"

definition parse_json :: "byte list \<Rightarrow> json option" where
  "parse_json data =
     (case parse_value (Suc (2 * length data)) 0 data of
        Some (v, rest) \<Rightarrow> if skip_ws rest = [] then Some v else None
      | None \<Rightarrow> None)"

section \<open>Decoding into a structure\<close>

text \<open>
  Setting a field succeeds, or fails in one of two ways: a value of the wrong type is noted
  and decoding goes on, an error of the field's own decoder ends it. In both cases
  \<^verbatim>\<open>Unmarshal\<close> returns an error in the end.
\<close>

datatype 'a stored = Stored 'a | Mistyped 'a | Aborted 'a

type_synonym 'a field = "string \<times> (json \<Rightarrow> 'a \<Rightarrow> 'a stored)"

text \<open>
  Names that differ only in case match. Of the characters beyond ASCII only the long s and the
  Kelvin sign fold to an ASCII letter; the others never fold into a name that is ASCII, so
  they can be left as they are.
\<close>

definition foldRune :: "rune \<Rightarrow> rune" where
  "foldRune r =
     (if 97 \<le> r \<and> r \<le> 122 then r - 32 else if r = 0x17F then 83 else if r = 0x212A then 75 else r)"

definition foldName :: "byte list \<Rightarrow> byte list" where
  "foldName s = concat (map (\<lambda>(r, n). EncodeRune (foldRune r)) (decode_all s))"

definition find_field :: "'a field list \<Rightarrow> byte list \<Rightarrow> (json \<Rightarrow> 'a \<Rightarrow> 'a stored) option" where
  "find_field flds key =
     (case find (\<lambda>(name, store). bytes_of name = key) flds of
        Some (name, store) \<Rightarrow> Some store
      | None \<Rightarrow> map_option snd (find (\<lambda>(name, store). foldName (bytes_of name) = foldName key) flds))"

fun decode_members :: "'a field list \<Rightarrow> (byte list \<times> json) list \<Rightarrow> bool \<Rightarrow> 'a \<Rightarrow> bool \<times> 'a" where
  "decode_members flds [] failed a = (failed, a)"
| "decode_members flds ((key, v) # ms) failed a =
     (case unquote_loop key of
        None \<Rightarrow> (True, a)
      | Some name \<Rightarrow>
          (case find_field flds name of
             None \<Rightarrow> decode_members flds ms failed a
           | Some store \<Rightarrow>
               (case store v a of
                  Stored a' \<Rightarrow> decode_members flds ms failed a'
                | Mistyped a' \<Rightarrow> decode_members flds ms True a'
                | Aborted a' \<Rightarrow> (True, a'))))"

text \<open>Whether there was an error, and the structure as it was left.\<close>

definition Unmarshal :: "'a field list \<Rightarrow> byte list \<Rightarrow> 'a \<Rightarrow> bool \<times> 'a" where
  "Unmarshal flds data a =
     (case parse_json data of
        Some (JObject raw ms) \<Rightarrow> decode_members flds ms False a
      | Some (JLiteral lit) \<Rightarrow> (lit \<noteq> json_null, a)
      | _ \<Rightarrow> (True, a))"

definition string_field :: "string \<Rightarrow> (string \<Rightarrow> 'a \<Rightarrow> 'a) \<Rightarrow> 'a field" where
  "string_field name store =
     (name, \<lambda>v a. case v of
        JText lit \<Rightarrow> (case unquote_loop lit of Some s \<Rightarrow> Stored (store (string_of s) a) | None \<Rightarrow> Aborted a)
      | JLiteral lit \<Rightarrow> if lit = json_null then Stored a else Mistyped a
      | _ \<Rightarrow> Mistyped a)"

definition custom_field :: "string \<Rightarrow> (byte list \<Rightarrow> 'a \<Rightarrow> bool \<times> 'a) \<Rightarrow> 'a field" where
  "custom_field name unmarshal =
     (name, \<lambda>v a. case unmarshal (json_raw v) a of (failed, a') \<Rightarrow> if failed then Aborted a' else Stored a')"

section \<open>Times\<close>

text \<open>
  \<^verbatim>\<open>time.Parse(time.RFC3339, s)\<close>, which \<^verbatim>\<open>UnmarshalJSON\<close> falls back to: the hour may have one
  digit, the fraction may start with a comma, the zone offset may reach 24 hours and 60 minutes.
\<close>

definition getnum :: "bool \<Rightarrow> string \<Rightarrow> (nat \<times> string) option" where
  "getnum fixed s =
     (case s of
        [] \<Rightarrow> None
      | c # r \<Rightarrow>
          if \<not> is_digit c then None
          else (case r of
            d # r' \<Rightarrow> if is_digit d then Some (digits_value 0 [c, d], r') else if fixed then None else Some (digits_value 0 [c], r)
          | [] \<Rightarrow> if fixed then None else Some (digits_value 0 [c], r)))"

definition expect :: "char \<Rightarrow> string \<Rightarrow> string option" where
  "expect c s = (case s of [] \<Rightarrow> None | d # r \<Rightarrow> if c = d then Some r else None)"

definition field_num :: "bool \<Rightarrow> nat \<Rightarrow> nat \<Rightarrow> string \<Rightarrow> (nat \<times> string) option" where
  "field_num fixed lo hi s =
     (case getnum fixed s of
        None \<Rightarrow> None
      | Some (x, r) \<Rightarrow> if lo \<le> x \<and> x \<le> hi then Some (x, r) else None)"

definition lenient_fraction :: "string \<Rightarrow> nat \<times> string" where
  "lenient_fraction s =
     (case s of
        c # rest \<Rightarrow>
          (let ds = takeWhile is_digit rest in
           if (c = CHR ''.'' \<or> c = CHR '','') \<and> ds \<noteq> []
           then (digits_value 0 (take 9 ds) * 10 ^ (9 - length (take 9 ds)), dropWhile is_digit rest)
           else (0, s))
      | [] \<Rightarrow> (0, s))"

definition lenient_zone :: "string \<Rightarrow> (int \<times> string) option" where
  "lenient_zone s =
     (case s of
        [] \<Rightarrow> None
      | c # r \<Rightarrow>
          if c = CHR ''Z'' then Some (0, r)
          else if length s < 6 \<or> s ! 3 \<noteq> CHR '':'' then None
          else case (field_num True 0 24 (slice s 1 3), field_num True 0 60 (slice s 4 6)) of
            (Some (hr, u), Some (mm, v)) \<Rightarrow>
              if c = CHR ''+'' then Some (int ((hr * 60 + mm) * 60), drop 6 s)
              else if c = CHR ''-'' then Some (- int ((hr * 60 + mm) * 60), drop 6 s)
              else None
          | _ \<Rightarrow> None)"

definition Parse_RFC3339 :: "string \<Rightarrow> instant option" where
  "Parse_RFC3339 s =
     (if length s < 4 then None
      else do {
        y \<leftarrow> parse_uint (take 4 s) 0 9999;
        s1 \<leftarrow> expect CHR ''-'' (drop 4 s);
        (m, s2) \<leftarrow> field_num True 1 12 s1;
        s3 \<leftarrow> expect CHR ''-'' s2;
        (d, s4) \<leftarrow> field_num True 0 99 s3;
        s5 \<leftarrow> expect CHR ''T'' s4;
        (h, s6) \<leftarrow> field_num False 0 23 s5;
        s7 \<leftarrow> expect CHR '':'' s6;
        (mi, s8) \<leftarrow> field_num True 0 59 s7;
        s9 \<leftarrow> expect CHR '':'' s8;
        (sec, s10) \<leftarrow> field_num True 0 59 s9;
        let (ns, s11) = lenient_fraction s10;
        (zone, s12) \<leftarrow> lenient_zone s11;
        if s12 \<noteq> [] \<or> d < 1 \<or> int d > daysIn (is_leap (int y)) m then None
        else Some ((day_number (int y) m (int d) * 86400 + int (h * 3600 + mi * 60 + sec) - zone) * second_ns + int ns)
      })"

definition time_UnmarshalJSON :: "byte list \<Rightarrow> instant \<Rightarrow> bool \<times> instant" where
  "time_UnmarshalJSON data t =
     (if data = json_null then (False, t)
      else if length data < 2 \<or> hd data \<noteq> 0x22 \<or> last data \<noteq> 0x22 then (True, t)
      else let s = string_of (butlast (tl data)) in
        case parseRFC3339 s of
          Some t' \<Rightarrow> (False, t')
        | None \<Rightarrow> (case Parse_RFC3339 s of Some t' \<Rightarrow> (False, t') | None \<Rightarrow> (True, 0)))"

section \<open>Encoding\<close>

definition quote_bytes :: "byte list \<Rightarrow> byte list" where
  "quote_bytes s = 0x22 # s @ [0x22]"

definition html_safe :: "byte \<Rightarrow> bool" where
  "html_safe b \<longleftrightarrow> 0x20 \<le> b \<and> b \<noteq> 0x22 \<and> b \<noteq> 0x5C \<and> b \<noteq> 0x3C \<and> b \<noteq> 0x3E \<and> b \<noteq> 0x26"

definition hex_byte :: "nat \<Rightarrow> byte" where
  "hex_byte n = (if n < 10 then word_of_nat (48 + n) else word_of_nat (87 + n))"

definition escape_ascii :: "byte \<Rightarrow> byte list" where
  "escape_ascii b =
     (if html_safe b then [b]
      else if b = 0x5C \<or> b = 0x22 then [0x5C, b]
      else if b = 0x08 then [0x5C, 0x62]
      else if b = 0x0C then [0x5C, 0x66]
      else if b = 0x0A then [0x5C, 0x6E]
      else if b = 0x0D then [0x5C, 0x72]
      else if b = 0x09 then [0x5C, 0x74]
      else [0x5C, 0x75, 0x30, 0x30, hex_byte (unat b div 16), hex_byte (unat b mod 16)])"

definition encode_step :: "byte list \<Rightarrow> byte list \<times> nat" where
  "encode_step s =
     (let b = hd s in
      if b < 0x80 then (escape_ascii b, 1)
      else let (r, size) = DecodeRune s in
        if r = RuneError \<and> size = 1 then ([0x5C, 0x75, 0x66, 0x66, 0x66, 0x64], 1)
        else if r = 0x2028 \<or> r = 0x2029 then ([0x5C, 0x75, 0x32, 0x30, 0x32, hex_byte (r mod 16)], size)
        else (take size s, size))"

function encode_loop :: "byte list \<Rightarrow> byte list" where
  "encode_loop s =
     (if s = [] then [] else case encode_step s of (out, n) \<Rightarrow> out @ encode_loop (drop (max 1 n) s))"
  by pat_completeness auto
termination
  by (relation "measure length") (auto simp: max_def)

declare encode_loop.simps [simp del]

definition encode_string :: "string \<Rightarrow> byte list" where
  "encode_string s = quote_bytes (encode_loop (bytes_of s))"

text \<open>\<^verbatim>\<open>Time.MarshalJSON\<close>; years beyond four digits are an error.\<close>

definition time_MarshalJSON :: "instant \<Rightarrow> byte list option" where
  "time_MarshalJSON t =
     (if time_year t < 0 \<or> 9999 < time_year t then None
      else Some (quote_bytes (bytes_of (Format_RFC3339Nano t))))"

definition encode_int :: "int \<Rightarrow> byte list" where
  "encode_int i = bytes_of (decimal_int i)"

fun join_members :: "byte list list \<Rightarrow> byte list" where
  "join_members [] = []"
| "join_members [m] = m"
| "join_members (m # ms) = m @ 0x2C # join_members ms"

definition encode_member :: "string \<times> byte list \<Rightarrow> byte list" where
  "encode_member = (\<lambda>(name, v). encode_string name @ 0x3A # v)"

definition encode_object :: "(string \<times> byte list) list \<Rightarrow> byte list" where
  "encode_object ms = 0x7B # join_members (map encode_member ms) @ [0x7D]"

section \<open>Lemmas on parsing\<close>

lemma string_end_scan: "scan_string c \<Longrightarrow> string_end (c @ 0x22 # r) = Some (c, r)"
proof (induction c rule: scan_string.induct)
  case (2 b s)
  show ?case
  proof (cases "b = 0x5C")
    case False
    then show ?thesis using 2 by (auto simp: scan_string.simps(2) split: if_splits)
  next
    case True
    then obtain e s' where s: "s = e # s'" using 2 by (cases s) (auto simp: scan_string.simps(2))
    show ?thesis
    proof (cases "simple_escape e = None")
      case False
      then show ?thesis using 2 True s by (auto simp: scan_string.simps(2) split: if_splits)
    next
      case none: True
      then have u: "e = 0x75" using 2(4) True s by (auto simp: scan_string.simps(2) split: if_splits)
      obtain h1 h2 h3 h4 s'' where s': "s' = h1 # h2 # h3 # h4 # s''"
        using 2(4) True s none by (auto simp: scan_string.simps(2) split: if_splits list.splits)
      show ?thesis using 2 True s none u s' by (auto simp: scan_string.simps(2) split: if_splits)
    qed
  qed
qed simp

lemma length_skip_ws: "length (skip_ws s) \<le> length s"
  by (simp add: skip_ws_def length_dropWhile_le)

lemma string_end_length: "string_end s = Some (c, r) \<Longrightarrow> length r < length s"
  by (induction s arbitrary: c r rule: string_end.induct)
    (fastforce split: if_splits list.splits)+

lemma digits_split_length: "digits_split s = Some (ds, r) \<Longrightarrow> length r < length s"
proof -
  assume "digits_split s = Some (ds, r)"
  then have "takeWhile digit_byte s \<noteq> []" "r = dropWhile digit_byte s"
    by (auto simp: digits_split_def Let_def split: if_splits)
  then show ?thesis
    using takeWhile_dropWhile_id [of digit_byte s] by (metis length_append less_add_same_cancel2 length_greater_0_conv)
qed

lemma literal_end_length: "literal_end s = Some (w, r) \<Longrightarrow> s \<noteq> [] \<Longrightarrow> length r < length s"
proof -
  assume l: "literal_end s = Some (w, r)" and ne: "s \<noteq> []"
  show ?thesis
  proof (cases "find (\<lambda>w. starts_with w s) [bytes_of ''true'', bytes_of ''false'', bytes_of ''null'']")
    case None
    then have "number_end s = Some (w, r)" using l by (simp add: literal_end_def)
    then obtain sg s1 i s2 f s3 e where p: "integer_part s1 = Some (i, s2)" "fraction_part s2 = Some (f, s3)"
      "exponent_part s3 = Some (e, r)" "length s1 \<le> length s"
      by (auto simp: number_end_def split: prod.splits option.splits if_splits)
    have "length s2 < length s1"
      using p(1) by (auto simp: integer_part_def split: list.splits if_splits dest: digits_split_length)
    moreover have "length s3 \<le> length s2"
      using p(2) by (auto simp: fraction_part_def split: list.splits if_splits dest: digits_split_length)
    moreover have "length r \<le> length s3"
      using p(3) by (auto simp: exponent_part_def split: list.splits if_splits dest: digits_split_length)
    ultimately show ?thesis using p(4) by simp
  next
    case (Some w')
    then have "w' \<in> {bytes_of ''true'', bytes_of ''false'', bytes_of ''null''}"
      by (simp split: if_splits)
    then have "w' \<noteq> []" by (auto simp: bytes_of_def)
    moreover have "r = drop (length w') s" using l unfolding literal_end_def Some by auto
    ultimately show ?thesis using ne by simp
  qed
qed

text \<open>Every value takes something from the input.\<close>

lemma skip_ws_Cons: "skip_ws s = b # r \<Longrightarrow> length r < length s"
  using length_skip_ws [of s] by simp

lemma parse_value_cases:
  assumes "parse_value (Suc n) d s = Some (v, rest)"
  obtains b r where "skip_ws s = b # r"
    "(\<exists>c. string_end r = Some (c, rest)) \<or> (\<exists>c. skip_ws r = c # rest)
     \<or> (\<exists>ms. parse_members n (Suc d) r = Some (ms, rest)) \<or> (\<exists>vs. parse_elements n (Suc d) r = Some (vs, rest))
     \<or> (\<exists>w. literal_end (b # r) = Some (w, rest))"
proof -
  obtain b r where s: "skip_ws s = b # r" using assms by (cases "skip_ws s") auto
  moreover have "(\<exists>c. string_end r = Some (c, rest)) \<or> (\<exists>c. skip_ws r = c # rest)
     \<or> (\<exists>ms. parse_members n (Suc d) r = Some (ms, rest)) \<or> (\<exists>vs. parse_elements n (Suc d) r = Some (vs, rest))
     \<or> (\<exists>w. literal_end (b # r) = Some (w, rest))"
    using assms s by (auto split: if_splits list.splits)
  ultimately show thesis by (rule that)
qed

lemma parse_members_cases:
  assumes "parse_members (Suc n) d s = Some (ms, rest)"
  obtains q s1 key s2 col s3 v rest' b r where "skip_ws s = q # s1" "string_end s1 = Some (key, s2)"
    "skip_ws s2 = col # s3" "parse_value n d s3 = Some (v, rest')" "skip_ws rest' = b # r"
    "r = rest \<or> (\<exists>ms'. parse_members n d r = Some (ms', rest))"
  using assms by (auto split: if_splits list.splits option.splits)

lemma parse_length:
  "parse_value n d s = Some (v, rest) \<Longrightarrow> length rest < length s"
  "parse_elements n d s = Some (vs, rest) \<Longrightarrow> length rest < length s"
  "parse_members n d s = Some (ms, rest) \<Longrightarrow> length rest < length s"
proof (induction n arbitrary: d s v rest vs ms)
  case 0
  { case 1 then show ?case by simp }
  { case 2 then show ?case by simp }
  { case 3 then show ?case by simp }
next
  case (Suc n)
  { case 1
    then show ?case
    proof (cases rule: parse_value_cases)
      case (1 b r)
      then show ?thesis
        using skip_ws_Cons [OF 1(1)] length_skip_ws [of s]
        by (auto dest!: string_end_length skip_ws_Cons Suc.IH literal_end_length)
    qed }
  { case 2
    then obtain v' rest' b r where v: "parse_value n d s = Some (v', rest')" "skip_ws rest' = b # r"
      "r = rest \<or> (\<exists>vs'. parse_elements n d r = Some (vs', rest))"
      by (auto split: option.splits list.splits if_splits)
    then show ?case using Suc.IH(1) [OF v(1)] skip_ws_Cons [OF v(2)] by (auto dest!: Suc.IH(2)) }
  { case 3
    then show ?case
    proof (cases rule: parse_members_cases)
      case (1 q s1 key s2 col s3 v rest' b r)
      then show ?thesis
        using skip_ws_Cons [OF 1(1)] string_end_length [OF 1(2)] skip_ws_Cons [OF 1(3)] Suc.IH(1) [OF 1(4)]
          skip_ws_Cons [OF 1(5)]
        by (auto dest!: Suc.IH(3))
    qed }
qed

text \<open>More recursion than the bound does not change the result.\<close>

lemma parse_fuel:
  "2 * length s + 1 \<le> n \<Longrightarrow> 2 * length s + 1 \<le> m \<Longrightarrow> parse_value n d s = parse_value m d s"
  "2 * length s + 2 \<le> n \<Longrightarrow> 2 * length s + 2 \<le> m \<Longrightarrow> parse_elements n d s = parse_elements m d s"
  "2 * length s + 1 \<le> n \<Longrightarrow> 2 * length s + 1 \<le> m \<Longrightarrow> parse_members n d s = parse_members m d s"
proof (induction n arbitrary: d s m)
  case 0
  { case 1 then show ?case by simp }
  { case 2 then show ?case by simp }
  { case 3 then show ?case by simp }
next
  case (Suc n)
  { case 1
    then obtain m' where m: "m = Suc m'" by (cases m) auto
    show ?case
    proof (cases "skip_ws s")
      case (Cons b r)
      then have "parse_members n (Suc d) r = parse_members m' (Suc d) r"
        "parse_elements n (Suc d) r = parse_elements m' (Suc d) r"
        using skip_ws_Cons [OF Cons] 1 m Suc.IH(2,3) [of r m'] by auto
      then show ?thesis by (simp only: m parse_value.simps Cons list.case)
    qed (simp add: m) }
  { case 2
    then obtain m' where m: "m = Suc m'" by (cases m) auto
    have v: "parse_value n d s = parse_value m' d s" using 2 m Suc.IH(1) [of s m'] by auto
    show ?case
    proof (cases "parse_value m' d s")
      case (Some x)
      obtain w rest where x: "x = (w, rest)" by force
      show ?thesis
      proof (cases "skip_ws rest")
        case (Cons b r)
        then have "parse_elements n d r = parse_elements m' d r"
          using parse_length(1) [OF Some [unfolded x]] skip_ws_Cons [OF Cons] 2 m Suc.IH(2) [of r m'] by auto
        then show ?thesis by (simp only: m parse_elements.simps v Some x Cons list.case option.case prod.case)
      qed (simp add: m v Some x)
    qed (simp add: m v) }
  { case 3
    then obtain m' where m: "m = Suc m'" by (cases m) auto
    show ?case
    proof (cases "\<exists>q s1 key s2 col s3. skip_ws s = q # s1 \<and> string_end s1 = Some (key, s2) \<and> skip_ws s2 = col # s3")
      case True
      then obtain q s1 key s2 col s3 where st: "skip_ws s = q # s1" "string_end s1 = Some (key, s2)" "skip_ws s2 = col # s3"
        by blast
      note len = skip_ws_Cons [OF st(1)] string_end_length [OF st(2)] skip_ws_Cons [OF st(3)]
      have v: "parse_value n d s3 = parse_value m' d s3" using len 3 m Suc.IH(1) [of s3 m'] by auto
      show ?thesis
      proof (cases "parse_value m' d s3")
        case (Some x)
        obtain w rest where x: "x = (w, rest)" by force
        show ?thesis
        proof (cases "skip_ws rest")
          case (Cons b r)
          then have "parse_members n d r = parse_members m' d r"
            using len parse_length(1) [OF Some [unfolded x]] skip_ws_Cons [OF Cons] 3 m Suc.IH(3) [of r m'] by auto
          then show ?thesis
            by (simp only: m parse_members.simps st v Some x Cons list.case option.case prod.case)
        qed (simp add: m st v Some x)
      qed (simp add: m st v)
    next
      case False
      then show ?thesis unfolding m by (auto split: list.splits option.splits)
    qed }
qed

section \<open>Lemmas on encoding\<close>

lemma hex_byte_value: "n < 16 \<Longrightarrow> hex_value (hex_byte n) = Some n"
proof -
  have "\<forall>n < 16. hex_value (hex_byte n) = Some n" by code_simp
  then show "n < 16 \<Longrightarrow> hex_value (hex_byte n) = Some n" by blast
qed

lemma unicode_escape_4:
  assumes "hex_value h1 = Some a1" "hex_value h2 = Some a2" "hex_value h3 = Some a3" "hex_value h4 = Some a4"
    and "\<not> utf16_IsSurrogate (((a1 * 16 + a2) * 16 + a3) * 16 + a4)"
  shows "unquote_step (0x5C # 0x75 # h1 # h2 # h3 # h4 # xs) =
           Some (EncodeRune (((a1 * 16 + a2) * 16 + a3) * 16 + a4), 6)"
    and "scan_string (0x5C # 0x75 # h1 # h2 # h3 # h4 # xs) = scan_string xs"
proof -
  have "decodeUnicodeEscape (h1 # h2 # h3 # h4 # xs) = Inr (((a1 * 16 + a2) * 16 + a3) * 16 + a4, 4)"
    using assms by (simp add: decodeUnicodeEscape_def hex4_def)
  from unquote_unicode [OF this]
  show "unquote_step (0x5C # 0x75 # h1 # h2 # h3 # h4 # xs) =
      Some (EncodeRune (((a1 * 16 + a2) * 16 + a3) * 16 + a4), 6)" by simp
  show "scan_string (0x5C # 0x75 # h1 # h2 # h3 # h4 # xs) = scan_string xs"
    using assms by (simp add: scan_string.simps(2) [of "0x5C"] simple_escape_def)
qed

lemma simple_escapes:
  "simple_escape 0x5C = Some 0x5C" "simple_escape 0x22 = Some 0x22" "simple_escape 0x62 = Some 0x08"
  "simple_escape 0x66 = Some 0x0C" "simple_escape 0x6E = Some 0x0A" "simple_escape 0x72 = Some 0x0D"
  "simple_escape 0x74 = Some 0x09"
  by (simp_all add: simple_escape_def)

lemma escape_step:
  assumes "simple_escape e = Some x"
  shows "unquote_step (0x5C # e # xs) = Some ([x], 2)" and "scan_string (0x5C # e # xs) = scan_string xs"
proof -
  have "e \<noteq> 0x27" using assms by (auto simp: simple_escape_def split: if_splits)
  then show "unquote_step (0x5C # e # xs) = Some ([x], 2)" using assms by simp
  show "scan_string (0x5C # e # xs) = scan_string xs"
    using assms by (simp add: scan_string.simps(2) [of "0x5C"])
qed

lemma escape_ascii_step:
  assumes "b < 0x80"
  shows "unquote_step (escape_ascii b @ xs) = Some ([b], length (escape_ascii b))"
    and "scan_string (escape_ascii b @ xs) = scan_string xs"
proof -
  have z: "hex_value 0x30 = Some 0" by code_simp
  have ub: "unat b < 128" using assms by (simp add: word_less_nat_alt)
  have sum: "unat b div 16 * 16 + unat b mod 16 = unat b" by simp
  have u: "unquote_step (0x5C # 0x75 # 0x30 # 0x30 # hex_byte (unat b div 16) # hex_byte (unat b mod 16) # xs) = Some ([b], 6)"
    "scan_string (0x5C # 0x75 # 0x30 # 0x30 # hex_byte (unat b div 16) # hex_byte (unat b mod 16) # xs) = scan_string xs"
    using unicode_escape_4 [OF z z hex_byte_value [of "unat b div 16"] hex_byte_value [of "unat b mod 16"], of xs]
      ub EncodeRune_ascii [OF assms]
    by (simp_all add: sum utf16_IsSurrogate_def)
  consider (safe) "html_safe b" | (self) "b = 0x5C \<or> b = 0x22" | (ctl) "b \<in> {0x08, 0x0C, 0x0A, 0x0D, 0x09}"
    | (other) "\<not> html_safe b" "b \<notin> {0x5C, 0x22, 0x08, 0x0C, 0x0A, 0x0D, 0x09}"
    by blast
  note split = this
  show "unquote_step (escape_ascii b @ xs) = Some ([b], length (escape_ascii b))"
    using split
  proof cases
    case safe
    then have "\<not> b < 0x20" "b \<noteq> 0x5C" "b \<noteq> 0x22" by (auto simp: html_safe_def not_less)
    then show ?thesis using safe assms by (simp add: escape_ascii_def)
  next
    case other
    then show ?thesis using u by (simp add: escape_ascii_def)
  qed (auto simp: escape_ascii_def html_safe_def escape_step simple_escapes simp del: unquote_step.simps)
  show "scan_string (escape_ascii b @ xs) = scan_string xs"
    using split
  proof cases
    case safe
    then have "\<not> b < 0x20" "b \<noteq> 0x5C" "b \<noteq> 0x22" by (auto simp: html_safe_def not_less)
    then show ?thesis using safe by (simp add: escape_ascii_def scan_string.simps(2) [of b])
  next
    case other
    then show ?thesis using u by (simp add: escape_ascii_def)
  qed (auto simp: escape_ascii_def html_safe_def escape_step simple_escapes)
qed

definition encode_rune :: "rune \<Rightarrow> byte list" where
  "encode_rune r =
     (if r < 0x80 then escape_ascii (word_of_nat r)
      else if r = 0x2028 \<or> r = 0x2029 then [0x5C, 0x75, 0x32, 0x30, 0x32, hex_byte (r mod 16)]
      else EncodeRune r)"

lemma escape_ascii_not_Nil [simp]: "escape_ascii b \<noteq> []"
  by (simp add: escape_ascii_def)

lemma encode_loop_Nil [simp]: "encode_loop [] = []"
  by (simp add: encode_loop.simps)

lemma multi_first:
  assumes "valid_rune r" "\<not> r < 0x80"
  obtains b bs where "EncodeRune r = b # bs" "\<not> b < 0x80" "b \<noteq> 0x5C" "b \<noteq> 0x22" "\<not> b < 0x20"
proof -
  obtain b bs where e: "EncodeRune r = b # bs" by (cases "EncodeRune r") auto
  have "\<not> b < 0x80" using EncodeRune_multi_byte [OF assms] e by simp
  moreover from this have "b \<noteq> 0x5C" "b \<noteq> 0x22" "\<not> b < 0x20" by (auto simp: word_less_nat_alt)
  ultimately show thesis using e that by blast
qed

lemma ascii_rune:
  assumes "r < 0x80"
  shows "EncodeRune r = [word_of_nat r]" and "(word_of_nat r :: byte) < 0x80"
proof -
  have r: "unat (word_of_nat r :: byte) = r" using assms by (simp add: unat_word_of_nat_byte)
  then show b: "(word_of_nat r :: byte) < 0x80" using assms by (simp add: word_less_nat_alt)
  show "EncodeRune r = [word_of_nat r]" using EncodeRune_ascii [OF b] r by simp
qed

lemma encode_loop_rune:
  assumes "valid_rune r"
  shows "encode_loop (EncodeRune r @ xs) = encode_rune r @ encode_loop xs"
proof (cases "r < 0x80")
  case True
  then show ?thesis
    by (subst encode_loop.simps) (simp add: ascii_rune [OF True] encode_step_def encode_rune_def)
next
  case False
  obtain b bs where e: "EncodeRune r = b # bs" "\<not> b < 0x80" by (rule multi_first [OF assms False])
  have d: "DecodeRune (b # bs @ xs) = (r, Suc (length bs))"
    using DecodeRune_EncodeRune [OF assms, of xs] e by simp
  have "\<not> (r = RuneError \<and> length bs = 0)"
    using e EncodeRune_RuneError_length by (metis One_nat_def length_Cons numeral_eq_one_iff semiring_norm(86))
  then show ?thesis
    using e d False
    by (subst encode_loop.simps) (auto simp: encode_step_def encode_rune_def Let_def)
qed

lemma scan_multi: "\<forall>x \<in> set bs. \<not> x < 0x80 \<Longrightarrow> scan_string (bs @ xs) = scan_string xs"
proof (induction bs)
  case (Cons b bs)
  then have "b \<noteq> 0x5C" "b \<noteq> 0x22" "\<not> b < 0x20" by (auto simp: word_less_nat_alt)
  with Cons show ?case by (simp add: scan_string.simps(2) [of b])
qed simp

lemma unquote_encode_rune:
  assumes "valid_rune r"
  shows "unquote_step (encode_rune r @ xs) = Some (EncodeRune r, length (encode_rune r))"
    and "scan_string (encode_rune r @ xs) = scan_string xs"
proof -
  have h: "hex_value 0x32 = Some 2" "hex_value 0x30 = Some 0" by code_simp+
  consider (ascii) "r < 0x80" | (line) "\<not> r < 0x80" "r = 0x2028 \<or> r = 0x2029"
    | (multi) "\<not> r < 0x80" "r \<noteq> 0x2028" "r \<noteq> 0x2029"
    by blast
  then have "unquote_step (encode_rune r @ xs) = Some (EncodeRune r, length (encode_rune r))
      \<and> scan_string (encode_rune r @ xs) = scan_string xs"
  proof cases
    case ascii
    then show ?thesis
      using escape_ascii_step [OF ascii_rune(2) [OF ascii], of xs] ascii_rune(1) [OF ascii]
      by (simp add: encode_rune_def)
  next
    case line
    then have v: "hex_value (hex_byte (r mod 16)) = Some (r mod 16)" by (intro hex_byte_value) simp
    have r: "((2 * 16 + 0) * 16 + 2) * 16 + r mod 16 = r" "\<not> utf16_IsSurrogate r"
      using line(2) by (auto simp: utf16_IsSurrogate_def)
    show ?thesis
      using unicode_escape_4 [OF h(1) h(2) h(1) v, of xs] line
      unfolding r(1) by (simp add: encode_rune_def r(2))
  next
    case multi
    obtain b bs where e: "EncodeRune r = b # bs" "\<not> b < 0x80" "b \<noteq> 0x5C" "b \<noteq> 0x22" "\<not> b < 0x20"
      by (rule multi_first [OF assms multi(1)])
    have "DecodeRune (b # bs @ xs) = (r, Suc (length bs))"
      using DecodeRune_EncodeRune [OF assms, of xs] e by simp
    then show ?thesis
      using e multi scan_multi [OF EncodeRune_multi_byte [OF assms multi(1)], of xs] by (simp add: encode_rune_def)
  qed
  then show "unquote_step (encode_rune r @ xs) = Some (EncodeRune r, length (encode_rune r))"
    "scan_string (encode_rune r @ xs) = scan_string xs" by simp_all
qed

lemma encode_rune_not_Nil [simp]: "encode_rune r \<noteq> []"
  by (simp add: encode_rune_def)

lemma unquote_loop_step:
  "p \<noteq> [] \<Longrightarrow> unquote_step (p @ xs) = Some (out, length p) \<Longrightarrow>
   unquote_loop (p @ xs) = map_option (append out) (unquote_loop xs)"
  by (subst unquote_loop.simps) simp

text \<open>Well-formed text survives encoding and decoding.\<close>

lemma encode_roundtrip:
  assumes "valid_utf8 s"
  shows "scan_string (encode_loop s)" and "unquote_loop (encode_loop s) = Some s"
proof -
  have "scan_string (encode_loop s) \<and> unquote_loop (encode_loop s) = Some s"
    using assms
  proof (induction s rule: valid_utf8_induct)
    case (Rune r xs)
    then show ?case
      using unquote_encode_rune [OF Rune(1), of "encode_loop xs"]
        unquote_loop_step [of "encode_rune r" "encode_loop xs" "EncodeRune r"]
      by (simp add: encode_loop_rune)
  qed simp
  then show "scan_string (encode_loop s)" "unquote_loop (encode_loop s) = Some s" by simp_all
qed

section \<open>Decoding what was encoded\<close>

lemma skip_ws_Cons_id [simp]: "\<not> is_ws b \<Longrightarrow> skip_ws (b # s) = b # s"
  by (simp add: skip_ws_def)

lemma not_ws [simp]: "\<not> is_ws 0x22" "\<not> is_ws 0x3A" "\<not> is_ws 0x2C" "\<not> is_ws 0x7D" "\<not> is_ws 0x7B"
  by (simp_all add: is_ws_def)

lemma parse_string_value: "scan_string c \<Longrightarrow> parse_value (Suc n) d (quote_bytes c @ rest) = Some (JText c, rest)"
  using string_end_scan [of c rest] by (simp add: quote_bytes_def)

definition text_member :: "string \<times> byte list \<Rightarrow> byte list" where
  "text_member = (\<lambda>(name, c). encode_member (name, quote_bytes c))"

definition parsed_member :: "string \<times> byte list \<Rightarrow> byte list \<times> json" where
  "parsed_member = (\<lambda>(name, c). (encode_loop (bytes_of name), JText c))"

definition good_member :: "string \<times> byte list \<Rightarrow> bool" where
  "good_member = (\<lambda>(name, c). valid_utf8 (bytes_of name) \<and> scan_string c)"

lemma text_member_parts:
  "text_member (name, c) @ rest
   = 0x22 # encode_loop (bytes_of name) @ 0x22 # 0x3A # quote_bytes c @ rest"
  by (simp add: text_member_def encode_member_def encode_string_def quote_bytes_def)

lemma parse_first_member:
  assumes "good_member (name, c)" and "0 < n"
  shows "parse_members (Suc n) d (text_member (name, c) @ b # r) =
     (case skip_ws (b # r) of
        [] \<Rightarrow> None
      | b # r \<Rightarrow> if b = 0x7D then Some ([parsed_member (name, c)], r)
                 else if b = 0x2C then map_option (apfst (Cons (parsed_member (name, c)))) (parse_members n d r)
                 else None)"
proof -
  obtain n' where n: "n = Suc n'" using assms(2) by (cases n) auto
  have "string_end (encode_loop (bytes_of name) @ 0x22 # 0x3A # quote_bytes c @ b # r)
      = Some (encode_loop (bytes_of name), 0x3A # quote_bytes c @ b # r)"
    using assms(1) by (intro string_end_scan encode_roundtrip) (simp add: good_member_def)
  moreover have "parse_value n d (quote_bytes c @ b # r) = Some (JText c, b # r)"
    using assms(1) unfolding n by (intro parse_string_value) (simp add: good_member_def)
  moreover have pm: "parsed_member (name, c) = (encode_loop (bytes_of name), JText c)"
    by (simp add: parsed_member_def)
  ultimately show ?thesis
    unfolding text_member_parts pm by (simp del: parse_value.simps)
qed

lemma join_members_Cons: "ms \<noteq> [] \<Longrightarrow> join_members (m # ms) = m @ 0x2C # join_members ms"
  by (cases ms) simp_all

lemma parse_members_encoded:
  assumes "ms \<noteq> []" and "list_all good_member ms" and "length ms < n"
  shows "parse_members n d (join_members (map text_member ms) @ 0x7D # rest) = Some (map parsed_member ms, rest)"
  using assms
proof (induction ms arbitrary: n rule: list_nonempty_induct)
  case (single m)
  obtain n' where n: "n = Suc n'" "0 < n'" using single(2) by (cases n) auto
  obtain name c where m: "m = (name, c)" by force
  show ?case using parse_first_member [of name c n' d "0x7D" rest] single m n
    by (simp del: parse_members.simps)
next
  case (cons m ms)
  obtain n' where n: "n = Suc n'" "length ms < n'" using cons(4) by (cases n) auto
  obtain name c where m: "m = (name, c)" by force
  let ?tail = "join_members (map text_member ms) @ 0x7D # rest"
  have "parse_members n' d ?tail = Some (map parsed_member ms, rest)"
    using cons n by simp
  moreover have "parse_members n d (text_member m @ 0x2C # ?tail)
      = map_option (apfst (Cons (parsed_member m))) (parse_members n' d ?tail)"
    using parse_first_member [of name c n' d "0x2C" ?tail] cons m n by (simp del: parse_members.simps)
  ultimately show ?case using cons(1) by (simp add: join_members_Cons del: parse_members.simps)
qed

lemma parse_encoded_object:
  assumes "ms \<noteq> []" and "list_all good_member ms"
  obtains raw where "parse_json (0x7B # join_members (map text_member ms) @ [0x7D]) = Some (JObject raw (map parsed_member ms))"
proof -
  let ?body = "join_members (map text_member ms) @ [0x7D]"
  let ?n = "2 * length (0x7B # ?body)" and ?m = "max (2 * length ?body + 1) (Suc (length ms))"
  have "parse_members ?n (Suc 0) ?body = parse_members ?m (Suc 0) ?body"
    by (rule parse_fuel(3)) auto
  also have "\<dots> = Some (map parsed_member ms, [])"
    by (rule parse_members_encoded [OF assms]) simp
  finally have body: "parse_members ?n (Suc 0) ?body = Some (map parsed_member ms, [])" .
  obtain m ms' where ms: "ms = m # ms'" using assms(1) by (cases ms) auto
  obtain r where r: "?body = 0x22 # r"
    unfolding ms by (cases ms'; cases m) (auto simp: text_member_def encode_member_def encode_string_def quote_bytes_def)
  have "parse_value (Suc ?n) 0 (0x7B # ?body) = Some (JObject (consumed (0x7B # ?body) []) (map parsed_member ms), [])"
    using body unfolding r by (simp add: maxNestingDepth_def del: parse_members.simps)
  then have "parse_json (0x7B # ?body) = Some (JObject (consumed (0x7B # ?body) []) (map parsed_member ms))"
    by (simp add: parse_json_def skip_ws_def del: parse_value.simps)
  then show thesis by (rule that)
qed

text \<open>One member of a decoded structure that is a string field.\<close>

lemma decode_string_member:
  assumes "valid_utf8 (bytes_of name)" and "find_field flds (bytes_of name) = Some (snd (string_field name store))"
    and "unquote_loop c = Some s"
  shows "decode_members flds (parsed_member (name, c) # ms) failed a = decode_members flds ms failed (store (string_of s) a)"
  using assms by (simp add: parsed_member_def encode_roundtrip string_field_def)

lemma decode_custom_member:
  assumes "valid_utf8 (bytes_of name)" and "find_field flds (bytes_of name) = Some (snd (custom_field name f))"
    and "f (quote_bytes c) a = (False, a')"
  shows "decode_members flds (parsed_member (name, c) # ms) failed a = decode_members flds ms failed a'"
  using assms by (simp add: parsed_member_def encode_roundtrip custom_field_def quote_bytes_def)

text \<open>What every field keeps, the decoding of a structure keeps.\<close>

primrec stored_value :: "'a stored \<Rightarrow> 'a" where
  "stored_value (Stored a) = a"
| "stored_value (Mistyped a) = a"
| "stored_value (Aborted a) = a"

lemma find_in_set: "find Q xs = Some x \<Longrightarrow> x \<in> set xs"
  by (induction xs) (auto split: if_splits)

lemma decode_members_invariant:
  assumes "\<And>name store v a. (name, store) \<in> set flds \<Longrightarrow> P a \<Longrightarrow> P (stored_value (store v a))" and "P a"
  shows "P (snd (decode_members flds ms failed a))"
  using assms(2)
proof (induction ms arbitrary: failed a)
  case (Cons m ms)
  obtain key v where m: "m = (key, v)" by force
  have field: "P (stored_value (store v a))" if "find_field flds k = Some store" for k store
  proof -
    have "\<exists>name. (name, store) \<in> set flds"
      using that by (auto simp: find_field_def split: option.splits dest!: find_in_set)
    then show ?thesis using assms(1) Cons.prems by blast
  qed
  show ?case
  proof (cases "unquote_loop key")
    case (Some name)
    show ?thesis
    proof (cases "find_field flds name")
      case None
      then show ?thesis using Some m Cons by simp
    next
      case found: (Some store)
      show ?thesis
        using field [OF found] Some found m Cons.IH by (cases "store v a") simp_all
    qed
  qed (use m Cons in simp)
qed simp

lemma Unmarshal_invariant:
  assumes "\<And>name store v a. (name, store) \<in> set flds \<Longrightarrow> P a \<Longrightarrow> P (stored_value (store v a))" and "P a"
  shows "P (snd (Unmarshal flds data a))"
proof -
  have "P (snd (decode_members flds ms failed a))" for ms failed
    by (rule decode_members_invariant) (use assms in auto)
  then show ?thesis using assms(2) by (simp add: Unmarshal_def split: option.splits json.splits)
qed

text \<open>A text value decodes to well-formed UTF-8.\<close>

lemma unquote_step_valid:
  "unquote_step s = Some (out, n) \<Longrightarrow> valid_utf8 out"
  using valid_utf8_EncodeRune [of _ "[]"]
  by (cases s)
    (auto simp: Let_def simple_escape_def valid_utf8_ascii
      split: if_splits list.splits option.splits prod.splits)

lemma unquote_valid: "unquote_loop s = Some t \<Longrightarrow> valid_utf8 t"
proof (induction s arbitrary: t rule: unquote_loop.induct)
  case (1 s)
  show ?case
  proof (cases "s = []")
    case False
    then obtain out n t' where st: "unquote_step s = Some (out, n)" "unquote_loop (drop n s) = Some t'" "t = out @ t'"
      using 1(2) by (subst (asm) unquote_loop.simps) (auto split: option.splits)
    then show ?thesis using 1(1) [OF False st(1) refl st(2)] unquote_step_valid [OF st(1)] by (simp add: valid_utf8_append)
  qed (use 1 in simp)
qed

end
