(* ===== verification/Message_Json.thy ===== *)
theory Message_Json
  imports Worker Go_Json
begin

text \<open>
  The JSON form of a password sync message: the encoding that the queue sends
  (\<^verbatim>\<open>migration.PasswordSyncMessage\<close> with its field tags) and the two decodings of the worker,
  on the model of \<^verbatim>\<open>encoding/json\<close> in theory \<open>Go_Json\<close>.
\<close>

definition json_error :: goerror where
  "json_error = ErrorString ''json''"

definition message_members :: "password_sync_message \<Rightarrow> (string \<times> byte list) list" where
  "message_members m =
     [(''cn'', bytes_of (msgCN m)), (''upn'', bytes_of (msgUPN m)), (''eventType'', bytes_of (msgEventType m))]
     @ (if msgTraceID m = [] then [] else [(''traceId'', bytes_of (msgTraceID m))])
     @ [(''passwordCiphertext'', bytes_of (msgPasswordCiphertext m)),
        (''passwordNonce'', bytes_of (msgPasswordNonce m)), (''passwordKeyId'', bytes_of (msgPasswordKeyID m)),
        (''passwordAlg'', bytes_of (msgPasswordAlg m)), (''displayName'', bytes_of (msgDisplayName m)),
        (''mail'', bytes_of (msgMail m))]"

definition marshal_message :: "password_sync_message \<Rightarrow> goerror + byte list" where
  "marshal_message m =
     (case time_MarshalJSON (msgEnqueuedAt m) of
        None \<Rightarrow> Inl json_error
      | Some t \<Rightarrow>
          Inr (encode_object (map (\<lambda>(name, v). (name, quote_bytes (encode_loop v))) (message_members m)
                              @ [(''enqueuedAt'', t)])))"

definition time_field :: "string \<Rightarrow> ('a \<Rightarrow> instant) \<Rightarrow> (instant \<Rightarrow> 'a \<Rightarrow> 'a) \<Rightarrow> 'a field" where
  "time_field name get store =
     custom_field name (\<lambda>data a. case time_UnmarshalJSON data (get a) of (failed, t) \<Rightarrow> (failed, store t a))"

definition message_fields :: "password_sync_message field list" where
  "message_fields =
     [string_field ''cn'' (\<lambda>s m. m\<lparr>msgCN := s\<rparr>), string_field ''upn'' (\<lambda>s m. m\<lparr>msgUPN := s\<rparr>),
      string_field ''eventType'' (\<lambda>s m. m\<lparr>msgEventType := s\<rparr>), string_field ''traceId'' (\<lambda>s m. m\<lparr>msgTraceID := s\<rparr>),
      string_field ''passwordCiphertext'' (\<lambda>s m. m\<lparr>msgPasswordCiphertext := s\<rparr>),
      string_field ''passwordNonce'' (\<lambda>s m. m\<lparr>msgPasswordNonce := s\<rparr>),
      string_field ''passwordKeyId'' (\<lambda>s m. m\<lparr>msgPasswordKeyID := s\<rparr>),
      string_field ''passwordAlg'' (\<lambda>s m. m\<lparr>msgPasswordAlg := s\<rparr>),
      string_field ''displayName'' (\<lambda>s m. m\<lparr>msgDisplayName := s\<rparr>), string_field ''mail'' (\<lambda>s m. m\<lparr>msgMail := s\<rparr>),
      time_field ''enqueuedAt'' msgEnqueuedAt (\<lambda>t m. m\<lparr>msgEnqueuedAt := t\<rparr>)]"

definition unmarshal_message :: "byte list \<Rightarrow> goerror + password_sync_message" where
  "unmarshal_message data =
     (case Unmarshal message_fields data emptyMessage of (failed, m) \<Rightarrow> if failed then Inl json_error else Inr m)"

definition partial_fields :: "(string \<times> string \<times> instant) field list" where
  "partial_fields =
     [string_field ''cn'' (\<lambda>s (cn, upn, t). (s, upn, t)), string_field ''upn'' (\<lambda>s (cn, upn, t). (cn, s, t)),
      time_field ''enqueuedAt'' (\<lambda>(cn, upn, t). t) (\<lambda>t' (cn, upn, t). (cn, upn, t'))]"

definition unmarshal_partial :: "byte list \<Rightarrow> goerror + (string \<times> string \<times> instant)" where
  "unmarshal_partial data =
     (case Unmarshal partial_fields data ([], [], 0) of (failed, p) \<Rightarrow> if failed then Inl json_error else Inr p)"

definition encoding_json :: message_json where
  "encoding_json = \<lparr>jsonMessage = unmarshal_message, jsonPartial = unmarshal_partial\<rparr>"

section \<open>Decoding inverts encoding\<close>

text \<open>The text fields of a message are well-formed UTF-8, and its time can be written.\<close>

definition sendable :: "password_sync_message \<Rightarrow> bool" where
  "sendable m \<longleftrightarrow>
     list_all (\<lambda>(name, v). valid_utf8 v) (message_members m)
     \<and> 0 \<le> time_year (msgEnqueuedAt m) \<and> time_year (msgEnqueuedAt m) \<le> 9999"

lemma valid_utf8_names:
  "valid_utf8 (bytes_of ''cn'')" "valid_utf8 (bytes_of ''upn'')" "valid_utf8 (bytes_of ''eventType'')"
  "valid_utf8 (bytes_of ''traceId'')" "valid_utf8 (bytes_of ''passwordCiphertext'')"
  "valid_utf8 (bytes_of ''passwordNonce'')" "valid_utf8 (bytes_of ''passwordKeyId'')"
  "valid_utf8 (bytes_of ''passwordAlg'')" "valid_utf8 (bytes_of ''displayName'')"
  "valid_utf8 (bytes_of ''mail'')" "valid_utf8 (bytes_of ''enqueuedAt'')"
  by (simp_all add: bytes_of_def ord_def)

lemma field_names:
  "find_field message_fields (bytes_of ''cn'') = Some (snd (string_field ''cn'' (\<lambda>s m. m\<lparr>msgCN := s\<rparr>)))"
  "find_field message_fields (bytes_of ''upn'') = Some (snd (string_field ''upn'' (\<lambda>s m. m\<lparr>msgUPN := s\<rparr>)))"
  "find_field message_fields (bytes_of ''eventType'') = Some (snd (string_field ''eventType'' (\<lambda>s m. m\<lparr>msgEventType := s\<rparr>)))"
  "find_field message_fields (bytes_of ''traceId'') = Some (snd (string_field ''traceId'' (\<lambda>s m. m\<lparr>msgTraceID := s\<rparr>)))"
  "find_field message_fields (bytes_of ''passwordCiphertext'')
     = Some (snd (string_field ''passwordCiphertext'' (\<lambda>s m. m\<lparr>msgPasswordCiphertext := s\<rparr>)))"
  "find_field message_fields (bytes_of ''passwordNonce'')
     = Some (snd (string_field ''passwordNonce'' (\<lambda>s m. m\<lparr>msgPasswordNonce := s\<rparr>)))"
  "find_field message_fields (bytes_of ''passwordKeyId'')
     = Some (snd (string_field ''passwordKeyId'' (\<lambda>s m. m\<lparr>msgPasswordKeyID := s\<rparr>)))"
  "find_field message_fields (bytes_of ''passwordAlg'')
     = Some (snd (string_field ''passwordAlg'' (\<lambda>s m. m\<lparr>msgPasswordAlg := s\<rparr>)))"
  "find_field message_fields (bytes_of ''displayName'')
     = Some (snd (string_field ''displayName'' (\<lambda>s m. m\<lparr>msgDisplayName := s\<rparr>)))"
  "find_field message_fields (bytes_of ''mail'') = Some (snd (string_field ''mail'' (\<lambda>s m. m\<lparr>msgMail := s\<rparr>)))"
  "find_field message_fields (bytes_of ''enqueuedAt'')
     = Some (snd (time_field ''enqueuedAt'' msgEnqueuedAt (\<lambda>t m. m\<lparr>msgEnqueuedAt := t\<rparr>)))"
  by (simp_all add: find_field_def message_fields_def string_field_def time_field_def custom_field_def
      bytes_of_inj)

text \<open>The text of a time needs no escapes.\<close>

lemma plain_char:
  assumes "c \<in> Collect is_digit \<union> set ''-T:.Z''"
  shows "(word_of_nat (ord c) :: byte) \<noteq> 0x22" "\<not> (word_of_nat (ord c) :: byte) < 0x20"
    "(word_of_nat (ord c) :: byte) \<noteq> 0x5C"
proof -
  have "unat (word_of_nat (ord c) :: byte) = ord c" by (simp add: unat_word_of_nat_byte)
  moreover have "48 \<le> ord c \<and> ord c \<le> 58 \<or> ord c \<in> {45, 46, 84, 90}"
    using assms by (auto simp: is_digit_def ord_def)
  ultimately have u: "unat (word_of_nat (ord c) :: byte) \<noteq> 34" "32 \<le> unat (word_of_nat (ord c) :: byte)"
    "unat (word_of_nat (ord c) :: byte) \<noteq> 92"
    by auto
  have ne: "unat x \<noteq> 34 \<Longrightarrow> x \<noteq> 0x22" "unat x \<noteq> 92 \<Longrightarrow> x \<noteq> 0x5C" for x :: byte by auto
  show "(word_of_nat (ord c) :: byte) \<noteq> 0x22" by (rule ne(1) [OF u(1)])
  show "\<not> (word_of_nat (ord c) :: byte) < 0x20" using u(2) by (simp add: word_less_nat_alt)
  show "(word_of_nat (ord c) :: byte) \<noteq> 0x5C" by (rule ne(2) [OF u(3)])
qed

lemma scan_plain: "set s \<subseteq> Collect is_digit \<union> set ''-T:.Z'' \<Longrightarrow> scan_string (bytes_of s)"
proof (induction s)
  case (Cons c s)
  have "c \<in> Collect is_digit \<union> set ''-T:.Z''" using Cons.prems by auto
  with Cons plain_char [of c] show ?case by (simp add: bytes_of_def scan_string.simps(2))
qed (simp add: bytes_of_def)

lemma time_text:
  assumes "0 \<le> time_year t" "time_year t \<le> 9999"
  shows "scan_string (bytes_of (Format_RFC3339Nano t))"
    and "time_UnmarshalJSON (quote_bytes (bytes_of (Format_RFC3339Nano t))) u = (False, t)"
proof -
  have "hd json_null = 0x6E" by (simp add: json_null_def bytes_of_def ord_def)
  then have "quote_bytes (bytes_of (Format_RFC3339Nano t)) \<noteq> json_null"
    by (auto simp: quote_bytes_def dest: arg_cong [of _ _ hd])
  then show "time_UnmarshalJSON (quote_bytes (bytes_of (Format_RFC3339Nano t))) u = (False, t)"
    using parse_Format_RFC3339Nano [OF assms]
    by (simp add: time_UnmarshalJSON_def quote_bytes_def butlast_append)
  show "scan_string (bytes_of (Format_RFC3339Nano t))"
    by (rule scan_plain [OF Format_RFC3339Nano_chars [OF assms]])
qed

lemma marshal_text:
  assumes "sendable m"
  shows "marshal_message m = Inr (0x7B # join_members (map text_member
      (map (\<lambda>(name, v). (name, encode_loop v)) (message_members m)
       @ [(''enqueuedAt'', bytes_of (Format_RFC3339Nano (msgEnqueuedAt m)))])) @ [0x7D])"
  using assms
  by (simp add: marshal_message_def time_MarshalJSON_def sendable_def encode_object_def text_member_def split_def comp_def)

lemma members_good:
  assumes "sendable m"
  shows "list_all good_member (map (\<lambda>(name, v). (name, encode_loop v)) (message_members m)
      @ [(''enqueuedAt'', bytes_of (Format_RFC3339Nano (msgEnqueuedAt m)))])"
  using assms time_text(1) [of "msgEnqueuedAt m"]
  by (cases "msgTraceID m = []")
    (simp_all add: good_member_def sendable_def message_members_def valid_utf8_names encode_roundtrip)

lemma decode_message_members:
  assumes "sendable m"
  shows "decode_members message_fields (map parsed_member
      (map (\<lambda>(name, v). (name, encode_loop v)) (message_members m)
       @ [(''enqueuedAt'', bytes_of (Format_RFC3339Nano (msgEnqueuedAt m)))])) False emptyMessage = (False, m)"
proof -
  have year: "0 \<le> time_year (msgEnqueuedAt m)" "time_year (msgEnqueuedAt m) \<le> 9999"
    using assms by (simp_all add: sendable_def)
  have last: "decode_members message_fields [parsed_member (''enqueuedAt'', bytes_of (Format_RFC3339Nano (msgEnqueuedAt m)))] False a
      = (False, a\<lparr>msgEnqueuedAt := msgEnqueuedAt m\<rparr>)" for a
    by (subst decode_custom_member [OF valid_utf8_names(11) field_names(11) [unfolded time_field_def]])
      (simp_all add: time_text(2) [OF year])
  note member = decode_string_member [OF valid_utf8_names(1) field_names(1) encode_roundtrip(2)]
    decode_string_member [OF valid_utf8_names(2) field_names(2) encode_roundtrip(2)]
    decode_string_member [OF valid_utf8_names(3) field_names(3) encode_roundtrip(2)]
    decode_string_member [OF valid_utf8_names(4) field_names(4) encode_roundtrip(2)]
    decode_string_member [OF valid_utf8_names(5) field_names(5) encode_roundtrip(2)]
    decode_string_member [OF valid_utf8_names(6) field_names(6) encode_roundtrip(2)]
    decode_string_member [OF valid_utf8_names(7) field_names(7) encode_roundtrip(2)]
    decode_string_member [OF valid_utf8_names(8) field_names(8) encode_roundtrip(2)]
    decode_string_member [OF valid_utf8_names(9) field_names(9) encode_roundtrip(2)]
    decode_string_member [OF valid_utf8_names(10) field_names(10) encode_roundtrip(2)]
  show ?thesis
    using assms
    by (cases "msgTraceID m = []")
      (simp_all add: sendable_def message_members_def member last emptyMessage_def del: decode_members.simps)
qed

lemma unmarshal_marshal:
  assumes "sendable m"
  obtains body where "marshal_message m = Inr body" "unmarshal_message body = Inr m"
proof -
  let ?ms = "map (\<lambda>(name, v). (name, encode_loop v)) (message_members m)
       @ [(''enqueuedAt'', bytes_of (Format_RFC3339Nano (msgEnqueuedAt m)))]"
  obtain raw where "parse_json (0x7B # join_members (map text_member ?ms) @ [0x7D]) = Some (JObject raw (map parsed_member ?ms))"
    using parse_encoded_object [OF _ members_good [OF assms]] by blast
  then have "unmarshal_message (0x7B # join_members (map text_member ?ms) @ [0x7D]) = Inr m"
    using decode_message_members [OF assms] by (simp add: unmarshal_message_def Unmarshal_def)
  with marshal_text [OF assms] show thesis by (rule that)
qed

end
