(* ===== verification/Worker_Properties.thy ===== *)
theory Worker_Properties
  imports Worker
begin

text \<open>
  What the worker guarantees for one message and for its loop, over all answers of its
  collaborators: one settlement per message, no completion without an outcome, bounded
  retries, dead-letter entries without secrets, and a loop that ends on cancellation.
\<close>

section \<open>Shared lemmas\<close>

lemma unique_split:
  "P x \<Longrightarrow> P s \<Longrightarrow> list_all (\<lambda>y. \<not> P y) a \<Longrightarrow> list_all (\<lambda>y. \<not> P y) b \<Longrightarrow> xs @ x # ys = a @ s # b
     \<Longrightarrow> xs = a \<and> x = s \<and> ys = b"
proof (induction xs arbitrary: a)
  case Nil
  then show ?case by (cases a) auto
next
  case (Cons y xs)
  show ?case
  proof (cases a)
    case Nil
    with Cons.prems have "b = xs @ x # ys" by simp
    with Cons.prems show ?thesis by (simp add: list_all_iff)
  next
    case (Cons z a')
    with Cons.prems Cons.IH [of a'] show ?thesis by auto
  qed
qed

lemma observes_no_settlement: "list_all is_observe evs \<Longrightarrow> list_all (\<lambda>ev. \<not> is_settlement ev) evs"
  by (auto simp: list_all_iff)

lemma observes_no_record: "list_all is_observe evs \<Longrightarrow> RecordFailure e \<notin> set evs"
  by (induction evs) auto

lemma attempts_no_settlement: "list_all (attempt_event msg) evs \<Longrightarrow> list_all (\<lambda>ev. \<not> is_settlement ev) evs"
  by (auto simp: list_all_iff)

text \<open>The attempts of one message, as the settlement sees them.\<close>

lemma processPasswordSync_trace:
  assumes "processPasswordSync E w h sm = (r, h', bufs)"
  obtains new where "h' = h @ new" "list_all (attempt_event sm) new"
    "length (filter is_process new) \<le> length (wkRetryBackoffs w) + 1" "list_all zeroed bufs"
    "\<And>res. r = Returned res \<Longrightarrow> attempts_ok E sm 1 (length (wkRetryBackoffs w)) h new res"
  using process_attempts_trace [OF assms [unfolded processPasswordSync_def]] by blast

text \<open>
  Every returning course has the form: events that settle nothing, one settlement of the
  zeroed message, observations.
\<close>

definition settled_by :: "worker_message option \<Rightarrow> history \<Rightarrow> event \<Rightarrow> history \<Rightarrow> history \<Rightarrow> bool" where
  "settled_by msg a s b new \<longleftrightarrow>
     new = a @ s # b \<and> list_all (\<lambda>ev. \<not> is_settlement ev) a \<and> list_all is_observe b
     \<and> (s = Complete (zeroMessageBody msg) \<or> s = Abandon (zeroMessageBody msg))"

lemma dead_lettered_settles:
  assumes "dead_lettered E h msg entry marks new err" and "list_all (\<lambda>ev. \<not> is_settlement ev) marks"
  obtains (Refused) b where "settled_by msg [Now, RecordFailure entry] (Abandon (zeroMessageBody msg)) b new"
      "envRecordFailure E (h @ [Now]) entry \<noteq> None"
  | (Accepted) b where "settled_by msg ([Now, RecordFailure entry] @ marks) (Complete (zeroMessageBody msg)) b new"
      "envRecordFailure E (h @ [Now]) entry = None"
  using assms unfolding dead_lettered_def settled_by_def by fastforce

lemma settled_by_prepend:
  "settled_by msg a s b new \<Longrightarrow> list_all (\<lambda>ev. \<not> is_settlement ev) pre \<Longrightarrow> settled_by msg (pre @ a) s b (pre @ new)"
  by (simp add: settled_by_def)

lemma settled_by_unique:
  assumes "settled_by msg a s b new" "new = xs @ x # ys" "is_settlement x"
  shows "xs = a \<and> x = s"
proof -
  have "list_all (\<lambda>ev. \<not> is_settlement ev) b" "is_settlement s" "new = a @ s # b"
    "list_all (\<lambda>ev. \<not> is_settlement ev) a"
    using assms(1) by (auto simp: settled_by_def observes_no_settlement)
  with unique_split [of is_settlement x s a b xs ys] assms(2,3) show ?thesis by simp
qed

lemma settled_by_filter: "settled_by msg a s b new \<Longrightarrow> filter is_settlement new = [s]"
  by (auto simp: settled_by_def filter_empty_conv list_all_iff)

text \<open>The courses of a message, with the settlement and what went before it.\<close>

lemma processMessage_settles:
  assumes "processMessage E J w h msg = (Returned err, h', m, bufs)"
  obtains (Invalid) new e b where "h' = h @ new"
      "e = invalidMessageDeadLetterEntry J msg (envNow E h)"
      "settled_by msg [Now, RecordFailure e] (Abandon (zeroMessageBody msg)) b new
         \<and> envRecordFailure E (h @ [Now]) e \<noteq> None
       \<or> settled_by msg [Now, RecordFailure e] (Complete (zeroMessageBody msg)) b new
         \<and> envRecordFailure E (h @ [Now]) e = None"
      "m = zeroMessageBody msg" "bufs = []" "\<exists>e. decodePasswordSyncMessage J msg = Inl e"
  | (Processed) new sm att res tail a s b where "h' = h @ new" "decodePasswordSyncMessage J msg = Inr sm"
      "new = att @ tail" "list_all (attempt_event sm) att"
      "length (filter is_process att) \<le> length (wkRetryBackoffs w) + 1"
      "attempts_ok E sm 1 (length (wkRetryBackoffs w)) h att res" "settled_by msg a s b tail"
      "resErr res = None \<and> a = [MarkSynced (msgUPN sm) (msgEnqueuedAt sm)] \<and> s = Complete (zeroMessageBody msg)
       \<or> resErr res \<noteq> None \<and> resRetryCanceled res \<and> a = [] \<and> s = Abandon (zeroMessageBody msg)
       \<or> resErr res \<noteq> None \<and> \<not> resRetryCanceled res
         \<and> (let e = failure_entry sm res (envNow E (h @ att))
            in a = [Now, RecordFailure e] \<and> s = Abandon (zeroMessageBody msg)
                 \<and> envRecordFailure E (h @ att @ [Now]) e \<noteq> None
               \<or> a = [Now, RecordFailure e, MarkFailed (msgUPN sm) (msgEnqueuedAt sm)]
                 \<and> s = Complete (zeroMessageBody msg) \<and> envRecordFailure E (h @ att @ [Now]) e = None)"
      "m = zeroMessageBody msg" "list_all zeroed bufs"
  using assms
proof (cases rule: processMessage_cases)
  case (Invalid err' e new)
  from Invalid(4) show ?thesis
    by (rule dead_lettered_settles) (use Invalid that(1) in auto)
next
  case (Synced sm err' h1 res post)
  from Synced(3) obtain att where att: "h1 = h @ att" "list_all (attempt_event sm) att"
    "length (filter is_process att) \<le> length (wkRetryBackoffs w) + 1" "list_all zeroed bufs"
    "attempts_ok E sm 1 (length (wkRetryBackoffs w)) h att res"
    by (rule processPasswordSync_trace) simp
  have "settled_by msg [MarkSynced (msgUPN sm) (msgEnqueuedAt sm)] (Complete (zeroMessageBody msg)) post
      ([MarkSynced (msgUPN sm) (msgEnqueuedAt sm), Complete (zeroMessageBody msg)] @ post)"
    using Synced by (simp add: settled_by_def)
  from that(2) [OF _ Synced(1) refl att(2,3,5) this] Synced att show ?thesis by simp
next
  case (Canceled sm err' h1 res post)
  from Canceled(3) obtain att where att: "h1 = h @ att" "list_all (attempt_event sm) att"
    "length (filter is_process att) \<le> length (wkRetryBackoffs w) + 1" "list_all zeroed bufs"
    "attempts_ok E sm 1 (length (wkRetryBackoffs w)) h att res"
    by (rule processPasswordSync_trace) simp
  have "settled_by msg [] (Abandon (zeroMessageBody msg)) post ([Abandon (zeroMessageBody msg)] @ post)"
    using Canceled by (simp add: settled_by_def)
  from that(2) [OF _ Canceled(1) refl att(2,3,5) this] Canceled att show ?thesis by simp
next
  case (Failed sm err' h1 res new)
  from Failed(3) obtain att where att: "h1 = h @ att" "list_all (attempt_event sm) att"
    "length (filter is_process att) \<le> length (wkRetryBackoffs w) + 1" "list_all zeroed bufs"
    "attempts_ok E sm 1 (length (wkRetryBackoffs w)) h att res"
    by (rule processPasswordSync_trace) simp
  from Failed(7) show ?thesis
  proof (rule dead_lettered_settles)
    fix b assume s: "settled_by msg [Now, RecordFailure (failure_entry sm res (envNow E h1))]
        (Abandon (zeroMessageBody msg)) b new"
      and "envRecordFailure E (h1 @ [Now]) (failure_entry sm res (envNow E h1)) \<noteq> None"
    with that(2) [OF _ Failed(1) refl att(2,3,5) s] Failed att show ?thesis by simp
  next
    fix b assume s: "settled_by msg ([Now, RecordFailure (failure_entry sm res (envNow E h1))]
        @ [MarkFailed (msgUPN sm) (msgEnqueuedAt sm)]) (Complete (zeroMessageBody msg)) b new"
      and "envRecordFailure E (h1 @ [Now]) (failure_entry sm res (envNow E h1)) = None"
    with that(2) [OF _ Failed(1) refl att(2,3,5) s] Failed att show ?thesis by simp
  qed simp
qed simp

section \<open>A concrete worker\<close>

text \<open>An environment in which the processor answers with the given error, and one message.\<close>

definition sample_worker_env :: "goerror option \<Rightarrow> worker_env" where
  "sample_worker_env perr =
     \<lparr>envCtxErr = (\<lambda>g. if 20 \<le> length g then Some ContextCanceled else None),
      envReceive = (\<lambda>_. Inr []), envSleep = (\<lambda>_ _. None), envNow = (\<lambda>g. int (length g)),
      envDecrypt = (\<lambda>_ _ _. Returned (Inr [0x70, 0x77])), envProcess = (\<lambda>_ _. perr),
      envRecordFailure = (\<lambda>_ _. None), envComplete = (\<lambda>_ _. None), envAbandon = (\<lambda>_ _. None)\<rparr>"

definition sample_sync_message :: password_sync_message where
  "sample_sync_message =
     \<lparr>msgCN = ''A1'', msgUPN = ''A1@n'', msgEventType = ''password_change'', msgTraceID = ''t'',
      msgPasswordCiphertext = ''c'', msgPasswordNonce = ''n'', msgPasswordKeyID = ''k'', msgPasswordAlg = ''a'',
      msgDisplayName = ''A'', msgMail = [], msgEnqueuedAt = 5\<rparr>"

definition sample_json :: message_json where
  "sample_json = \<lparr>jsonMessage = (\<lambda>_. Inr sample_sync_message), jsonPartial = (\<lambda>_. Inr ([], [], 0))\<rparr>"

definition sample_message :: "worker_message option" where
  "sample_message = Some \<lparr>wmAddress = 1, wmBody = [7, 9], wmKind = ''password-sync''\<rparr>"

definition sample_worker :: worker where
  "sample_worker =
     \<lparr>wkMaxMessages = 1, wkSettlementTimeout = 10, wkEmptyReceiveDelay = 1, wkRetryBackoffs = [1, 2]\<rparr>"

text \<open>The history of a message, from the start.\<close>

definition sample_run :: "goerror option \<Rightarrow> goerror option outcome \<times> history \<times> worker_message option \<times> byte list list" where
  "sample_run perr = processMessage (sample_worker_env perr) sample_json sample_worker [] sample_message"

lemma sample_run_returns: "\<exists>new m bufs. sample_run None = (Returned None, [] @ new, m, bufs)"
proof -
  have "fst (sample_run None) = Returned None" by code_simp
  then show ?thesis by (cases "sample_run None") auto
qed

section \<open>One message\<close>



text \<open>
  C6: no message is lost. A completed message had either been processed without error, with
  the account then marked synced, or been accepted by the dead-letter sink; an abandoned one
  had a refused dead-letter record or a retry that was cut short.
\<close>

theorem completion_has_outcome:
  assumes "processMessage E J w h msg = (Returned err, h @ new, m, bufs)"
    and "new = pre @ Complete x # post"
  shows "(\<exists>sm p cmd q. decodePasswordSyncMessage J msg = Inr sm \<and> pre = p @ Process cmd # q
            \<and> envProcess E (h @ p) cmd = None \<and> cmdUPN cmd = msgUPN sm
            \<and> MarkSynced (msgUPN sm) (msgEnqueuedAt sm) \<in> set q)
       \<or> (\<exists>p e q. pre = p @ RecordFailure e # q \<and> envRecordFailure E (h @ p) e = None)"
  using assms(1)
proof (cases rule: processMessage_settles)
  case (Invalid new' e b)
  have "new' = pre @ Complete x # post" using Invalid(1) assms(2) by simp
  then have "pre = [Now, RecordFailure e] \<and> envRecordFailure E (h @ [Now]) e = None"
    using Invalid(3) settled_by_unique by fastforce
  then show ?thesis by (intro disjI2 exI [of _ "[Now]"] exI [of _ e] exI [of _ "[]"]) simp
next
  case (Processed new' sm att res tail a s b)
  have "list_all (\<lambda>ev. \<not> is_settlement ev) att" using attempts_no_settlement [OF Processed(4)] .
  then have "settled_by msg (att @ a) s b new'" using settled_by_prepend Processed(3,7) by blast
  moreover have "new' = pre @ Complete x # post" using Processed(1) assms(2) by simp
  ultimately have u: "pre = att @ a" "s = Complete x" using settled_by_unique by fastforce+
  from Processed(8) u(2) consider
      "resErr res = None" "a = [MarkSynced (msgUPN sm) (msgEnqueuedAt sm)]"
    | e where "a = [Now, RecordFailure e, MarkFailed (msgUPN sm) (msgEnqueuedAt sm)]"
        "envRecordFailure E (h @ att @ [Now]) e = None"
    by (auto simp: Let_def)
  then show ?thesis
  proof cases
    case 1
    then obtain p pt where p: "att = p @ [Process (message_command sm pt)]"
      "envProcess E (h @ p) (message_command sm pt) = None"
      using Processed(6) unfolding attempts_ok_def by blast
    have "pre = p @ Process (message_command sm pt) # [MarkSynced (msgUPN sm) (msgEnqueuedAt sm)]"
      using u(1) 1(2) p(1) by simp
    moreover have "cmdUPN (message_command sm pt) = msgUPN sm" by (simp add: message_command_def)
    ultimately show ?thesis using p(2) Processed(2) by fastforce
  next
    case 2
    then have "pre = (att @ [Now]) @ RecordFailure e # [MarkFailed (msgUPN sm) (msgEnqueuedAt sm)]"
      using u(1) by simp
    with 2(2) show ?thesis by (metis append.assoc)
  qed
qed

theorem completion_has_outcome_witness:
  "\<exists>pre x post m bufs. sample_run None = (Returned None, pre @ Complete x # post, m, bufs)
     \<and> ((\<exists>sm p cmd q. decodePasswordSyncMessage sample_json sample_message = Inr sm \<and> pre = p @ Process cmd # q
           \<and> envProcess (sample_worker_env None) ([] @ p) cmd = None \<and> cmdUPN cmd = msgUPN sm
           \<and> MarkSynced (msgUPN sm) (msgEnqueuedAt sm) \<in> set q)
        \<or> (\<exists>p e q. pre = p @ RecordFailure e # q
           \<and> envRecordFailure (sample_worker_env None) ([] @ p) e = None))"
proof -
  obtain new m bufs where r: "sample_run None = (Returned None, [] @ new, m, bufs)"
    using sample_run_returns by blast
  have "Complete (zeroMessageBody sample_message) \<in> set (fst (snd (sample_run None)))" by code_simp
  then obtain pre post where n: "new = pre @ Complete (zeroMessageBody sample_message) # post"
    using r by (auto dest: split_list)
  have "sample_run None = (Returned None, pre @ Complete (zeroMessageBody sample_message) # post, m, bufs)"
    using r n by simp
  with completion_has_outcome [OF r [unfolded sample_run_def] n] show ?thesis by blast
qed



lemma invalid_entry_fields:
  "dlReason (invalidMessageDeadLetterEntry J msg t) = DeadLetterReasonInvalidMessageSchema"
  "dlPassword (invalidMessageDeadLetterEntry J msg t) = []"
  by (auto simp: invalidMessageDeadLetterEntry_def Let_def split: option.split sum.split)



text \<open>
  C38: a shutdown that reaches the worker before or between attempts is not a retry cut short.
  When \<^verbatim>\<open>Decrypt\<close> returns the context's error, the message is reported to the dead-letter
  sink as a permanent failure, the account is marked failed and the message completed,
  although nothing is wrong with it.
\<close>

theorem canceled_decrypt_is_dead_lettered:
  assumes "decodePasswordSyncMessage J msg = Inr sm"
    and "decrypts_to E h sm = Returned (Inl ContextCanceled)"
    and "\<And>g e. envRecordFailure E g e = None" and "\<And>g x. envComplete E g x = None"
  shows "\<exists>e new m bufs. processMessage E J w h msg = (Returned None, h @ new, m, bufs)
    \<and> RecordFailure e \<in> set new \<and> dlReason e = DeadLetterReasonPermanentProcessor
    \<and> MarkFailed (msgUPN sm) (msgEnqueuedAt sm) \<in> set new \<and> Complete (zeroMessageBody msg) \<in> set new"
proof -
  let ?res = "result (Some (WorkerPermanentError PermanentReasonProcessorError (Some ContextCanceled))) 1 True False"
  have p: "processPasswordSync E w h sm = (Returned ?res, h @ [decrypt_event sm], [])"
    unfolding processPasswordSync_def using assms(2)
    by (subst process_attempts.simps) (simp add: decrypts_to_def decrypt_event_def result_def Let_def)
  let ?h1 = "h @ [decrypt_event sm]"
  let ?e = "failure_entry sm ?res (envNow E ?h1)"
  let ?new = "[decrypt_event sm, Now, RecordFailure ?e, MarkFailed (msgUPN sm) (msgEnqueuedAt sm),
      Complete (zeroMessageBody msg)] @ recordOutcome ActionWorkerFailed sm ''sync_failed''
        DeadLetterReasonPermanentProcessor 1"
  have "settle_failed E ?h1 msg sm ?res = (None, h @ ?new, zeroMessageBody msg)"
    by (simp add: settle_failed_def recordPasswordSyncFailure_def failure_entry_def assms(3,4) Let_def)
  then have "processMessage E J w h msg = (Returned None, h @ ?new, zeroMessageBody msg, [])"
    using assms(1) p by (simp add: processMessage_def)
  moreover have "dlReason ?e = DeadLetterReasonPermanentProcessor" by (simp add: failure_entry_def)
  ultimately show ?thesis
    by (intro exI [of _ ?e] exI [of _ ?new] exI [of _ "zeroMessageBody msg"] exI [of _ "[]"]) simp
qed

theorem canceled_decrypt_is_dead_lettered_witness:
  "\<exists>e new m bufs. processMessage
       ((sample_worker_env None)\<lparr>envDecrypt := (\<lambda>_ _ _. Returned (Inl ContextCanceled))\<rparr>)
       sample_json sample_worker [] sample_message = (Returned None, [] @ new, m, bufs)
     \<and> RecordFailure e \<in> set new \<and> dlReason e = DeadLetterReasonPermanentProcessor
     \<and> MarkFailed (msgUPN sample_sync_message) (msgEnqueuedAt sample_sync_message) \<in> set new
     \<and> Complete (zeroMessageBody sample_message) \<in> set new"
proof (rule canceled_decrypt_is_dead_lettered)
  show "decodePasswordSyncMessage sample_json sample_message = Inr sample_sync_message" by code_simp
qed (simp_all add: decrypts_to_def sample_worker_env_def)

section \<open>The loop\<close>

lemma dead_lettered_nonempty: "dead_lettered E h msg e marks new err \<Longrightarrow> new \<noteq> []"
  by (auto simp: dead_lettered_def)

lemma process_batch_extends:
  "process_batch E J w h msgs = Again h' \<Longrightarrow> length h \<le> length h'"
proof (induction msgs arbitrary: h)
  case (Cons msg msgs)
  obtain r h2 m bufs where p: "processMessage E J w (h @ [CtxErr]) msg = (r, h2, m, bufs)"
    by (metis prod_cases4)
  with Cons.prems have "r = Returned None" "process_batch E J w h2 msgs = Again h'"
    by (auto simp: process_batch.simps(2) [of E J w h] Let_def split: if_splits outcome.splits option.splits)
  moreover from p this(1) obtain new where "h2 = (h @ [CtxErr]) @ new"
    by (auto elim: processMessage_settles)
  ultimately show ?case using Cons.IH [of h2] by simp
qed simp

lemma run_iteration_progress: "run_iteration E J w h = Again h' \<Longrightarrow> length h < length h'"
  using process_batch_extends [of E J w "h @ [CtxErr, Receive (nat (wkMaxMessages w))]" _ h']
  by (fastforce simp: run_iteration_def waitAfterEmptyReceive_def Let_def split: if_splits sum.splits)

text \<open>
  C30: the loop ends when the context is cancelled. Whatever the collaborators do, if the
  context is done once \<open>n\<close> calls have been made, the loop returns within \<open>n + 1\<close> iterations.
\<close>

theorem run_stops_when_canceled:
  assumes "\<forall>g. n \<le> length g \<longrightarrow> envCtxErr E g \<noteq> None" and "length h \<le> n"
  shows "\<exists>r h'. Run E J w (Suc n - length h) h = Some (r, h')"
proof -
  have "\<exists>r h'. Run E J w (Suc k) h = Some (r, h')" if "n \<le> length h + k" for k h
    using that
  proof (induction k arbitrary: h)
    case 0
    then have "envCtxErr E h \<noteq> None" using assms by simp
    then show ?case by (auto simp: run_iteration_def Let_def)
  next
    case (Suc k)
    show ?case
    proof (cases "run_iteration E J w h")
      case (Again h1)
      then have "n \<le> length h1 + k" using run_iteration_progress [OF Again] Suc.prems by simp
      from Suc.IH [OF this] Again show ?thesis by (simp del: Run.simps(2) add: Run.simps(2) [of E J w "Suc k"])
    qed simp_all
  qed
  from this [where h = h and k = "n - length h"] assms(2) show ?thesis by (simp add: Suc_diff_le)
qed

theorem run_stops_when_canceled_witness:
  "\<exists>r h'. Run (sample_worker_env None) sample_json sample_worker (Suc 20 - length ([] :: history)) [] = Some (r, h')"
  by (rule run_stops_when_canceled) (simp_all add: sample_worker_env_def)

end
