(* ===== verification/Resources.thy ===== *)
theory Resources
  imports Go_Base "HOL-Library.Multiset"
begin

text \<open>
  Handles on outside resources (network clients, senders, receivers, token managers), and the
  events of opening and closing them, in order. The locale \<open>closing\<close> is the contract of
  everything with a method \<^verbatim>\<open>Close\<close>: it closes the handles it owns, each of them once, also
  when some of them report an error.
\<close>

type_synonym resource = "string \<times> string"

datatype res_event = Opened resource | Closed resource

text \<open>What is still open after a sequence of events.\<close>

fun still_open :: "res_event list \<Rightarrow> resource list" where
  "still_open [] = []"
| "still_open (Opened r # evs) = (if Closed r \<in> set evs then still_open evs else r # still_open evs)"
| "still_open (Closed r # evs) = still_open evs"

fun opened :: "res_event list \<Rightarrow> resource multiset" where
  "opened [] = {#}"
| "opened (Opened r # evs) = add_mset r (opened evs)"
| "opened (Closed r # evs) = opened evs"

fun closed :: "res_event list \<Rightarrow> resource multiset" where
  "closed [] = {#}"
| "closed (Opened r # evs) = closed evs"
| "closed (Closed r # evs) = add_mset r (closed evs)"

lemma opened_append [simp]: "opened (evs @ evs') = opened evs + opened evs'"
  by (induction evs rule: opened.induct) simp_all

lemma closed_append [simp]: "closed (evs @ evs') = closed evs + closed evs'"
  by (induction evs rule: closed.induct) simp_all

text \<open>What a constructor has opened and not closed again is what its result owns.\<close>

definition owned :: "('a \<Rightarrow> resource multiset) \<Rightarrow> (goerror + 'a) \<times> res_event list \<Rightarrow> bool" where
  "owned own result = (case result of
     (Inl e, evs) \<Rightarrow> opened evs = closed evs
   | (Inr x, evs) \<Rightarrow> opened evs = closed evs + own x)"

locale closing =
  fixes handles :: "'a \<Rightarrow> resource multiset"
    and close :: "'a \<Rightarrow> goerror option \<times> res_event list"
  assumes close_opens: "opened (snd (close x)) = {#}"
    and close_closes: "closed (snd (close x)) = handles x"
begin

text \<open>Closing several, one after the other.\<close>

definition close_each :: "'a list \<Rightarrow> goerror option list \<times> res_event list" where
  "close_each xs = (map (fst \<circ> close) xs, concat (map (snd \<circ> close) xs))"

lemma close_each_events:
  "opened (snd (close_each xs)) = {#}" "closed (snd (close_each xs)) = sum_list (map handles xs)"
  by (induction xs) (simp_all add: close_each_def close_opens close_closes)

end

end
