(* ===== verification/Service_Bus.thy ===== *)
theory Service_Bus
  imports Message_Json Worker_Properties Resources
begin

text \<open>
  Package \<^verbatim>\<open>internal/servicebusqueue\<close> (\<^verbatim>\<open>queue.go\<close>, \<^verbatim>\<open>deadletter.go\<close>): the queue that
  sends password sync messages, the receiver that hands them to the worker and settles them,
  the queue of safe dead letters and the depth probe.

  The Azure SDK is not part of the program. What its constructors, senders and receivers answer
  is an argument: the record \<open>sb_sdk\<close> for opening and closing, a function on an abstract state
  for sending, receiving and settling. Opening and closing are events, in order, so that
  resources can be followed.
\<close>

section \<open>Messages\<close>

record sb_message =
  sbProperties :: "(string \<times> string) list"
  sbBody :: "byte list"
  sbContentType :: string
  sbMessageID :: "string option"
  sbSubject :: string
  sbTimeToLive :: "duration option"

text \<open>
  A received message: the number stands for the SDK's object; the property \<^verbatim>\<open>kind\<close> is present
  only when its dynamic type is string.
\<close>

record sb_received =
  srId :: nat
  srBody :: "byte list"
  srKind :: "string option"
  srSubject :: "string option"

definition defaultTTL :: duration where "defaultTTL = 300 * second_ns"
definition closeTimeout :: duration where "closeTimeout = 5 * second_ns"
definition passwordSyncDLQKind :: string where "passwordSyncDLQKind = ''password-sync-dlq''"

section \<open>Opening and closing\<close>

record sb_sdk =
  sdkClientFromConnectionString :: "string \<Rightarrow> goerror option"
  sdkClientFromNamespace :: "string \<Rightarrow> goerror option"
  sdkNewSender :: "string \<Rightarrow> goerror option"
  sdkNewReceiver :: "string \<Rightarrow> goerror option"
  sdkClose :: "resource \<Rightarrow> goerror option"

record sb_queue =
  sbqSender :: "resource option"
  sbqClient :: "resource option"
  sbqTTL :: duration

record sb_receiver =
  sbrReceiver :: "resource option"
  sbrClient :: "resource option"

record sb_dlq =
  sbdSender :: "resource option"
  sbdClient :: "resource option"

definition NewQueueWithClient :: "resource option \<Rightarrow> resource option \<Rightarrow> duration \<Rightarrow> goerror + sb_queue" where
  "NewQueueWithClient sender client ttl =
     (if sender = None then Inl (ErrorString ''service bus sender is required'')
      else Inr \<lparr>sbqSender = sender, sbqClient = client, sbqTTL = (if ttl \<le> 0 then defaultTTL else ttl)\<rparr>)"

definition NewQueue :: "resource option \<Rightarrow> duration \<Rightarrow> goerror + sb_queue" where
  "NewQueue sender ttl = NewQueueWithClient sender None ttl"

definition NewReceiverWithClient :: "resource option \<Rightarrow> resource option \<Rightarrow> sb_receiver" where
  "NewReceiverWithClient receiver client = \<lparr>sbrReceiver = receiver, sbrClient = client\<rparr>"

definition NewReceiver :: "resource option \<Rightarrow> sb_receiver" where
  "NewReceiver receiver = NewReceiverWithClient receiver None"

definition NewDeadLetterQueueWithClient :: "resource option \<Rightarrow> resource option \<Rightarrow> goerror + sb_dlq" where
  "NewDeadLetterQueueWithClient sender client =
     (if sender = None then Inl (ErrorString ''service bus dead-letter sender is required'')
      else Inr \<lparr>sbdSender = sender, sbdClient = client\<rparr>)"

definition NewDeadLetterQueue :: "resource option \<Rightarrow> goerror + sb_dlq" where
  "NewDeadLetterQueue sender = NewDeadLetterQueueWithClient sender None"

text \<open>
  Opening a sender or receiver on a client: the client is closed again when that fails. The
  first argument names the owner, which tells the clients of the three constructors apart.
\<close>

definition newClientFromNamespace :: "sb_sdk \<Rightarrow> string \<Rightarrow> string \<Rightarrow> bool \<Rightarrow> (goerror + resource) \<times> res_event list" where
  "newClientFromNamespace sdk owner namespaceFQDN credential =
     (let namespaceFQDN = TrimSpace namespaceFQDN in
      if namespaceFQDN = [] then (Inl (ErrorString ''service bus namespace FQDN is required''), [])
      else if \<not> credential then (Inl (ErrorString ''service bus token credential is required''), [])
      else case sdkClientFromNamespace sdk namespaceFQDN of
        Some err \<Rightarrow> (Inl (Wrapped ''create service bus client: '' err), [])
      | None \<Rightarrow> (Inr (owner, ''client''), [Opened (owner, ''client'')]))"

definition newClientFromConnectionString :: "sb_sdk \<Rightarrow> string \<Rightarrow> string \<Rightarrow> (goerror + resource) \<times> res_event list" where
  "newClientFromConnectionString sdk owner connectionString =
     (case sdkClientFromConnectionString sdk connectionString of
        Some err \<Rightarrow> (Inl (Wrapped ''create service bus client: '' err), [])
      | None \<Rightarrow> (Inr (owner, ''client''), [Opened (owner, ''client'')]))"

definition closeWithTimeout :: "sb_sdk \<Rightarrow> resource \<Rightarrow> goerror option \<times> res_event list" where
  "closeWithTimeout sdk closer = (sdkClose sdk closer, [Closed closer])"

definition open_on_client ::
  "sb_sdk \<Rightarrow> string \<Rightarrow> goerror option \<Rightarrow> resource \<Rightarrow> resource \<Rightarrow> (goerror + resource) \<times> res_event list" where
  "open_on_client sdk what answer client link =
     (case answer of
        Some err \<Rightarrow>
          (case closeWithTimeout sdk client of
             (closeErr, evs) \<Rightarrow> (Inl (the (errors_Join [Some (Wrapped what err), closeErr])), evs))
      | None \<Rightarrow> (Inr link, [Opened link]))"

definition NewFromConnectionString ::
  "sb_sdk \<Rightarrow> string \<Rightarrow> string \<Rightarrow> duration \<Rightarrow> (goerror + sb_queue) \<times> res_event list" where
  "NewFromConnectionString sdk connectionString queueName ttl =
     (case newClientFromConnectionString sdk ''queue'' connectionString of
        (Inl err, evs) \<Rightarrow> (Inl err, evs)
      | (Inr client, evs) \<Rightarrow>
          (case open_on_client sdk ''create service bus sender: '' (sdkNewSender sdk queueName) client (''queue'', ''sender'') of
             (Inl err, evs') \<Rightarrow> (Inl err, evs @ evs')
           | (Inr sender, evs') \<Rightarrow> (NewQueueWithClient (Some sender) (Some client) ttl, evs @ evs')))"

definition NewFromNamespace ::
  "sb_sdk \<Rightarrow> string \<Rightarrow> bool \<Rightarrow> string \<Rightarrow> duration \<Rightarrow> (goerror + sb_queue) \<times> res_event list" where
  "NewFromNamespace sdk namespaceFQDN credential queueName ttl =
     (if TrimSpace queueName = [] then (Inl (ErrorString ''service bus queue name is required''), [])
      else case newClientFromNamespace sdk ''queue'' namespaceFQDN credential of
        (Inl err, evs) \<Rightarrow> (Inl err, evs)
      | (Inr client, evs) \<Rightarrow>
          (case open_on_client sdk ''create service bus sender: '' (sdkNewSender sdk queueName) client (''queue'', ''sender'') of
             (Inl err, evs') \<Rightarrow> (Inl err, evs @ evs')
           | (Inr sender, evs') \<Rightarrow> (NewQueueWithClient (Some sender) (Some client) ttl, evs @ evs')))"

definition NewReceiverFromConnectionString ::
  "sb_sdk \<Rightarrow> string \<Rightarrow> string \<Rightarrow> (goerror + sb_receiver) \<times> res_event list" where
  "NewReceiverFromConnectionString sdk connectionString queueName =
     (case newClientFromConnectionString sdk ''receiver'' connectionString of
        (Inl err, evs) \<Rightarrow> (Inl err, evs)
      | (Inr client, evs) \<Rightarrow>
          (case open_on_client sdk ''create service bus receiver: '' (sdkNewReceiver sdk queueName) client
                  (''receiver'', ''receiver'') of
             (Inl err, evs') \<Rightarrow> (Inl err, evs @ evs')
           | (Inr receiver, evs') \<Rightarrow> (Inr (NewReceiverWithClient (Some receiver) (Some client)), evs @ evs')))"

definition NewReceiverFromNamespace ::
  "sb_sdk \<Rightarrow> string \<Rightarrow> bool \<Rightarrow> string \<Rightarrow> (goerror + sb_receiver) \<times> res_event list" where
  "NewReceiverFromNamespace sdk namespaceFQDN credential queueName =
     (if TrimSpace queueName = [] then (Inl (ErrorString ''service bus queue name is required''), [])
      else case newClientFromNamespace sdk ''receiver'' namespaceFQDN credential of
        (Inl err, evs) \<Rightarrow> (Inl err, evs)
      | (Inr client, evs) \<Rightarrow>
          (case open_on_client sdk ''create service bus receiver: '' (sdkNewReceiver sdk queueName) client
                  (''receiver'', ''receiver'') of
             (Inl err, evs') \<Rightarrow> (Inl err, evs @ evs')
           | (Inr receiver, evs') \<Rightarrow> (Inr (NewReceiverWithClient (Some receiver) (Some client)), evs @ evs')))"

definition NewDeadLetterQueueFromConnectionString ::
  "sb_sdk \<Rightarrow> string \<Rightarrow> string \<Rightarrow> (goerror + sb_dlq) \<times> res_event list" where
  "NewDeadLetterQueueFromConnectionString sdk connectionString queueName =
     (case newClientFromConnectionString sdk ''dlq'' connectionString of
        (Inl err, evs) \<Rightarrow> (Inl err, evs)
      | (Inr client, evs) \<Rightarrow>
          (case open_on_client sdk ''create service bus dead-letter sender: '' (sdkNewSender sdk queueName) client
                  (''dlq'', ''sender'') of
             (Inl err, evs') \<Rightarrow> (Inl err, evs @ evs')
           | (Inr sender, evs') \<Rightarrow> (NewDeadLetterQueueWithClient (Some sender) (Some client), evs @ evs')))"

definition NewDeadLetterQueueFromNamespace ::
  "sb_sdk \<Rightarrow> string \<Rightarrow> bool \<Rightarrow> string \<Rightarrow> (goerror + sb_dlq) \<times> res_event list" where
  "NewDeadLetterQueueFromNamespace sdk namespaceFQDN credential queueName =
     (if TrimSpace queueName = [] then (Inl (ErrorString ''service bus dead-letter queue name is required''), [])
      else case newClientFromNamespace sdk ''dlq'' namespaceFQDN credential of
        (Inl err, evs) \<Rightarrow> (Inl err, evs)
      | (Inr client, evs) \<Rightarrow>
          (case open_on_client sdk ''create service bus dead-letter sender: '' (sdkNewSender sdk queueName) client
                  (''dlq'', ''sender'') of
             (Inl err, evs') \<Rightarrow> (Inl err, evs @ evs')
           | (Inr sender, evs') \<Rightarrow> (NewDeadLetterQueueWithClient (Some sender) (Some client), evs @ evs')))"

text \<open>\<^verbatim>\<open>Close\<close>: both parts are closed, also when the first reports an error.\<close>

definition close_part :: "sb_sdk \<Rightarrow> string \<Rightarrow> resource option \<Rightarrow> goerror option \<times> res_event list" where
  "close_part sdk what part =
     (case part of
        None \<Rightarrow> (None, [])
      | Some r \<Rightarrow> (map_option (Wrapped what) (sdkClose sdk r), [Closed r]))"

definition Queue_Close :: "sb_sdk \<Rightarrow> sb_queue \<Rightarrow> goerror option \<times> res_event list" where
  "Queue_Close sdk q =
     (let (e1, evs1) = close_part sdk ''close service bus sender: '' (sbqSender q);
          (e2, evs2) = close_part sdk ''close service bus client: '' (sbqClient q)
      in (errors_Join [e1, e2], evs1 @ evs2))"

definition Receiver_Close :: "sb_sdk \<Rightarrow> sb_receiver \<Rightarrow> goerror option \<times> res_event list" where
  "Receiver_Close sdk r =
     (let (e1, evs1) = close_part sdk ''close service bus receiver: '' (sbrReceiver r);
          (e2, evs2) = close_part sdk ''close service bus client: '' (sbrClient r)
      in (errors_Join [e1, e2], evs1 @ evs2))"

definition DeadLetterQueue_Close :: "sb_sdk \<Rightarrow> sb_dlq \<Rightarrow> goerror option \<times> res_event list" where
  "DeadLetterQueue_Close sdk q =
     (let (e1, evs1) = close_part sdk ''close service bus dead-letter sender: '' (sbdSender q);
          (e2, evs2) = close_part sdk ''close service bus client: '' (sbdClient q)
      in (errors_Join [e1, e2], evs1 @ evs2))"

section \<open>Sending\<close>

definition password_sync_sb_message :: "sb_queue \<Rightarrow> password_sync_message \<Rightarrow> byte list \<Rightarrow> sb_message" where
  "password_sync_sb_message q msg body =
     \<lparr>sbProperties = [(''kind'', ''password-sync''), (''cn'', msgCN msg), (''upn'', msgUPN msg)],
      sbBody = body, sbContentType = ''application/json'',
      sbMessageID = Some (msgUPN msg @ '':'' @ Format_RFC3339Nano (msgEnqueuedAt msg)),
      sbSubject = ''password-sync'', sbTimeToLive = Some (sbqTTL q)\<rparr>"

definition EnqueuePasswordSync ::
  "('x \<Rightarrow> sb_message \<Rightarrow> 'x \<times> goerror option) \<Rightarrow> sb_queue \<Rightarrow> 'x enqueue_op" where
  "EnqueuePasswordSync send q x msg =
     (case marshal_message msg of
        Inl err \<Rightarrow> (x, Some (Wrapped ''marshal password sync message: '' err))
      | Inr body \<Rightarrow>
          (case send x (password_sync_sb_message q msg body) of
             (x', Some err) \<Rightarrow> (x', Some (Wrapped ''send password sync message: '' err))
           | (x', None) \<Rightarrow> (x', None)))"

definition entry_members :: "dead_letter_entry \<Rightarrow> (byte list \<times> byte list) \<Rightarrow> (string \<times> byte list) list" where
  "entry_members e = (\<lambda>(enqueued, failed).
     [(''kind'', encode_string (dlKind e))]
     @ (if dlCN e = [] then [] else [(''cn'', encode_string (dlCN e))])
     @ (if dlUPN e = [] then [] else [(''upn'', encode_string (dlUPN e))])
     @ [(''reason'', encode_string (dlReason e)), (''description'', encode_string (dlDescription e)),
        (''attempts'', encode_int (int (dlAttempts e))), (''enqueuedAt'', enqueued), (''failedAt'', failed)])"

definition marshal_entry :: "dead_letter_entry \<Rightarrow> goerror + byte list" where
  "marshal_entry e =
     (case (time_MarshalJSON (dlEnqueuedAt e), time_MarshalJSON (dlFailedAt e)) of
        (Some enqueued, Some failed) \<Rightarrow> Inr (encode_object (entry_members e (enqueued, failed)))
      | _ \<Rightarrow> Inl json_error)"

definition dead_letter_sb_message :: "dead_letter_entry \<Rightarrow> byte list \<Rightarrow> sb_message" where
  "dead_letter_sb_message e body =
     \<lparr>sbProperties = [(''kind'', passwordSyncDLQKind), (''cn'', dlCN e), (''upn'', dlUPN e), (''reason'', dlReason e)],
      sbBody = body, sbContentType = ''application/json'', sbMessageID = None,
      sbSubject = passwordSyncDLQKind, sbTimeToLive = None\<rparr>"

definition RecordPasswordSyncFailure ::
  "('x \<Rightarrow> sb_message \<Rightarrow> 'x \<times> goerror option) \<Rightarrow> 'x \<Rightarrow> dead_letter_entry \<Rightarrow> 'x \<times> goerror option" where
  "RecordPasswordSyncFailure send x entry =
     (let entry = entry\<lparr>dlPassword := []\<rparr> in
      case marshal_entry entry of
        Inl err \<Rightarrow> (x, Some (Wrapped ''marshal password sync dead-letter message: '' err))
      | Inr body \<Rightarrow>
          (case send x (dead_letter_sb_message entry body) of
             (x', Some err) \<Rightarrow> (x', Some (Wrapped ''send password sync dead-letter message: '' err))
           | (x', None) \<Rightarrow> (x', None)))"

section \<open>Receiving and settling\<close>

text \<open>
  The receiver keeps, for every worker message it handed out, the message of the SDK. A fresh
  address is the next number.
\<close>

record 'x receiver_state =
  rcNative :: "nat \<rightharpoonup> sb_received"
  rcNext :: nat
  rcSDK :: 'x

definition ensureNativeReceiver :: "sb_receiver option \<Rightarrow> goerror option" where
  "ensureNativeReceiver r =
     (if r = None \<or> sbrReceiver (the r) = None then Some (ErrorString ''service bus receiver is required'') else None)"

definition messageKind :: "sb_received option \<Rightarrow> string" where
  "messageKind msg =
     (case msg of
        None \<Rightarrow> []
      | Some m \<Rightarrow> (case srKind m of
                     Some v \<Rightarrow> v
                   | None \<Rightarrow> (case srSubject m of Some s \<Rightarrow> s | None \<Rightarrow> [])))"

fun hand_out :: "sb_received list \<Rightarrow> (nat \<rightharpoonup> sb_received) \<Rightarrow> nat \<Rightarrow> worker_message list \<times> (nat \<rightharpoonup> sb_received) \<times> nat" where
  "hand_out [] native k = ([], native, k)"
| "hand_out (m # ms) native k =
     (case hand_out ms (native(k \<mapsto> m)) (Suc k) of
        (out, native', k') \<Rightarrow> (\<lparr>wmAddress = k, wmBody = srBody m, wmKind = messageKind (Some m)\<rparr> # out, native', k'))"

definition ReceiveMessages ::
  "('x \<Rightarrow> int \<Rightarrow> (goerror + sb_received list) \<times> 'x) \<Rightarrow> sb_receiver option \<Rightarrow> 'x receiver_state \<Rightarrow> int
     \<Rightarrow> (goerror + worker_message list) \<times> 'x receiver_state" where
  "ReceiveMessages receive r st maxMessages =
     (case ensureNativeReceiver r of
        Some err \<Rightarrow> (Inl err, st)
      | None \<Rightarrow>
          (case receive (rcSDK st) maxMessages of
             (Inl err, x) \<Rightarrow> (Inl err, st\<lparr>rcSDK := x\<rparr>)
           | (Inr messages, x) \<Rightarrow>
               (case hand_out messages (rcNative st) (rcNext st) of
                  (out, native, k) \<Rightarrow> (Inr out, \<lparr>rcNative = native, rcNext = k, rcSDK = x\<rparr>))))"

definition nativeMessage :: "'x receiver_state \<Rightarrow> worker_message option \<Rightarrow> goerror + sb_received" where
  "nativeMessage st msg =
     (case msg of
        Some m \<Rightarrow> (case rcNative st (wmAddress m) of
                     Some native \<Rightarrow> Inr native
                   | None \<Rightarrow> Inl (ErrorString ''worker message was not received by this service bus receiver''))
      | None \<Rightarrow> Inl (ErrorString ''worker message was not received by this service bus receiver''))"

definition zeroReceivedBodies ::
  "worker_message option \<Rightarrow> sb_received \<Rightarrow> worker_message option \<times> sb_received" where
  "zeroReceivedBodies msg native =
     (map_option (\<lambda>m. m\<lparr>wmBody := ZeroBytes (wmBody m)\<rparr>) msg, native\<lparr>srBody := ZeroBytes (srBody native)\<rparr>)"

text \<open>
  Settling: the answer, the state, and the message after the call. The SDK's own call is an
  argument; the entry is removed only when it succeeds.
\<close>

definition settle_native ::
  "('x \<Rightarrow> sb_received \<Rightarrow> goerror option \<times> 'x) \<Rightarrow> sb_receiver option \<Rightarrow> 'x receiver_state \<Rightarrow> worker_message option
     \<Rightarrow> goerror option \<times> 'x receiver_state \<times> worker_message option" where
  "settle_native sdk_settle r st msg =
     (case ensureNativeReceiver r of
        Some err \<Rightarrow> (Some err, st, msg)
      | None \<Rightarrow>
          (case nativeMessage st msg of
             Inl err \<Rightarrow> (Some err, st, msg)
           | Inr native \<Rightarrow>
               (let (msg', native') = zeroReceivedBodies msg native; a = wmAddress (the msg)
                in case sdk_settle (rcSDK st) native' of
                     (Some err, x) \<Rightarrow> (Some err, st\<lparr>rcNative := (rcNative st)(a \<mapsto> native'), rcSDK := x\<rparr>, msg')
                   | (None, x) \<Rightarrow> (None, st\<lparr>rcNative := (rcNative st)(a := None), rcSDK := x\<rparr>, msg'))))"

definition CompleteMessage ::
  "('x \<Rightarrow> sb_received \<Rightarrow> goerror option \<times> 'x) \<Rightarrow> sb_receiver option \<Rightarrow> 'x receiver_state \<Rightarrow> worker_message option
     \<Rightarrow> goerror option \<times> 'x receiver_state \<times> worker_message option" where
  "CompleteMessage sdk_complete = settle_native sdk_complete"

definition AbandonMessage ::
  "('x \<Rightarrow> sb_received \<Rightarrow> goerror option \<times> 'x) \<Rightarrow> sb_receiver option \<Rightarrow> 'x receiver_state \<Rightarrow> worker_message option
     \<Rightarrow> goerror option \<times> 'x receiver_state \<times> worker_message option" where
  "AbandonMessage sdk_abandon = settle_native sdk_abandon"

section \<open>Queue depth\<close>

record depth_probe =
  dpReader :: "(string \<Rightarrow> goerror + int) option"
  dpQueue :: string
  dpKind :: string

definition NewQueueDepthProbe :: "(string \<Rightarrow> goerror + int) option \<Rightarrow> string \<Rightarrow> string \<Rightarrow> depth_probe" where
  "NewQueueDepthProbe reader queueName kind =
     \<lparr>dpReader = reader, dpQueue = TrimSpace queueName, dpKind = TrimSpace kind\<rparr>"

definition NewSafeDLQDepthProbe :: "(string \<Rightarrow> goerror + int) option \<Rightarrow> string \<Rightarrow> depth_probe" where
  "NewSafeDLQDepthProbe reader queueName = NewQueueDepthProbe reader queueName ''safe_dlq''"

definition Probe :: "depth_probe option \<Rightarrow> (goerror + int) \<times> obs list" where
  "Probe p =
     (case p of
        None \<Rightarrow> (Inl (ErrorString ''queue depth reader is required''), [])
      | Some p \<Rightarrow>
          (case dpReader p of
             None \<Rightarrow> (Inl (ErrorString ''queue depth reader is required''), [])
           | Some reader \<Rightarrow>
               if dpQueue p = [] then (Inl (ErrorString ''queue depth queue name is required''), [])
               else case reader (dpQueue p) of
                 Inl err \<Rightarrow> (Inl (Wrapped ''read queue depth: '' err), [])
               | Inr depth \<Rightarrow>
                   (let kind = (if dpKind p = [] then ''active'' else dpKind p)
                    in (Inr depth, [SetGauge MetricQueueDepth depth [(''queue'', dpQueue p), (''kind'', kind)]]))))"

section \<open>Resources\<close>

text \<open>
  No constructor of the package leaks. When opening fails, what was opened before has
  been closed; when it succeeds, \<^verbatim>\<open>Close\<close> closes everything that was opened, also when parts of
  it report errors.
\<close>

theorem constructors_do_not_leak:
  "(case NewFromConnectionString sdk cs name ttl of
      (Inl e, evs) \<Rightarrow> still_open evs = [] | (Inr q, evs) \<Rightarrow> still_open (evs @ snd (Queue_Close sdk q)) = [])
   \<and> (case NewFromNamespace sdk ns cred name ttl of
      (Inl e, evs) \<Rightarrow> still_open evs = [] | (Inr q, evs) \<Rightarrow> still_open (evs @ snd (Queue_Close sdk q)) = [])
   \<and> (case NewReceiverFromConnectionString sdk cs name of
      (Inl e, evs) \<Rightarrow> still_open evs = [] | (Inr r, evs) \<Rightarrow> still_open (evs @ snd (Receiver_Close sdk r)) = [])
   \<and> (case NewReceiverFromNamespace sdk ns cred name of
      (Inl e, evs) \<Rightarrow> still_open evs = [] | (Inr r, evs) \<Rightarrow> still_open (evs @ snd (Receiver_Close sdk r)) = [])
   \<and> (case NewDeadLetterQueueFromConnectionString sdk cs name of
      (Inl e, evs) \<Rightarrow> still_open evs = [] | (Inr q, evs) \<Rightarrow> still_open (evs @ snd (DeadLetterQueue_Close sdk q)) = [])
   \<and> (case NewDeadLetterQueueFromNamespace sdk ns cred name of
      (Inl e, evs) \<Rightarrow> still_open evs = [] | (Inr q, evs) \<Rightarrow> still_open (evs @ snd (DeadLetterQueue_Close sdk q)) = [])"
  by (intro conjI)
    (simp_all add: NewFromConnectionString_def NewFromNamespace_def NewReceiverFromConnectionString_def
      NewReceiverFromNamespace_def NewDeadLetterQueueFromConnectionString_def NewDeadLetterQueueFromNamespace_def
      newClientFromConnectionString_def newClientFromNamespace_def open_on_client_def closeWithTimeout_def
      NewQueueWithClient_def NewReceiverWithClient_def NewDeadLetterQueueWithClient_def Queue_Close_def
      Receiver_Close_def DeadLetterQueue_Close_def close_part_def Let_def split: option.splits)

definition queue_handles :: "sb_queue \<Rightarrow> resource multiset" where
  "queue_handles q = mset (List.map_filter id [sbqSender q, sbqClient q])"

definition receiver_handles :: "sb_receiver \<Rightarrow> resource multiset" where
  "receiver_handles r = mset (List.map_filter id [sbrReceiver r, sbrClient r])"

definition dlq_handles :: "sb_dlq \<Rightarrow> resource multiset" where
  "dlq_handles q = mset (List.map_filter id [sbdSender q, sbdClient q])"

lemmas handles_defs = queue_handles_def receiver_handles_def dlq_handles_def

interpretation qc: closing queue_handles "Queue_Close sdk" for sdk
  by unfold_locales
    (simp_all add: Queue_Close_def handles_defs map_filter_simps close_part_def Let_def split: option.split)

interpretation rc: closing receiver_handles "Receiver_Close sdk" for sdk
  by unfold_locales
    (simp_all add: Receiver_Close_def handles_defs map_filter_simps close_part_def Let_def split: option.split)

interpretation dc: closing dlq_handles "DeadLetterQueue_Close sdk" for sdk
  by unfold_locales
    (simp_all add: DeadLetterQueue_Close_def handles_defs map_filter_simps close_part_def Let_def split: option.split)

lemma constructors_own:
  "owned queue_handles (NewFromConnectionString sdk cs name ttl)"
  "owned queue_handles (NewFromNamespace sdk ns cred name ttl)"
  "owned receiver_handles (NewReceiverFromConnectionString sdk cs name)"
  "owned receiver_handles (NewReceiverFromNamespace sdk ns cred name)"
  "owned dlq_handles (NewDeadLetterQueueFromConnectionString sdk cs name)"
  "owned dlq_handles (NewDeadLetterQueueFromNamespace sdk ns cred name)"
  by (simp_all add: owned_def NewFromConnectionString_def NewFromNamespace_def NewReceiverFromConnectionString_def
      NewReceiverFromNamespace_def NewDeadLetterQueueFromConnectionString_def NewDeadLetterQueueFromNamespace_def
      newClientFromConnectionString_def newClientFromNamespace_def open_on_client_def closeWithTimeout_def
      NewQueueWithClient_def NewReceiverWithClient_def NewDeadLetterQueueWithClient_def handles_defs map_filter_simps
      Let_def split: option.splits)

section \<open>The receiver as a set of outstanding messages\<close>

definition outstanding :: "'x receiver_state \<Rightarrow> nat \<rightharpoonup> nat" where
  "outstanding st a = map_option srId (rcNative st a)"

definition receiver_inv :: "'x receiver_state \<Rightarrow> bool" where
  "receiver_inv st \<longleftrightarrow> (\<forall>a. rcNative st a \<noteq> None \<longrightarrow> a < rcNext st)"

lemma hand_out_facts:
  assumes "hand_out ms native k = (out, native', k')"
  shows "map wmAddress out = [k..<k'] \<and> map wmBody out = map srBody ms
    \<and> map wmKind out = map (messageKind \<circ> Some) ms \<and> k' = k + length ms
    \<and> native' = native ++ map_of (zip [k..<k'] ms)"
  using assms
proof (induction ms native k arbitrary: out native' k' rule: hand_out.induct)
  case (2 m ms native k)
  obtain out1 native1 k1 where h: "hand_out ms (native(k \<mapsto> m)) (Suc k) = (out1, native1, k1)"
    by (metis prod_cases3)
  note ih = 2(1) [OF h]
  have "k < k1" using ih by linarith
  then have k1: "[k..<k1] = k # [Suc k..<k1]" by (rule upt_conv_Cons)
  have "map_of (zip [Suc k..<k1] ms) k = None" by (auto simp: map_of_eq_None_iff dest: set_zip_leftD)
  then have eq: "native(k \<mapsto> m) ++ map_of (zip [Suc k..<k1] ms) = native ++ map_of (zip (k # [Suc k..<k1]) (m # ms))"
    by (auto simp: map_add_def fun_eq_iff split: option.splits)
  have out: "out = \<lparr>wmAddress = k, wmBody = srBody m, wmKind = messageKind (Some m)\<rparr> # out1" "native' = native1" "k' = k1"
    using 2(2) h by simp_all
  show ?case unfolding out k1 using ih eq by (simp del: upt_Suc fun_upd_apply)
qed auto

lemma outstanding_map_of: "map_option srId (map_of (zip ks ms) a) = map_of (zip ks (map srId ms)) a"
  by (induction ks ms rule: list_induct2') auto

lemma settle_native_unknown:
  "outstanding st (wmAddress m) = None \<Longrightarrow>
   \<exists>err. settle_native f r st (Some m) = (Some err, st, Some m)"
  by (auto simp: settle_native_def nativeMessage_def outstanding_def split: option.splits)

lemma settle_native_known:
  assumes "ensureNativeReceiver r = None" and "rcNative st (wmAddress m) = Some native"
    and "native' = native\<lparr>srBody := ZeroBytes (srBody native)\<rparr>" and "f (rcSDK st) native' = (err, x)"
  shows "settle_native f r st (Some m) =
     (err, st\<lparr>rcNative := (rcNative st)(wmAddress m := if err = None then None else Some native'), rcSDK := x\<rparr>,
      Some (m\<lparr>wmBody := ZeroBytes (wmBody m)\<rparr>))"
  using assms by (cases err) (simp_all add: settle_native_def nativeMessage_def zeroReceivedBodies_def)

lemma receive_outstanding:
  assumes "receiver_inv st" and "ensureNativeReceiver r = None"
  shows "case ReceiveMessages receive r st n of
            (Inl e, st') \<Rightarrow> receiver_inv st' \<and> outstanding st' = outstanding st
          | (Inr out, st') \<Rightarrow> receiver_inv st' \<and> distinct (map wmAddress out)
               \<and> list_all (\<lambda>m. outstanding st (wmAddress m) = None) out
               \<and> (\<exists>messages x. receive (rcSDK st) n = (Inr messages, x) \<and> map wmBody out = map srBody messages
                    \<and> outstanding st' = outstanding st ++ map_of (zip (map wmAddress out) (map srId messages)))"
proof (cases "receive (rcSDK st) n")
  case (Pair res x)
  show ?thesis
  proof (cases res)
    case (Inl e)
    then show ?thesis using Pair assms(1,2) by (simp add: ReceiveMessages_def receiver_inv_def outstanding_def [abs_def])
  next
    case (Inr messages)
    obtain out native k where h: "hand_out messages (rcNative st) (rcNext st) = (out, native, k)" by (metis prod_cases3)
    note facts = hand_out_facts [OF h]
    have res: "ReceiveMessages receive r st n = (Inr out, \<lparr>rcNative = native, rcNext = k, rcSDK = x\<rparr>)"
      using Pair Inr h assms(2) by (simp add: ReceiveMessages_def)
    have fresh: "rcNative st a = None" if "rcNext st \<le> a" for a
      using assms(1) that by (metis leD receiver_inv_def)
    have "receiver_inv \<lparr>rcNative = native, rcNext = k, rcSDK = x\<rparr>"
      using assms(1) facts by (fastforce simp: receiver_inv_def map_add_def dest: map_of_SomeD set_zip_leftD split: option.splits)
    moreover have "list_all (\<lambda>m. outstanding st (wmAddress m) = None) out"
    proof -
      have "\<forall>a \<in> set (map wmAddress out). rcNext st \<le> a" using facts by simp
      then show ?thesis using fresh by (simp add: list_all_iff outstanding_def)
    qed
    moreover have "outstanding \<lparr>rcNative = native, rcNext = k, rcSDK = x\<rparr>
        = outstanding st ++ map_of (zip (map wmAddress out) (map srId messages))"
      using facts by (auto simp: outstanding_def fun_eq_iff map_add_def outstanding_map_of [symmetric] split: option.splits)
    ultimately show ?thesis using res Pair Inr facts by auto
  qed
qed

lemma settle_outstanding:
  assumes "receiver_inv st" and "ensureNativeReceiver r = None"
  shows "case settle_native f r st (Some m) of
            (err, st', m') \<Rightarrow> receiver_inv st'
              \<and> (case outstanding st (wmAddress m) of
                   None \<Rightarrow> err \<noteq> None \<and> st' = st
                 | Some i \<Rightarrow>
                     (\<exists>native. srId native = i \<and> zeroed (srBody native) \<and> f (rcSDK st) native = (err, rcSDK st'))
                     \<and> zeroed (wmBody (the m'))
                     \<and> outstanding st' = (if err = None then (outstanding st)(wmAddress m := None) else outstanding st))"
proof (cases "rcNative st (wmAddress m)")
  case None
  then show ?thesis using settle_native_unknown [of st m f r] assms(1) by (auto simp: outstanding_def)
next
  case (Some native)
  obtain err x where fx: "f (rcSDK st) (native\<lparr>srBody := ZeroBytes (srBody native)\<rparr>) = (err, x)" by force
  show ?thesis
    using settle_native_known [OF assms(2) Some refl, of f, OF fx] assms(1) Some fx
    by (auto simp: outstanding_def fun_eq_iff receiver_inv_def
        intro!: exI [of _ "native\<lparr>srBody := ZeroBytes (srBody native)\<rparr>"])
qed

text \<open>
  C20: the receiver settles what it received, once. It implements a finite map from the
  messages handed to the worker to the messages of the SDK: receiving adds fresh entries and
  hands out the same bodies, settling hands the entry's message to the SDK with its body
  zeroed, removes it when the SDK succeeds, and refuses a message that has no entry without
  calling the SDK.
\<close>

theorem receiver_tracks_outstanding:
  assumes "receiver_inv st" and "ensureNativeReceiver r = None" and "settle \<in> {CompleteMessage f, AbandonMessage f}"
  shows "(case ReceiveMessages receive r st n of
            (Inl e, st') \<Rightarrow> receiver_inv st' \<and> outstanding st' = outstanding st
          | (Inr out, st') \<Rightarrow> receiver_inv st' \<and> distinct (map wmAddress out)
               \<and> list_all (\<lambda>m. outstanding st (wmAddress m) = None) out
               \<and> (\<exists>messages x. receive (rcSDK st) n = (Inr messages, x) \<and> map wmBody out = map srBody messages
                    \<and> outstanding st' = outstanding st ++ map_of (zip (map wmAddress out) (map srId messages))))
       \<and> (case settle r st (Some m) of
            (err, st', m') \<Rightarrow> receiver_inv st'
              \<and> (case outstanding st (wmAddress m) of
                   None \<Rightarrow> err \<noteq> None \<and> st' = st
                 | Some i \<Rightarrow>
                     (\<exists>native. srId native = i \<and> zeroed (srBody native) \<and> f (rcSDK st) native = (err, rcSDK st'))
                     \<and> zeroed (wmBody (the m'))
                     \<and> outstanding st' = (if err = None then (outstanding st)(wmAddress m := None) else outstanding st)))"
proof -
  have settle: "settle = settle_native f" using assms(3) by (auto simp: CompleteMessage_def AbandonMessage_def)
  show ?thesis unfolding settle by (rule conjI [OF receive_outstanding [OF assms(1,2)] settle_outstanding [OF assms(1,2)]])
qed

definition sample_received :: "nat \<Rightarrow> sb_received" where
  "sample_received i = \<lparr>srId = i, srBody = [1, 2], srKind = Some ''password-sync'', srSubject = None\<rparr>"

definition sample_receiver_state :: "nat list receiver_state" where
  "sample_receiver_state = \<lparr>rcNative = [0 \<mapsto> sample_received 7], rcNext = 1, rcSDK = []\<rparr>"

definition sample_sb_receiver :: sb_receiver where
  "sample_sb_receiver = NewReceiver (Some (''receiver'', ''receiver''))"

theorem receiver_tracks_outstanding_witness:
  "outstanding (fst (snd (CompleteMessage (\<lambda>x native. (None, srId native # x)) (Some sample_sb_receiver)
     sample_receiver_state (Some \<lparr>wmAddress = 0, wmBody = [1, 2], wmKind = ''password-sync''\<rparr>)))) = Map.empty"
proof -
  let ?f = "\<lambda>x native. (None, srId native # x)"
  let ?m = "\<lparr>wmAddress = 0, wmBody = [1, 2], wmKind = ''password-sync''\<rparr>"
  have inv: "receiver_inv sample_receiver_state" "ensureNativeReceiver (Some sample_sb_receiver) = None"
    by (simp_all add: receiver_inv_def sample_receiver_state_def ensureNativeReceiver_def sample_sb_receiver_def
        NewReceiver_def NewReceiverWithClient_def)
  have out: "outstanding sample_receiver_state = [0 \<mapsto> 7]"
    by (simp add: outstanding_def fun_eq_iff sample_receiver_state_def sample_received_def)
  obtain err st' m' where c: "CompleteMessage ?f (Some sample_sb_receiver) sample_receiver_state (Some ?m) = (err, st', m')"
    by (metis prod_cases3)
  then have "err = None"
    using inv(2) by (auto simp: CompleteMessage_def settle_native_def nativeMessage_def sample_receiver_state_def
        zeroReceivedBodies_def split: option.splits)
  then show ?thesis
    using receiver_tracks_outstanding [OF inv, of "CompleteMessage ?f" ?f "\<lambda>x n. (Inr [], x)" 1 ?m] c out
    by simp
qed

section \<open>From the queue to the worker\<close>

text \<open>
  Service Bus delivers a message with the body, the application properties and the subject it
  was sent with.
\<close>

definition delivered :: "sb_message \<Rightarrow> sb_received \<Rightarrow> bool" where
  "delivered sent rm \<longleftrightarrow>
     srBody rm = sbBody sent \<and> srKind rm = map_of (sbProperties sent) ''kind'' \<and> srSubject rm = Some (sbSubject sent)"

definition complete_message :: "password_sync_message \<Rightarrow> bool" where
  "complete_message m \<longleftrightarrow>
     TrimSpace (msgCN m) \<noteq> [] \<and> TrimSpace (msgUPN m) \<noteq> [] \<and> TrimSpace (msgPasswordCiphertext m) \<noteq> []
     \<and> TrimSpace (msgPasswordNonce m) \<noteq> [] \<and> TrimSpace (msgPasswordKeyID m) \<noteq> []
     \<and> TrimSpace (msgPasswordAlg m) \<noteq> [] \<and> msgEnqueuedAt m \<noteq> 0"

definition worker_message_of :: "nat \<Rightarrow> sb_received \<Rightarrow> worker_message" where
  "worker_message_of a rm = \<lparr>wmAddress = a, wmBody = srBody rm, wmKind = messageKind (Some rm)\<rparr>"

lemma sync_kind_trim: "TrimSpace ''password-sync'' = ''password-sync''"
  by code_simp

lemma enqueue_sends:
  assumes "sendable msg" and "EnqueuePasswordSync send q x msg = (x', None)"
  obtains body where "marshal_message msg = Inr body" "unmarshal_message body = Inr msg"
    "send x (password_sync_sb_message q msg body) = (x', None)"
proof -
  obtain body where b: "marshal_message msg = Inr body" "unmarshal_message body = Inr msg"
    using unmarshal_marshal [OF assms(1)] by blast
  have "send x (password_sync_sb_message q msg body) = (x', None)"
    using assms(2) b(1) by (auto simp: EnqueuePasswordSync_def split: prod.splits option.splits)
  with b show thesis by (rule that)
qed

lemma delivered_decodes:
  assumes "unmarshal_message body = Inr msg" and "complete_message msg"
    and "delivered (password_sync_sb_message q msg body) rm"
  shows "decodePasswordSyncMessage encoding_json (Some (worker_message_of a rm)) = Inr msg"
  using assms
  by (simp add: decodePasswordSyncMessage_def worker_message_of_def delivered_def password_sync_sb_message_def
      messageKind_def sync_kind_trim passwordSyncKind_def encoding_json_def complete_message_def)

text \<open>
  C21: what the service enqueues is what the worker decodes. When a message with all required
  fields and well-formed text is accepted by the queue, exactly one Service Bus message was
  sent, and every delivery of it is decoded by the worker to the same message.
\<close>

theorem enqueued_message_decodes:
  assumes "sendable msg" and "complete_message msg" and "EnqueuePasswordSync send q x msg = (x', None)"
  shows "\<exists>sent. send x sent = (x', None)
           \<and> (\<forall>rm a. delivered sent rm \<longrightarrow>
                decodePasswordSyncMessage encoding_json (Some (worker_message_of a rm)) = Inr msg)"
  using enqueue_sends [OF assms(1,3)] delivered_decodes [OF _ assms(2)] by metis

definition sample_queue :: sb_queue where
  "sample_queue = \<lparr>sbqSender = Some (''queue'', ''sender''), sbqClient = None, sbqTTL = defaultTTL\<rparr>"

lemma sample_message_sendable: "sendable sample_sync_message" "complete_message sample_sync_message"
  by code_simp+

theorem enqueued_message_decodes_witness:
  "\<exists>sent. (\<lambda>x m. (Suc x, None :: goerror option)) 0 sent = (1, None)
     \<and> (\<forall>rm a. delivered sent rm \<longrightarrow>
          decodePasswordSyncMessage encoding_json (Some (worker_message_of a rm)) = Inr sample_sync_message)"
proof -
  obtain body where "marshal_message sample_sync_message = Inr body"
    using unmarshal_marshal [OF sample_message_sendable(1)] by blast
  then have "EnqueuePasswordSync (\<lambda>x m. (Suc x, None)) sample_queue 0 sample_sync_message = (1, None)"
    by (simp add: EnqueuePasswordSync_def)
  from enqueued_message_decodes [OF sample_message_sendable this] show ?thesis .
qed

end
