(* ===== verification/Sensitive_IO.thy ===== *)
theory Sensitive_IO
  imports Go_Base
begin

text \<open>
  Package \<^verbatim>\<open>internal/sensitiveio\<close> (\<^verbatim>\<open>read.go\<close>): reading a request body into memory
  without leaving copies behind. A slice is its contents and the spare part of its backing
  array, so that length and capacity are both present; the operations also return the final
  contents of every backing array they dropped.

  An \<^verbatim>\<open>io.Reader\<close> is the list of answers it still has to give: bytes, and possibly the
  end of the stream or an error with them. A read that asks for less than the next answer
  holds leaves the rest of it, and a list that is used up stands for the end of the stream.
\<close>

section \<open>Readers\<close>

datatype read_end = EOF | Failed goerror

type_synonym stream = "(byte list \<times> read_end option) list"

fun stream_read :: "nat \<Rightarrow> stream \<Rightarrow> byte list \<times> read_end option \<times> stream" where
  "stream_read n [] = ([], Some EOF, [])"
| "stream_read n ((bs, e) # rest) =
     (if length bs \<le> n then (bs, e, rest) else (take n bs, None, (drop n bs, e) # rest))"

text \<open>The bytes a reader delivers before it ends, and the error it ends with.\<close>

fun stream_bytes :: "stream \<Rightarrow> byte list" where
  "stream_bytes [] = []"
| "stream_bytes ((bs, None) # rest) = bs @ stream_bytes rest"
| "stream_bytes ((bs, Some e) # rest) = bs"

fun stream_error :: "stream \<Rightarrow> goerror option" where
  "stream_error [] = None"
| "stream_error ((bs, None) # rest) = stream_error rest"
| "stream_error ((bs, Some EOF) # rest) = None"
| "stream_error ((bs, Some (Failed e)) # rest) = Some e"

text \<open>
  \<^verbatim>\<open>io.LimitReader(r, n)\<close> as a reader of its own, and one call of its \<^verbatim>\<open>Read\<close> the way
  the standard library performs it on the underlying reader.
\<close>

fun LimitReader :: "nat \<Rightarrow> stream \<Rightarrow> stream" where
  "LimitReader n [] = []"
| "LimitReader n ((bs, e) # rest) =
     (if n = 0 then []
      else if length bs \<le> n then (bs, e) # LimitReader (n - length bs) rest
      else [(take n bs, None)])"

definition limited_read :: "nat \<Rightarrow> nat \<Rightarrow> stream \<Rightarrow> byte list \<times> read_end option \<times> nat \<times> stream" where
  "limited_read len n s =
     (if n = 0 then ([], Some EOF, n, s)
      else let (bs, e, rest) = stream_read (min len n) s in (bs, e, n - length bs, rest))"

definition bytes_NewReader :: "byte list \<Rightarrow> stream" where
  "bytes_NewReader bs = (if bs = [] then [] else [(bs, None)])"

lemma stream_bytes_NewReader [simp]: "stream_bytes (bytes_NewReader bs) = bs" "stream_error (bytes_NewReader bs) = None"
  by (simp_all add: bytes_NewReader_def)

text \<open>The answers of the limited reader are those of the standard library's.\<close>

lemma LimitReader_read:
  assumes "limited_read len n s = (bs, e, n', rest)"
  shows "stream_read len (LimitReader n s) = (bs, e, LimitReader n' rest) \<or> n = 0 \<and> bs = [] \<and> e = Some EOF"
proof (cases s)
  case Nil
  then show ?thesis using assms by (auto simp: limited_read_def split: if_splits)
next
  case (Cons c rest')
  obtain cs ce where "c = (cs, ce)" by force
  then show ?thesis using assms Cons
    by (auto simp: limited_read_def min_def drop_take le_diff_iff split: if_splits)
qed

lemma LimitReader_0 [simp]: "LimitReader 0 s = []"
  by (cases s) auto

lemma stream_bytes_LimitReader: "stream_bytes (LimitReader n s) = take n (stream_bytes s)"
proof (induction n s rule: LimitReader.induct)
  case (2 n bs e rest)
  then show ?case by (cases e) auto
qed simp

lemma stream_error_LimitReader:
  "stream_error (LimitReader n s) = None \<or> stream_error (LimitReader n s) = stream_error s"
proof (induction n s rule: LimitReader.induct)
  case (2 n bs e rest)
  then show ?case by (cases e rule: option.exhaust [case_names None Some]; cases "the e") auto
qed simp

text \<open>A limit that is not reached does not change what is read.\<close>

lemma stream_error_LimitReader_below:
  "length (stream_bytes s) < n \<Longrightarrow> stream_error (LimitReader n s) = stream_error s"
proof (induction n s rule: LimitReader.induct)
  case (2 n bs e rest)
  then show ?case by (cases e rule: option.exhaust [case_names None Some]; cases "the e") auto
qed simp

section \<open>Buffers\<close>

record rbuf =
  rbData :: "byte list"
  rbSpare :: "byte list"

definition rbCap :: "rbuf \<Rightarrow> nat" where
  "rbCap b = length (rbData b) + length (rbSpare b)"

definition make_buf :: "nat \<Rightarrow> rbuf" where
  "make_buf c = \<lparr>rbData = [], rbSpare = replicate c 0\<rparr>"

text \<open>The new buffer, and the old backing array after it was overwritten.\<close>

definition growZeroing :: "rbuf \<Rightarrow> nat \<Rightarrow> rbuf \<times> byte list" where
  "growZeroing buf minCapacity =
     (let newCapacity = rbCap buf + rbCap buf div 2;
          newCapacity = (if newCapacity < minCapacity then minCapacity else newCapacity);
          newCapacity = (if newCapacity = 0 then 512 else newCapacity);
          next = \<lparr>rbData = rbData buf, rbSpare = replicate (newCapacity - length (rbData buf)) 0\<rparr>
      in (next, ZeroBytes (rbData buf @ rbSpare buf)))"

definition grow_when :: "bool \<Rightarrow> rbuf \<Rightarrow> byte list list \<Rightarrow> rbuf \<times> byte list list" where
  "grow_when c buf dropped =
     (if c then let (next, old) = growZeroing buf (length (rbData buf) + 1) in (next, dropped @ [old])
      else (buf, dropped))"

definition buf_append :: "rbuf \<Rightarrow> byte list \<Rightarrow> rbuf" where
  "buf_append buf bs = \<lparr>rbData = rbData buf @ bs, rbSpare = drop (length bs) (rbSpare buf)\<rparr>"

lemma growZeroing_simps [simp]:
  "rbData (fst (growZeroing buf m)) = rbData buf"
  "zeroed (snd (growZeroing buf m))"
  "length (rbData buf) < m \<Longrightarrow> rbSpare (fst (growZeroing buf m)) \<noteq> []"
  by (auto simp: growZeroing_def Let_def rbCap_def)

lemma grow_when_data [simp]: "rbData (fst (grow_when c buf dropped)) = rbData buf"
  by (simp add: grow_when_def split_beta)

lemma grow_when_dropped: "\<exists>new. snd (grow_when c buf dropped) = dropped @ new \<and> list_all zeroed new"
  by (cases c) (simp_all add: grow_when_def split_beta)

lemma grow_when_spare: "rbSpare (fst (grow_when (rbSpare buf = []) buf dropped)) \<noteq> []"
  by (simp add: grow_when_def split_beta)

fun stream_weight :: "stream \<Rightarrow> nat" where
  "stream_weight [] = 0"
| "stream_weight ((bs, e) # rest) = length bs + 1 + stream_weight rest"

lemma stream_read_weight:
  "0 < n \<Longrightarrow> stream_read n s = (bs, None, rest) \<Longrightarrow> stream_weight rest < stream_weight s"
  by (cases "(n, s)" rule: stream_read.cases) (auto split: if_splits)

section \<open>ReadAll\<close>

text \<open>
  One turn of the loop: the result, or the slice, the dropped arrays and the reader for the
  next turn. The slice is full exactly when nothing is spare.
\<close>

type_synonym read_state = "rbuf \<times> byte list list \<times> stream"

definition read_step :: "read_state \<Rightarrow> rbuf \<times> goerror option \<times> byte list list + read_state" where
  "read_step = (\<lambda>(buf, dropped, s).
     let (buf, dropped) = grow_when (rbSpare buf = []) buf dropped;
         (bs, e, rest) = stream_read (length (rbSpare buf)) s;
         buf = buf_append buf bs
     in case e of
          Some EOF \<Rightarrow> Inl (buf, None, dropped)
        | Some (Failed err) \<Rightarrow> Inl (buf, Some err, dropped)
        | None \<Rightarrow>
            (let (buf, dropped) = grow_when (length (rbSpare buf) < rbCap buf div 16) buf dropped
             in Inr (buf, dropped, rest)))"

lemma read_step_weight: "read_step (buf, dropped, s) = Inr (buf', dropped', rest) \<Longrightarrow> stream_weight rest < stream_weight s"
  using stream_read_weight [of "length (rbSpare (fst (grow_when (rbSpare buf = []) buf dropped)))" s]
    grow_when_spare [of buf dropped]
  by (auto simp: read_step_def Let_def split: prod.splits option.splits read_end.splits)

function read_loop :: "read_state \<Rightarrow> rbuf \<times> goerror option \<times> byte list list" where
  "read_loop st = (case read_step st of Inl r \<Rightarrow> r | Inr st' \<Rightarrow> read_loop st')"
  by pat_completeness auto
termination
  by (relation "measure (\<lambda>(buf, dropped, s). stream_weight s)")
    (auto dest: read_step_weight)

declare read_loop.simps [simp del]

definition ReadAll :: "stream \<Rightarrow> rbuf \<times> goerror option \<times> byte list list" where
  "ReadAll s = read_loop (make_buf 512, [], s)"

section \<open>What is read\<close>

lemma stream_read_bytes:
  assumes "stream_read n s = (bs, e, rest)"
  shows "case e of
      None \<Rightarrow> stream_bytes s = bs @ stream_bytes rest \<and> stream_error s = stream_error rest
    | Some EOF \<Rightarrow> stream_bytes s = bs \<and> stream_error s = None
    | Some (Failed err) \<Rightarrow> stream_bytes s = bs \<and> stream_error s = Some err"
proof (cases s)
  case Nil
  then show ?thesis using assms by auto
next
  case (Cons c rest')
  obtain cs ce where c: "c = (cs, ce)" by force
  show ?thesis
    using assms Cons c
    by (cases ce rule: option.exhaust [case_names None Some]; cases "the ce")
      (auto split: if_splits read_end.splits option.splits)
qed

definition reads_on :: "rbuf \<Rightarrow> byte list list \<Rightarrow> stream \<Rightarrow> rbuf \<times> goerror option \<times> byte list list \<Rightarrow> bool" where
  "reads_on buf dropped s = (\<lambda>(buf', err, dropped').
     rbData buf' = rbData buf @ stream_bytes s \<and> err = stream_error s
     \<and> (\<exists>new. dropped' = dropped @ new \<and> list_all zeroed new))"

lemma read_step_correct:
  "case read_step (buf, dropped, s) of
     Inl r \<Rightarrow> reads_on buf dropped s r
   | Inr (buf', dropped', rest) \<Rightarrow>
       (\<exists>bs. rbData buf' = rbData buf @ bs \<and> stream_bytes s = bs @ stream_bytes rest)
       \<and> stream_error s = stream_error rest \<and> (\<exists>new. dropped' = dropped @ new \<and> list_all zeroed new)"
proof -
  obtain b1 d1 where g1: "grow_when (rbSpare buf = []) buf dropped = (b1, d1)" by force
  obtain bs e rest where r: "stream_read (length (rbSpare b1)) s = (bs, e, rest)" by (metis prod_cases3)
  define b2 where "b2 = buf_append b1 bs"
  obtain b3 d3 where g3: "grow_when (length (rbSpare b2) < rbCap b2 div 16) b2 d1 = (b3, d3)" by force
  obtain n1 where n1: "d1 = dropped @ n1" "list_all zeroed n1"
    using grow_when_dropped [of "rbSpare buf = []" buf dropped] g1 by auto
  obtain n3 where n3: "d3 = d1 @ n3" "list_all zeroed n3"
    using grow_when_dropped [of "length (rbSpare b2) < rbCap b2 div 16" b2 d1] g3 by auto
  have data: "rbData b1 = rbData buf" "rbData b3 = rbData b2"
    using grow_when_data [of "rbSpare buf = []" buf dropped] g1
      grow_when_data [of "length (rbSpare b2) < rbCap b2 div 16" b2 d1] g3
    by simp_all
  have data2: "rbData b2 = rbData b1 @ bs" by (simp add: b2_def buf_append_def)
  have step: "read_step (buf, dropped, s) =
      (case e of Some EOF \<Rightarrow> Inl (b2, None, d1) | Some (Failed err) \<Rightarrow> Inl (b2, Some err, d1)
       | None \<Rightarrow> Inr (b3, d3, rest))"
    using g1 r g3 unfolding b2_def
    by (cases e rule: option.exhaust [case_names None Some]; cases "the e") (simp_all add: read_step_def)
  show ?thesis
    using stream_read_bytes [OF r] step data data2 n1 n3
    by (cases e rule: option.exhaust [case_names None Some]; cases "the e") (auto simp: reads_on_def)
qed

lemma read_loop_correct: "reads_on (fst st) (fst (snd st)) (snd (snd st)) (read_loop st)"
proof (induction st rule: read_loop.induct)
  case (1 st)
  obtain buf dropped s where st: "st = (buf, dropped, s)" by (metis prod_cases3)
  show ?case
  proof (cases "read_step st")
    case (Inl r)
    then show ?thesis using read_step_correct [of buf dropped s] st
      by (simp add: read_loop.simps [of "(buf, dropped, s)"])
  next
    case (Inr st')
    obtain b' d' rest where st': "st' = (b', d', rest)" by (metis prod_cases3)
    have "reads_on b' d' rest (read_loop st')" using 1 [OF Inr] st' by simp
    moreover have "read_loop st = read_loop st'" using Inr by (simp add: read_loop.simps [of st])
    ultimately show ?thesis
      using read_step_correct [of buf dropped s] st st' Inr by (auto simp: reads_on_def split: prod.splits)
  qed
qed

text \<open>
  Reading a body returns exactly the bytes the reader delivered before it ended, with
  the reader's error, also after any number of buffer changes; every backing array that was
  outgrown is left zeroed. The loop ends for every reader.
\<close>

theorem ReadAll_exact_and_clean:
  "\<exists>buf dropped. ReadAll s = (buf, stream_error s, dropped) \<and> rbData buf = stream_bytes s
     \<and> list_all zeroed dropped"
  using read_loop_correct [of "(make_buf 512, [], s)"]
  by (auto simp: ReadAll_def reads_on_def make_buf_def split: prod.splits)

text \<open>The same, for use in other proofs.\<close>

lemma ReadAll_obtain:
  obtains buf dropped where "ReadAll s = (buf, stream_error s, dropped)" "rbData buf = stream_bytes s"
    "list_all zeroed dropped"
  using read_loop_correct [of "(make_buf 512, [], s)"]
  by (auto simp: ReadAll_def reads_on_def make_buf_def split: prod.splits)

end
