(* ===== verification/Http.thy ===== *)
theory Http
  imports Observability Sensitive_IO
begin

text \<open>
  The HTTP layer that is common to all handlers: \<^verbatim>\<open>pkg/problem\<close>, \<^verbatim>\<open>internal/requestid\<close>, and
  of \<^verbatim>\<open>internal/middleware\<close> the files \<^verbatim>\<open>observability.go\<close>, \<^verbatim>\<open>recovery.go\<close> and
  \<^verbatim>\<open>accesslog.go\<close>.

  A handler maps a request and a state to a reply: how the call ended, the calls it made on
  the response writer and on logger and recorder, in order, the final contents of the buffers
  that held request data, and the new state. A middleware maps a handler to a handler. What
  the handlers of one request ask of clock and random source is in the record \<open>http_env\<close>.
\<close>

section \<open>Requests and replies\<close>

fun canonical_key :: "bool \<Rightarrow> string \<Rightarrow> string" where
  "canonical_key up [] = []"
| "canonical_key up (c # cs) =
     (if up \<and> 97 \<le> ord c \<and> ord c \<le> 122 then char_of (ord c - 32)
      else if \<not> up then lower_ascii c else c) # canonical_key (c = CHR ''-'') cs"

definition CanonicalHeaderKey :: "string \<Rightarrow> string" where
  "CanonicalHeaderKey s = canonical_key True s"

record http_request =
  rqMethod :: string
  rqPath :: string
  rqRemoteAddr :: string
  rqHeader :: "string \<Rightarrow> string list"
  rqBody :: stream
  rqTraceID :: string

definition header_Values :: "http_request \<Rightarrow> string \<Rightarrow> string list" where
  "header_Values r name = rqHeader r (CanonicalHeaderKey name)"

definition header_Get :: "http_request \<Rightarrow> string \<Rightarrow> string" where
  "header_Get r name = (case header_Values r name of [] \<Rightarrow> [] | v # vs \<Rightarrow> v)"

datatype json_value = JString string | JInt int

datatype rw =
    SetHeader string string
  | WriteHeader int
  | WriteBody "(string \<times> json_value) list"
  | WriteText string

record http_env =
  heRandom :: "byte list option"
  heStart :: instant
  heRate :: instant
  heHmac :: instant
  heNonce :: instant
  heFresh :: instant
  heSubmit :: instant
  heEnd :: instant

record 's reply =
  rpResult :: "unit outcome"
  rpWrites :: "rw list"
  rpObs :: "obs list"
  rpBuffers :: "byte list list"
  rpState :: 's

type_synonym 's handler = "http_env \<Rightarrow> http_request \<Rightarrow> 's \<Rightarrow> 's reply"

text \<open>
  The status the client sees: the first one written, or 200 when a body is written first or
  nothing is written at all.
\<close>

fun response_status :: "rw list \<Rightarrow> int" where
  "response_status [] = 200"
| "response_status (SetHeader k v # ws) = response_status ws"
| "response_status (WriteHeader st # ws) = st"
| "response_status (WriteBody b # ws) = 200"
| "response_status (WriteText t # ws) = 200"

section \<open>Problem documents\<close>

definition DefaultBaseURL :: string where
  "DefaultBaseURL = ''https://nycu.edu.tw/problems''"

record problem =
  pbType :: string
  pbTitle :: string
  pbStatus :: int
  pbDetail :: string
  pbInstance :: string
  pbTraceID :: string

definition typeURL :: "string \<Rightarrow> string \<Rightarrow> string" where
  "typeURL baseURL slug =
     (let baseURL = TrimRightChar CHR ''/'' baseURL;
          baseURL = (if baseURL = [] then DefaultBaseURL else baseURL)
      in baseURL @ ''/'' @ slug)"

definition NewProblem :: "string \<Rightarrow> string \<Rightarrow> int \<Rightarrow> string \<Rightarrow> string \<Rightarrow> string \<Rightarrow> problem" where
  "NewProblem problemType title status detail inst traceID =
     \<lparr>pbType = problemType, pbTitle = title, pbStatus = status, pbDetail = detail, pbInstance = inst,
      pbTraceID = traceID\<rparr>"

definition Validation :: "string \<Rightarrow> string \<Rightarrow> string \<Rightarrow> string \<Rightarrow> problem" where
  "Validation baseURL inst traceID detail =
     NewProblem (typeURL baseURL ''validation-error'') ''Validation Error'' 400 detail inst traceID"

definition Unauthorized :: "string \<Rightarrow> string \<Rightarrow> string \<Rightarrow> string \<Rightarrow> problem" where
  "Unauthorized baseURL inst traceID detail =
     NewProblem (typeURL baseURL ''unauthorized'') ''Unauthorized'' 401 detail inst traceID"

definition TooManyRequests :: "string \<Rightarrow> string \<Rightarrow> string \<Rightarrow> string \<Rightarrow> problem" where
  "TooManyRequests baseURL inst traceID detail =
     NewProblem (typeURL baseURL ''too-many-requests'') ''Too Many Requests'' 429 detail inst traceID"

definition PayloadTooLarge :: "string \<Rightarrow> string \<Rightarrow> string \<Rightarrow> string \<Rightarrow> problem" where
  "PayloadTooLarge baseURL inst traceID detail =
     NewProblem (typeURL baseURL ''payload-too-large'') ''Payload Too Large'' 413 detail inst traceID"

definition Internal :: "string \<Rightarrow> string \<Rightarrow> string \<Rightarrow> string \<Rightarrow> problem" where
  "Internal baseURL inst traceID detail =
     NewProblem (typeURL baseURL ''internal-error'') ''Internal Server Error'' 500 detail inst traceID"

lemmas problem_defs = NewProblem_def Validation_def Unauthorized_def TooManyRequests_def PayloadTooLarge_def
  Internal_def

text \<open>The members of the encoded document; empty ones marked \<^verbatim>\<open>omitempty\<close> are left out.\<close>

definition omitempty :: "string \<Rightarrow> string \<Rightarrow> (string \<times> json_value) list" where
  "omitempty name v = (if v = [] then [] else [(name, JString v)])"

definition problem_members :: "problem \<Rightarrow> (string \<times> json_value) list" where
  "problem_members p =
     [(''type'', JString (pbType p)), (''title'', JString (pbTitle p)), (''status'', JInt (pbStatus p))]
     @ omitempty ''detail'' (pbDetail p) @ omitempty ''instance'' (pbInstance p) @ omitempty ''traceId'' (pbTraceID p)"

definition problem_Write :: "problem \<Rightarrow> rw list" where
  "problem_Write p =
     [SetHeader ''Content-Type'' ''application/problem+json'', WriteHeader (pbStatus p), WriteBody (problem_members p)]"

lemma response_status_problem [simp]: "response_status (problem_Write p @ ws) = pbStatus p"
  by (simp add: problem_Write_def)

lemma problem_statuses [simp]:
  "pbStatus (Validation b i t d) = 400" "pbStatus (Unauthorized b i t d) = 401"
  "pbStatus (TooManyRequests b i t d) = 429" "pbStatus (PayloadTooLarge b i t d) = 413"
  "pbStatus (Internal b i t d) = 500"
  by (simp_all add: problem_defs)

section \<open>Middleware outcomes\<close>

definition recordMiddlewareOutcome ::
  "bool \<Rightarrow> string \<Rightarrow> string \<Rightarrow> int \<Rightarrow> string \<Rightarrow> string \<Rightarrow> attr list \<Rightarrow> obs list" where
  "recordMiddlewareOutcome logger traceID middlewareName status outcome reason extra =
     (let labels = [(''middleware'', middlewareName), (''status'', decimal_int status), (''outcome'', outcome)]
                   @ (if reason \<noteq> [] then [(''reason'', reason)] else []);
          action = (if outcome = ''panic_recovered'' then ActionMiddlewareRecovered else ActionMiddlewareRejected);
          attrs = [AttrString ''action'' action, AttrString ''traceId'' traceID,
                   AttrString ''middleware'' middlewareName, AttrInt ''status'' status,
                   AttrString ''outcome'' outcome]
                  @ (if reason \<noteq> [] then [AttrString ''reason'' reason] else []) @ extra
      in Inc MetricMiddlewareRequestsTotal labels # (if logger then [LogAttrs action attrs] else []))"

text \<open>A reply that ends the request with a problem document and changes nothing.\<close>

definition reject :: "obs list \<Rightarrow> problem \<Rightarrow> byte list list \<Rightarrow> 's \<Rightarrow> 's reply" where
  "reject observed p bufs s =
     \<lparr>rpResult = Returned (), rpWrites = problem_Write p, rpObs = observed, rpBuffers = bufs, rpState = s\<rparr>"

section \<open>Request identifiers\<close>

definition requestid_Header :: string where "requestid_Header = ''X-Request-ID''"

definition requestid_New :: "byte list option \<Rightarrow> string" where
  "requestid_New random = (case random of None \<Rightarrow> ''unknown'' | Some b \<Rightarrow> hex_EncodeToString b)"

definition requestid_With :: "http_request \<Rightarrow> string \<Rightarrow> http_request" where
  "requestid_With r i = r\<lparr>rqTraceID := i\<rparr>"

definition requestid_From :: "http_request \<Rightarrow> string" where
  "requestid_From r = rqTraceID r"

definition requestid_Middleware :: "'s handler \<Rightarrow> 's handler" where
  "requestid_Middleware next env r s =
     (let i = TrimSpace (header_Get r requestid_Header);
          i = (if i = [] then requestid_New (heRandom env) else i);
          reply = next env (requestid_With r i) s
      in reply\<lparr>rpWrites := SetHeader (CanonicalHeaderKey requestid_Header) i # rpWrites reply\<rparr>)"

section \<open>Recovery\<close>

definition RecoveryWithOptions :: "string \<Rightarrow> 's handler \<Rightarrow> 's handler" where
  "RecoveryWithOptions problemBase next env r s =
     (let problemBase = (if TrimSpace problemBase = [] then DefaultBaseURL else problemBase);
          reply = next env r s
      in case rpResult reply of
           Returned u \<Rightarrow> reply
         | Panicked recovered \<Rightarrow>
             reply\<lparr>rpResult := Returned (),
                   rpWrites := rpWrites reply
                     @ problem_Write (Internal problemBase (rqPath r) (requestid_From r) ''unexpected server error''),
                   rpObs := rpObs reply
                     @ recordMiddlewareOutcome True (requestid_From r) ''recovery'' 500 ''panic_recovered'' ''panic'' []\<rparr>)"

definition RecoveryWithProblemBase :: "string \<Rightarrow> 's handler \<Rightarrow> 's handler" where
  "RecoveryWithProblemBase problemBase = RecoveryWithOptions problemBase"

definition Recovery :: "'s handler \<Rightarrow> 's handler" where
  "Recovery = RecoveryWithOptions DefaultBaseURL"

section \<open>Access log\<close>

text \<open>The status the wrapped response writer remembers.\<close>

fun statusRecorder :: "int \<Rightarrow> rw list \<Rightarrow> int" where
  "statusRecorder status [] = status"
| "statusRecorder status (SetHeader k v # ws) = statusRecorder status ws"
| "statusRecorder status (WriteHeader st # ws) = statusRecorder st ws"
| "statusRecorder status (WriteBody b # ws) = statusRecorder (if status = 0 then 200 else status) ws"
| "statusRecorder status (WriteText t # ws) = statusRecorder (if status = 0 then 200 else status) ws"

definition AccessLog :: "bool \<Rightarrow> 's handler \<Rightarrow> 's handler" where
  "AccessLog log next env r s =
     (if \<not> log then next env r s
      else let reply = next env r s in
        case rpResult reply of
          Panicked p \<Rightarrow> reply
        | Returned u \<Rightarrow>
            (let status = statusRecorder 0 (rpWrites reply);
                 status = (if status = 0 then 200 else status)
             in reply\<lparr>rpObs := rpObs reply
                  @ [LogAttrs ''request''
                       [AttrString ''traceId'' (requestid_From r), AttrString ''method'' (rqMethod r),
                        AttrString ''path'' (rqPath r), AttrInt ''status'' status,
                        AttrInt ''durationMs'' (duration_Milliseconds (time_Sub (heEnd env) (heStart env)))]]\<rparr>))"

section \<open>Lemmas\<close>

fun written :: "rw \<Rightarrow> bool" where
  "written (SetHeader k v) = False"
| "written _ = True"

text \<open>
  A response is \<open>single\<close> when one status is written, before any body: then the access log
  records what the client sees.
\<close>

definition single :: "rw list \<Rightarrow> bool" where
  "single ws \<longleftrightarrow> (\<exists>pre st post. ws = pre @ WriteHeader st # post \<and> st \<noteq> 0
     \<and> list_all (\<lambda>w. \<not> written w) pre \<and> list_all (\<lambda>w. \<forall>st. w \<noteq> WriteHeader st) post)"

lemma statusRecorder_headers: "list_all (\<lambda>w. \<not> written w) ws \<Longrightarrow> statusRecorder st (ws @ vs) = statusRecorder st vs"
  by (induction ws) (auto elim!: written.elims)

lemma response_status_headers: "list_all (\<lambda>w. \<not> written w) ws \<Longrightarrow> response_status (ws @ vs) = response_status vs"
  by (induction ws) (auto elim!: written.elims)

lemma statusRecorder_rest: "st \<noteq> 0 \<Longrightarrow> list_all (\<lambda>w. \<forall>st. w \<noteq> WriteHeader st) ws \<Longrightarrow> statusRecorder st ws = st"
  by (induction st ws rule: statusRecorder.induct) auto

lemma statusRecorder_single: "single ws \<Longrightarrow> statusRecorder 0 ws = response_status ws"
  by (auto simp: single_def statusRecorder_headers response_status_headers statusRecorder_rest)

lemma single_problem [simp]: "pbStatus p \<noteq> 0 \<Longrightarrow> single (problem_Write p)"
  unfolding single_def problem_Write_def
  by (intro exI [of _ "[SetHeader ''Content-Type'' ''application/problem+json'']"] exI [of _ "pbStatus p"]
      exI [of _ "[WriteBody (problem_members p)]"]) simp

lemma single_WriteHeader [simp]: "st \<noteq> 0 \<Longrightarrow> single [WriteHeader st]"
  unfolding single_def by (intro exI [of _ "[]"] exI [of _ st]) simp

lemma reject_simps [simp]:
  "rpResult (reject observed p bufs s) = Returned ()" "rpWrites (reject observed p bufs s) = problem_Write p"
  "rpObs (reject observed p bufs s) = observed" "rpBuffers (reject observed p bufs s) = bufs"
  "rpState (reject observed p bufs s) = s"
  by (simp_all add: reject_def)

text \<open>Recovery turns every panic into a reply.\<close>

lemma Recovery_returns [simp]: "rpResult (RecoveryWithOptions base next env r s) = Returned ()"
  by (cases "rpResult (next env r s)") (simp_all add: RecoveryWithOptions_def Let_def)

lemma Recovery_state [simp]:
  "rpState (RecoveryWithOptions base next env r s) = rpState (next env r s)"
  "rpBuffers (RecoveryWithOptions base next env r s) = rpBuffers (next env r s)"
  by (simp_all add: RecoveryWithOptions_def Let_def split: outcome.splits)

lemma AccessLog_simps [simp]:
  "rpResult (AccessLog log next env r s) = rpResult (next env r s)"
  "rpWrites (AccessLog log next env r s) = rpWrites (next env r s)"
  "rpState (AccessLog log next env r s) = rpState (next env r s)"
  "rpBuffers (AccessLog log next env r s) = rpBuffers (next env r s)"
  by (simp_all add: AccessLog_def Let_def split: outcome.splits)

end
