(* ===== verification/Hook.thy ===== *)
theory Hook
  imports Migration Http Go_Json
begin

text \<open>
  The handler of the password hook, \<^verbatim>\<open>internal/handler/hook.go\<close> (its byte-level string
  decoder is in theory \<open>Json_Password\<close>). The state of the handler is that of the status store
  and of the queue behind the migration service.
\<close>

section \<open>The request body\<close>

record hook_request =
  hkCN :: string
  hkEventType :: event_type
  hkPassword :: "byte list"
  hkDisplayName :: string
  hkMail :: string

text \<open>
  While the body is decoded, the structure is kept together with the final contents of the
  password buffers that were given up: the previous one, and the scratch buffer of a failed
  decoding.
\<close>

type_synonym hook_decoding = "hook_request \<times> byte list list"

definition empty_hook_request :: hook_request where
  "empty_hook_request = \<lparr>hkCN = [], hkEventType = [], hkPassword = [], hkDisplayName = [], hkMail = []\<rparr>"

definition password_field :: "hook_decoding field" where
  "password_field =
     custom_field ''password'' (\<lambda>data (h, bufs).
       case passwordBytes_UnmarshalJSON (hkPassword h) data of
         (None, p, previous, scratch) \<Rightarrow> (False, (h\<lparr>hkPassword := p\<rparr>, bufs @ [previous]))
       | (Some e, p, previous, scratch) \<Rightarrow> (True, (h\<lparr>hkPassword := p\<rparr>, bufs @ [previous, scratch])))"

definition hook_fields :: "hook_decoding field list" where
  "hook_fields =
     [string_field ''cn'' (\<lambda>s (h, bufs). (h\<lparr>hkCN := s\<rparr>, bufs)),
      string_field ''eventType'' (\<lambda>s (h, bufs). (h\<lparr>hkEventType := s\<rparr>, bufs)),
      password_field,
      string_field ''displayName'' (\<lambda>s (h, bufs). (h\<lparr>hkDisplayName := s\<rparr>, bufs)),
      string_field ''mail'' (\<lambda>s (h, bufs). (h\<lparr>hkMail := s\<rparr>, bufs))]"

definition unmarshal_hook_request :: "byte list \<Rightarrow> bool \<times> hook_decoding" where
  "unmarshal_hook_request data = Unmarshal hook_fields data (empty_hook_request, [])"

definition validate :: "hook_request \<Rightarrow> string" where
  "validate r =
     (if TrimSpace (hkCN r) = [] then ''Field 'cn' is required''
      else if hkPassword r = [] then ''Field 'password' is required''
      else if TrimSpace (hkDisplayName r) = [] then ''Field 'displayName' is required''
      else if TrimSpace (hkMail r) = [] then ''Field 'mail' is required''
      else if TrimSpace (hkEventType r) = [] then ''Field 'eventType' is required''
      else if \<not> ValidEventType (hkEventType r)
      then ''Field 'eventType' must be one of login_bootstrap, password_change, password_recovery''
      else [])"

section \<open>Recording\<close>

definition recordRejected :: "http_request \<Rightarrow> int \<Rightarrow> string \<Rightarrow> event_type \<Rightarrow> obs list" where
  "recordRejected r status outcome eventType =
     [Inc MetricHookRequestsTotal
        ([(''status'', decimal_int status), (''outcome'', outcome)]
         @ (if eventType \<noteq> [] then [(''eventType'', eventType)] else [])),
      LogAttrs ActionHookRejected
        ([AttrString ''action'' ActionHookRejected, AttrInt ''status'' status, AttrString ''outcome'' outcome]
         @ SafeIdentityAttrs (emptyIdentity\<lparr>idTraceID := requestid_From r, idEventType := eventType\<rparr>))]"

definition recordDecision :: "http_request \<Rightarrow> int \<Rightarrow> event_type \<Rightarrow> decision \<Rightarrow> obs list" where
  "recordDecision r status eventType decision =
     (let outcome = (if decSkipped decision then ''skipped''
                     else if decEnqueued decision then ''enqueued'' else ''accepted'');
          labels = [(''status'', decimal_int status), (''outcome'', outcome), (''eventType'', eventType),
                    (''identityType'', decIdentityType decision)]
                   @ (if decReason decision \<noteq> [] then [(''reason'', decReason decision)] else []);
          action = (if decSkipped decision then ActionHookSkipped else ActionHookAccepted)
      in [Inc MetricHookRequestsTotal labels]
         @ (if decSkipped decision then [Inc MetricMigrationSkippedTotal labels] else [])
         @ [LogAttrs action
              ([AttrString ''action'' action, AttrString ''outcome'' outcome, AttrInt ''status'' status]
               @ SafeIdentityAttrs (emptyIdentity\<lparr>idTraceID := requestid_From r, idUPN := decUPN decision,
                    idEventType := eventType, idIdentityType := decIdentityType decision\<rparr>)
               @ (if decReason decision \<noteq> [] then [AttrString ''reason'' (decReason decision)] else []))])"

section \<open>The handler\<close>

record ('s, 'q) hook =
  hookService :: "('s, 'q) service"
  hookProblemBaseURL :: string

definition NewHookWithOptions :: "('s, 'q) service \<Rightarrow> string \<Rightarrow> ('s, 'q) hook" where
  "NewHookWithOptions svc problemBaseURL =
     \<lparr>hookService = svc, hookProblemBaseURL = TrimRightChar CHR ''/'' problemBaseURL\<rparr>"

definition NewHook :: "('s, 'q) service \<Rightarrow> string \<Rightarrow> ('s, 'q) hook" where
  "NewHook svc problemBaseURL = NewHookWithOptions svc problemBaseURL"

definition hook_problem :: "('s, 'q) hook \<Rightarrow> http_request \<Rightarrow> string \<Rightarrow> problem" where
  "hook_problem h r detail = Validation (hookProblemBaseURL h) (rqPath r) (requestid_From r) detail"

definition submit_request :: "hook_request \<Rightarrow> request" where
  "submit_request body =
     \<lparr>reqCN = hkCN body, reqEventType = hkEventType body, reqPassword = hkPassword body,
      reqDisplayName = hkDisplayName body, reqMail = hkMail body\<rparr>"

text \<open>
  The part after validation. The password buffer that \<^verbatim>\<open>Submit\<close> leaves is overwritten once
  more by the deferred call. The argument \<open>quote\<close> is \<^verbatim>\<open>strconv.Quote\<close>.
\<close>

definition submit_valid ::
  "unicode_tables \<Rightarrow> (string \<Rightarrow> string) \<Rightarrow> ('s, 'q) hook \<Rightarrow> http_env \<Rightarrow> http_request \<Rightarrow> hook_request
     \<Rightarrow> byte list list \<Rightarrow> 's \<times> 'q \<Rightarrow> ('s \<times> 'q) reply" where
  "submit_valid U quote h env r body bufs = (\<lambda>(s, q).
     case Submit U (hookService h) (requestid_From r) (heFresh env) (heSubmit env) s q (submit_request body) of
       (decision, err, s', q', pw) \<Rightarrow>
         (let bufs' = bufs @ [ZeroBytes pw] in
          case err of
            Some e \<Rightarrow>
              if errors_Is e ErrUnknownIdentity \<or> errors_Is e ErrExternalIdentity then
                reject (recordRejected r 400 ''validation_error'' (hkEventType body))
                  (hook_problem h r (error_string quote e)) bufs' (s', q')
              else
                reject (recordRejected r 500 ''accept_error'' (hkEventType body))
                  (Internal (hookProblemBaseURL h) (rqPath r) (requestid_From r) ''failed to accept password sync request'')
                  bufs' (s', q')
          | None \<Rightarrow>
              \<lparr>rpResult = Returned (), rpWrites = [WriteHeader 202],
               rpObs = recordDecision r 202 (hkEventType body) decision, rpBuffers = bufs', rpState = (s', q')\<rparr>))"

definition Hook_ServeHTTP ::
  "unicode_tables \<Rightarrow> (string \<Rightarrow> string) \<Rightarrow> ('s, 'q) hook \<Rightarrow> ('s \<times> 'q) handler" where
  "Hook_ServeHTTP U quote h env r st =
     (if rqMethod r \<noteq> ''POST'' then
        \<lparr>rpResult = Returned (), rpWrites = [WriteHeader 405], rpObs = recordRejected r 405 ''method_not_allowed'' [],
         rpBuffers = [], rpState = st\<rparr>
      else
        let (buf, err, dropped) = ReadAll (rqBody r);
            rawBody = rbData buf;
            bufs = dropped @ [ZeroBytes rawBody]
        in if err \<noteq> None then
             reject (recordRejected r 400 ''validation_error'' []) (hook_problem h r ''request body must be readable'') bufs st
           else
             let (failed, body, given_up) = unmarshal_hook_request rawBody
             in if failed then
                  reject (recordRejected r 400 ''validation_error'' [])
                    (hook_problem h r ''request body must be valid json'')
                    (bufs @ given_up @ [ZeroBytes (hkPassword body)]) st
                else if validate body \<noteq> [] then
                  reject (recordRejected r 400 ''validation_error'' (hkEventType body))
                    (hook_problem h r (validate body)) (bufs @ given_up @ [ZeroBytes (hkPassword body)]) st
                else submit_valid U quote h env r body (bufs @ given_up) st)"

section \<open>Lemmas\<close>

lemma UnmarshalJSON_given_up:
  assumes "passwordBytes_UnmarshalJSON p data = (err, p', previous, scratch)"
  shows "zeroed previous" and "err \<noteq> None \<Longrightarrow> zeroed scratch"
  using assms decode_loop_scratch [of "butlast (tl data)"]
  by (auto simp: passwordBytes_UnmarshalJSON_def decodeJSONStringBytes_def Let_def zeroed_def [of "[]"]
      split: if_splits prod.splits sum.splits)

lemma hook_field_cases:
  assumes "(name, store) \<in> set hook_fields"
  obtains (plain) f where "(name, store) = string_field name f" "\<And>s h bufs. snd (f s (h, bufs)) = bufs"
  | (password) "(name, store) = password_field"
  using assms unfolding hook_fields_def by (auto simp: string_field_def)

lemma hook_field_keeps:
  assumes "(name, store) \<in> set hook_fields" and "list_all zeroed (snd a)"
  shows "list_all zeroed (snd (stored_value (store v a)))"
  using assms(1)
proof (cases rule: hook_field_cases)
  case (plain f)
  then show ?thesis
    using assms(2) by (cases a) (auto simp: string_field_def split: json.splits option.splits)
next
  case password
  obtain h bufs where a: "a = (h, bufs)" by force
  obtain err p' previous scratch where u: "passwordBytes_UnmarshalJSON (hkPassword h) (json_raw v) = (err, p', previous, scratch)"
    by (metis prod_cases4)
  show ?thesis
    using password assms(2) a u UnmarshalJSON_given_up [OF u]
    by (cases err) (simp_all add: password_field_def custom_field_def)
qed

lemma given_up_zeroed:
  assumes "unmarshal_hook_request data = (failed, body, given_up)"
  shows "list_all zeroed given_up"
proof -
  have "list_all zeroed (snd (snd (unmarshal_hook_request data)))"
    unfolding unmarshal_hook_request_def
    by (rule Unmarshal_invariant) (use hook_field_keeps in auto)
  with assms show ?thesis by simp
qed

text \<open>The body of a request that passes all checks before the service is called.\<close>

definition hook_body :: "http_request \<Rightarrow> hook_request option" where
  "hook_body r =
     (if rqMethod r = ''POST'' \<and> stream_error (rqBody r) = None then
        case unmarshal_hook_request (stream_bytes (rqBody r)) of
          (failed, body, given_up) \<Rightarrow> if \<not> failed \<and> validate body = [] then Some body else None
      else None)"

definition hook_status :: "goerror option \<Rightarrow> int" where
  "hook_status err =
     (case err of
        None \<Rightarrow> 202
      | Some e \<Rightarrow> if errors_Is e ErrUnknownIdentity \<or> errors_Is e ErrExternalIdentity then 400 else 500)"

lemma submit_valid_reply:
  assumes "list_all zeroed bufs"
    and "Submit U (hookService h) (requestid_From r) (heFresh env) (heSubmit env) s q (submit_request body)
           = (decision, err, s', q', pw)"
  shows "let reply = submit_valid U quote h env r body bufs (s, q) in
     rpResult reply = Returned () \<and> rpState reply = (s', q') \<and> response_status (rpWrites reply) = hook_status err
     \<and> single (rpWrites reply) \<and> list_all zeroed (rpBuffers reply)"
  using assms response_status_problem [where ws = "[]"]
  by (cases err) (simp_all add: submit_valid_def Let_def hook_status_def hook_problem_def)

text \<open>The handler on the four ways through it.\<close>

lemma Hook_ServeHTTP_body:
  assumes "hook_body r = Some body"
  obtains bufs where "list_all zeroed bufs"
    "Hook_ServeHTTP U quote h env r st = submit_valid U quote h env r body bufs st"
proof -
  obtain buf dropped where ra: "ReadAll (rqBody r) = (buf, stream_error (rqBody r), dropped)"
    "rbData buf = stream_bytes (rqBody r)" "list_all zeroed dropped"
    by (rule ReadAll_obtain)
  obtain given_up where u: "unmarshal_hook_request (stream_bytes (rqBody r)) = (False, body, given_up)"
    and ok: "validate body = []" "rqMethod r = ''POST''" "stream_error (rqBody r) = None"
    using assms by (auto simp: hook_body_def split: if_splits prod.splits)
  have "Hook_ServeHTTP U quote h env r st
      = submit_valid U quote h env r body ((dropped @ [ZeroBytes (stream_bytes (rqBody r))]) @ given_up) st"
    using ra u ok by (simp add: Hook_ServeHTTP_def Let_def)
  moreover have "list_all zeroed ((dropped @ [ZeroBytes (stream_bytes (rqBody r))]) @ given_up)"
    using ra(3) given_up_zeroed [OF u] by simp
  ultimately show thesis using that by blast
qed

lemma Hook_ServeHTTP_rejects:
  assumes "hook_body r = None"
  shows "let reply = Hook_ServeHTTP U quote h env r st in
     rpResult reply = Returned () \<and> rpState reply = st \<and> response_status (rpWrites reply) \<in> {400, 405}
     \<and> single (rpWrites reply) \<and> list_all zeroed (rpBuffers reply)"
proof -
  obtain buf dropped where ra: "ReadAll (rqBody r) = (buf, stream_error (rqBody r), dropped)"
    "rbData buf = stream_bytes (rqBody r)" "list_all zeroed dropped"
    by (rule ReadAll_obtain)
  obtain failed body given_up where u: "unmarshal_hook_request (stream_bytes (rqBody r)) = (failed, body, given_up)"
    by (metis prod_cases3)
  have g: "list_all zeroed given_up" by (rule given_up_zeroed [OF u])
  show ?thesis
    using assms ra u g response_status_problem [where ws = "[]"]
    by (auto simp: Hook_ServeHTTP_def hook_body_def hook_problem_def Let_def split: if_splits)
qed


definition json_text :: "string \<Rightarrow> byte list" where
  "json_text s = bytes_of (map (\<lambda>c. if c = CHR ''`'' then CHR 0x22 else c) s)"

definition sample_hook_body :: "string \<Rightarrow> byte list" where
  "sample_hook_body pw =
     json_text (''{`cn`:`0816001`,`eventType`:`password_change`,`password`:`'' @ pw
                @ ''`,`displayName`:`Student`,`mail`:`s@nycu.edu.tw`}'')"

definition sample_post :: "string \<Rightarrow> http_request" where
  "sample_post pw =
     \<lparr>rqMethod = ''POST'', rqPath = ''/api/v1/hook/password'', rqRemoteAddr = ''192.0.2.1:4000'',
      rqHeader = (\<lambda>_. []), rqBody = bytes_NewReader (sample_hook_body pw), rqTraceID = ''t''\<rparr>"

lemma sample_post_body:
  "hook_body (sample_post ''a'') = Some \<lparr>hkCN = ''0816001'', hkEventType = ''password_change'',
     hkPassword = bytes_of ''a'', hkDisplayName = ''Student'', hkMail = ''s@nycu.edu.tw''\<rparr>"
  "hook_body (sample_post ''b'') = Some \<lparr>hkCN = ''0816001'', hkEventType = ''password_change'',
     hkPassword = bytes_of ''b'', hkDisplayName = ''Student'', hkMail = ''s@nycu.edu.tw''\<rparr>"
  by code_simp+


definition sample_hook :: "(unit, password_sync_message list) hook" where
  "sample_hook = NewHook sample_service DefaultBaseURL"

definition sample_http_env :: http_env where
  "sample_http_env = \<lparr>heRandom = None, heStart = 0, heRate = 0, heHmac = 0, heNonce = 0, heFresh = 5, heSubmit = 6, heEnd = 7\<rparr>"

definition sample_body :: "string \<Rightarrow> hook_request" where
  "sample_body pw = \<lparr>hkCN = ''0816001'', hkEventType = ''password_change'', hkPassword = bytes_of pw,
     hkDisplayName = ''Student'', hkMail = ''s@nycu.edu.tw''\<rparr>"

lemma sample_submit:
  "fst (Submit ascii_tables sample_service ''t'' 5 6 () [] (submit_request (sample_body ''a'')))
   = fst (Submit ascii_tables sample_service ''t'' 5 6 () [] (submit_request (sample_body ''b'')))"
  "fst (snd (Submit ascii_tables sample_service ''t'' 5 6 () [] (submit_request (sample_body ''a'')))) = None"
  "fst (snd (Submit ascii_tables sample_service ''t'' 5 6 () [] (submit_request (sample_body ''b'')))) = None"
  by code_simp+


end
