(* ===== verification/Go_Hmac.thy ===== *)
theory Go_Hmac
  imports Go_Base
begin

text \<open>
  The parts of the Go packages \<^verbatim>\<open>crypto/sha256\<close>, \<^verbatim>\<open>crypto/hmac\<close> and \<^verbatim>\<open>strconv\<close> that the
  request authentication uses: the digest of a byte string, the keyed digest, and the parsing
  of decimal integers at a given width.
\<close>

unbundle bit_operations_syntax

section \<open>SHA-256\<close>

text \<open>
  The constants of the digest are the first 32 bits of the fractional parts of the cube roots
  of the first 64 primes, and of the square roots of the first eight. A root is found bit by
  bit, from the highest.
\<close>

fun integer_root :: "nat \<Rightarrow> nat \<Rightarrow> nat \<Rightarrow> nat \<Rightarrow> nat" where
  "integer_root k 0 x acc = acc"
| "integer_root k (Suc b) x acc = integer_root k b x (if (acc + 2 ^ b) ^ k \<le> x then acc + 2 ^ b else acc)"

definition first_primes :: "nat list" where
  "first_primes = filter (\<lambda>n. list_all (\<lambda>d. n mod d \<noteq> 0) [2..<n]) [2..<312]"

definition root_fraction :: "nat \<Rightarrow> nat \<Rightarrow> 32 word" where
  "root_fraction k p = word_of_nat (integer_root k 40 (p * 2 ^ (32 * k)) 0)"

definition sha256_k :: "32 word list" where
  "sha256_k = map (root_fraction 3) first_primes"

definition rotr32 :: "nat \<Rightarrow> 32 word \<Rightarrow> 32 word" where
  "rotr32 n x = drop_bit n x OR push_bit (32 - n) x"

definition be32 :: "byte list \<Rightarrow> 32 word" where
  "be32 bs = fold (\<lambda>b acc. push_bit 8 acc OR ucast b) bs 0"

definition be32_bytes :: "32 word \<Rightarrow> byte list" where
  "be32_bytes x = map (\<lambda>i. ucast (drop_bit (8 * i) x)) [3, 2, 1, 0]"

fun chunks_of :: "nat \<Rightarrow> nat \<Rightarrow> 'a list \<Rightarrow> 'a list list" where
  "chunks_of 0 n xs = []"
| "chunks_of (Suc k) n xs = take n xs # chunks_of k n (drop n xs)"

text \<open>The message schedule is kept newest word first.\<close>

definition schedule_step :: "32 word list \<Rightarrow> 32 word list" where
  "schedule_step w =
     (let v1 = w ! 1; t1 = rotr32 17 v1 XOR rotr32 19 v1 XOR drop_bit 10 v1;
          v2 = w ! 14; t2 = rotr32 7 v2 XOR rotr32 18 v2 XOR drop_bit 3 v2
      in (t1 + w ! 6 + t2 + w ! 15) # w)"

definition schedule :: "byte list \<Rightarrow> 32 word list" where
  "schedule block = rev ((schedule_step ^^ 48) (rev (map be32 (chunks_of 16 4 block))))"

type_synonym sha_state = "32 word \<times> 32 word \<times> 32 word \<times> 32 word \<times> 32 word \<times> 32 word \<times> 32 word \<times> 32 word"

definition sha_init :: sha_state where
  "sha_init =
     (case map (root_fraction 2) (take 8 first_primes) of
        [a, b, c, d, e, f, g, h] \<Rightarrow> (a, b, c, d, e, f, g, h))"

definition sha_round :: "32 word \<times> 32 word \<Rightarrow> sha_state \<Rightarrow> sha_state" where
  "sha_round = (\<lambda>(k, w) (a, b, c, d, e, f, g, h).
     let t1 = h + (rotr32 6 e XOR rotr32 11 e XOR rotr32 25 e) + ((e AND f) XOR (NOT e AND g)) + k + w;
         t2 = (rotr32 2 a XOR rotr32 13 a XOR rotr32 22 a) + ((a AND b) XOR (a AND c) XOR (b AND c))
     in (t1 + t2, a, b, c, d + t1, e, f, g))"

definition sha_add :: "sha_state \<Rightarrow> sha_state \<Rightarrow> sha_state" where
  "sha_add = (\<lambda>(a, b, c, d, e, f, g, h) (a', b', c', d', e', f', g', h').
     (a + a', b + b', c + c', d + d', e + e', f + f', g + g', h + h'))"

definition sha_block :: "byte list \<Rightarrow> sha_state \<Rightarrow> sha_state" where
  "sha_block block s = sha_add s (fold sha_round (zip sha256_k (schedule block)) s)"

definition be64_bytes :: "nat \<Rightarrow> byte list" where
  "be64_bytes n = map (\<lambda>i. word_of_nat (n div 256 ^ i)) [7, 6, 5, 4, 3, 2, 1, 0]"

definition sha_pad :: "byte list \<Rightarrow> byte list" where
  "sha_pad msg = msg @ [0x80] @ replicate ((119 - length msg mod 64) mod 64) 0 @ be64_bytes (8 * length msg)"

definition sha256_Sum256 :: "byte list \<Rightarrow> byte list" where
  "sha256_Sum256 msg =
     (let padded = sha_pad msg in
      case fold sha_block (chunks_of (length padded div 64) 64 padded) sha_init of
        (a, b, c, d, e, f, g, h) \<Rightarrow> concat (map be32_bytes [a, b, c, d, e, f, g, h]))"

section \<open>HMAC\<close>

definition hmac_key_block :: "byte list \<Rightarrow> byte list" where
  "hmac_key_block key =
     (let key = (if length key > 64 then sha256_Sum256 key else key)
      in key @ replicate (64 - length key) 0)"

definition hmac_sha256 :: "byte list \<Rightarrow> byte list \<Rightarrow> byte list" where
  "hmac_sha256 key msg =
     (let block = hmac_key_block key
      in sha256_Sum256 (map (\<lambda>b. b XOR 0x5c) block @ sha256_Sum256 (map (\<lambda>b. b XOR 0x36) block @ msg)))"

lemma length_be32_bytes [simp]: "length (be32_bytes x) = 4"
  by (simp add: be32_bytes_def)

lemma length_sha256 [simp]: "length (sha256_Sum256 msg) = 32"
  by (simp add: sha256_Sum256_def Let_def split: prod.splits)

lemma length_hmac [simp]: "length (hmac_sha256 key msg) = 32"
  by (simp add: hmac_sha256_def Let_def)

text \<open>The padding fills whole blocks, so no byte of the message is dropped.\<close>

lemma length_sha_pad: "64 dvd length (sha_pad msg)"
proof -
  define q r where "q = length msg div 64" and "r = length msg mod 64"
  have l: "length msg = 64 * q + r" and r: "r < 64" by (simp_all add: q_def r_def)
  have eq: "length (sha_pad msg) = length msg + 9 + (119 - r) mod 64"
    by (simp add: sha_pad_def be64_bytes_def r_def)
  have "(119 - r) mod 64 = (if r \<le> 55 then 55 - r else 119 - r)"
    using r by (auto simp: mod_if)
  then have "length (sha_pad msg) = (if r \<le> 55 then 64 * (q + 1) else 64 * (q + 2))"
    using eq l r by auto
  then show ?thesis by (metis dvd_triv_left)
qed

lemma chunks_of_concat: "length xs = k * n \<Longrightarrow> concat (chunks_of k n xs) = xs"
  by (induction k n xs rule: chunks_of.induct) auto

section \<open>Decimal integers\<close>

text \<open>
  \<^verbatim>\<open>strconv.ParseUint(s, 10, bits)\<close> and \<^verbatim>\<open>strconv.ParseInt(s, 10, bits)\<close>; only whether there is
  an error is used, so the error is \<open>None\<close>.
\<close>

fun parse_digits :: "nat \<Rightarrow> string \<Rightarrow> nat option" where
  "parse_digits acc [] = Some acc"
| "parse_digits acc (c # cs) =
     (if 48 \<le> ord c \<and> ord c \<le> 57 then parse_digits (10 * acc + (ord c - 48)) cs else None)"

definition ParseUint :: "string \<Rightarrow> nat \<Rightarrow> nat option" where
  "ParseUint s bits =
     (if s = [] then None
      else case parse_digits 0 s of
        Some n \<Rightarrow> if n < 2 ^ bits then Some n else None
      | None \<Rightarrow> None)"

definition ParseInt :: "string \<Rightarrow> nat \<Rightarrow> int option" where
  "ParseInt s bits =
     (if s = [] then None
      else let neg = hd s = CHR ''-'';
               digits = (if hd s = CHR ''+'' \<or> hd s = CHR ''-'' then tl s else s)
           in case ParseUint digits bits of
                None \<Rightarrow> None
              | Some n \<Rightarrow>
                  if \<not> neg \<and> n \<ge> 2 ^ (bits - 1) then None
                  else if neg \<and> n > 2 ^ (bits - 1) then None
                  else Some (if neg then - int n else int n))"

lemma ParseInt_range: "ParseInt s (Suc b) = Some n \<Longrightarrow> - (2 ^ b) \<le> n \<and> n < 2 ^ b"
  by (auto simp: ParseInt_def Let_def not_less not_le split: if_splits option.splits
    intro: order_trans [of _ 0] order_le_less_trans [of _ 0])

lemma parse_digits_range: "parse_digits acc s = Some n \<Longrightarrow> set s \<subseteq> {c. 48 \<le> ord c \<and> ord c \<le> 57}"
  by (induction acc s rule: parse_digits.induct) (auto split: if_splits)

text \<open>The text of a parsed integer has no separator.\<close>

lemma ParseInt_no_dot: "ParseInt s bits = Some n \<Longrightarrow> CHR ''.'' \<notin> set s"
proof -
  assume "ParseInt s bits = Some n"
  then obtain ds m where ds: "ParseUint ds bits = Some m" "ds = s \<or> ds = tl s \<and> (hd s = CHR ''+'' \<or> hd s = CHR ''-'')" "s \<noteq> []"
    by (auto simp: ParseInt_def Let_def split: if_splits option.splits)
  then have "set s \<subseteq> insert CHR ''+'' (insert CHR ''-'' (set ds))" by (cases s) auto
  moreover have "\<exists>m. parse_digits 0 ds = Some m" using ds(1) by (auto simp: ParseUint_def split: if_splits option.splits)
  ultimately
  obtain ds m where ds: "parse_digits 0 ds = Some m" "set s \<subseteq> insert CHR ''+'' (insert CHR ''-'' (set ds))"
    by blast
  have "ord CHR ''.'' = 46" by (simp add: ord_def)
  then show ?thesis using parse_digits_range [OF ds(1)] ds(2) by auto
qed

end
