(* ===== verification/Hmac.thy ===== *)
theory Hmac
  imports Http Go_Hmac
begin

text \<open>
  File \<^verbatim>\<open>internal/middleware/hmac.go\<close>: authentication of hook requests by a keyed digest
  over timestamp, nonce and body, with a clock-skew check and a store of used nonces. The
  state of the wrapped handler is paired with the state of the nonce store. Digest and integer
  parsing are those of theory \<open>Go_Hmac\<close>.
\<close>

section \<open>Nonce stores\<close>

record 'n nonce_ops =
  nonceUse :: "'n \<Rightarrow> instant \<Rightarrow> string \<Rightarrow> duration \<Rightarrow> bool \<times> 'n"
  nonceTTLMethod :: "duration option"

record memory_nonce_store =
  nsTTL :: duration
  nsSeenAt :: "string \<rightharpoonup> instant"

definition NewMemoryNonceStore :: "duration \<Rightarrow> memory_nonce_store" where
  "NewMemoryNonceStore ttl = \<lparr>nsTTL = (if ttl \<le> 0 then 60 * second_ns else ttl), nsSeenAt = Map.empty\<rparr>"

definition MemoryNonceStore_TTL :: "memory_nonce_store \<Rightarrow> duration" where
  "MemoryNonceStore_TTL s = nsTTL s"

definition MemoryNonceStore_Use ::
  "memory_nonce_store \<Rightarrow> instant \<Rightarrow> string \<Rightarrow> duration \<Rightarrow> bool \<times> memory_nonce_store" where
  "MemoryNonceStore_Use s now nonce ttl =
     (let kept = (\<lambda>key. case nsSeenAt s key of
                    Some seen \<Rightarrow> if time_Sub now seen > ttl then None else Some seen
                  | None \<Rightarrow> None)
      in if kept nonce \<noteq> None then (False, s\<lparr>nsSeenAt := kept\<rparr>)
         else (True, s\<lparr>nsSeenAt := kept(nonce \<mapsto> now)\<rparr>))"

definition nonceTTL :: "'n nonce_ops option \<Rightarrow> duration" where
  "nonceTTL nonces =
     (case nonces of
        Some ops \<Rightarrow> (case nonceTTLMethod ops of
                       Some ttl \<Rightarrow> if ttl > 0 then ttl else 60 * second_ns
                     | None \<Rightarrow> 60 * second_ns)
      | None \<Rightarrow> 60 * second_ns)"

definition memory_nonce_ops :: "memory_nonce_store \<Rightarrow> memory_nonce_store nonce_ops" where
  "memory_nonce_ops s = \<lparr>nonceUse = MemoryNonceStore_Use, nonceTTLMethod = Some (MemoryNonceStore_TTL s)\<rparr>"

section \<open>The middleware\<close>

record 'n hmac =
  hmSecret :: "byte list"
  hmNonces :: "'n nonce_ops option"
  hmSkew :: duration
  hmNonceTTL :: duration
  hmProblemBase :: string
  hmMaxBodyBytes :: int

definition defaultHMACMaxBodyBytes :: int where
  "defaultHMACMaxBodyBytes = 64 * 1024"

definition NewHMACWithOptions ::
  "string \<Rightarrow> 'n nonce_ops option \<Rightarrow> duration \<Rightarrow> string \<Rightarrow> int \<Rightarrow> goerror + 'n hmac" where
  "NewHMACWithOptions secret nonces skew problemBase maxBodyBytes =
     (if TrimSpace secret = [] then Inl (ErrorString ''hmac secret is required'')
      else if skew \<le> 0 then Inl (ErrorString ''hmac clock skew must be positive'')
      else if maxBodyBytes < 0 then Inl (ErrorString ''hmac max body bytes must not be negative'')
      else Inr \<lparr>hmSecret = bytes_of secret, hmNonces = nonces, hmSkew = skew, hmNonceTTL = nonceTTL nonces,
                hmProblemBase = (if TrimSpace problemBase = [] then DefaultBaseURL else problemBase),
                hmMaxBodyBytes = (if maxBodyBytes = 0 then defaultHMACMaxBodyBytes else maxBodyBytes)\<rparr>)"

definition NewHMACWithProblemBase ::
  "string \<Rightarrow> 'n nonce_ops option \<Rightarrow> duration \<Rightarrow> string \<Rightarrow> goerror + 'n hmac" where
  "NewHMACWithProblemBase secret nonces skew problemBase =
     NewHMACWithOptions secret nonces skew problemBase defaultHMACMaxBodyBytes"

definition NewHMAC :: "string \<Rightarrow> 'n nonce_ops option \<Rightarrow> duration \<Rightarrow> goerror + 'n hmac" where
  "NewHMAC secret nonces skew = NewHMACWithProblemBase secret nonces skew DefaultBaseURL"

text \<open>Negation of a 64-bit duration wraps around.\<close>

definition absDuration :: "duration \<Rightarrow> duration" where
  "absDuration d = (if d < 0 then wrap64 (- d) else d)"

definition signed_payload :: "string \<Rightarrow> string \<Rightarrow> byte list \<Rightarrow> byte list" where
  "signed_payload timestamp nonce body = bytes_of (timestamp @ ''.'' @ nonce @ ''.'') @ body"

definition validSignature :: "'n hmac \<Rightarrow> string \<Rightarrow> string \<Rightarrow> byte list \<Rightarrow> string \<Rightarrow> bool" where
  "validSignature m timestamp nonce body header =
     (if \<not> HasPrefix header ''sha256='' then False
      else case hex_DecodeString (drop (length ''sha256='') header) of
        None \<Rightarrow> False
      | Some got \<Rightarrow> got = hmac_sha256 (hmSecret m) (signed_payload timestamp nonce body))"

definition recordMiddlewareRejection :: "http_request \<Rightarrow> string \<Rightarrow> int \<Rightarrow> string \<Rightarrow> string \<Rightarrow> obs list" where
  "recordMiddlewareRejection r middlewareName status outcome reason =
     recordMiddlewareOutcome True (requestid_From r) middlewareName status outcome reason []"

definition writeUnauthorized :: "'n hmac \<Rightarrow> http_request \<Rightarrow> string \<Rightarrow> byte list list \<Rightarrow> 's \<Rightarrow> 's reply" where
  "writeUnauthorized m r reason bufs s =
     reject (recordMiddlewareRejection r ''hmac'' 401 ''unauthorized'' reason)
       (Unauthorized (hmProblemBase m) (rqPath r) (requestid_From r) ''request authentication failed'') bufs s"

definition writePayloadTooLarge :: "'n hmac \<Rightarrow> http_request \<Rightarrow> byte list list \<Rightarrow> 's \<Rightarrow> 's reply" where
  "writePayloadTooLarge m r bufs s =
     reject (recordMiddlewareRejection r ''hmac'' 413 ''payload_too_large'' ''request_body_too_large'')
       (PayloadTooLarge (hmProblemBase m) (rqPath r) (requestid_From r) ''request body is too large'') bufs s"

text \<open>The reply of the wrapped handler, with the buffers of this one and the joint state.\<close>

definition pass_on :: "'n \<Rightarrow> byte list list \<Rightarrow> 's reply \<Rightarrow> ('n \<times> 's) reply" where
  "pass_on n bufs reply =
     \<lparr>rpResult = rpResult reply, rpWrites = rpWrites reply, rpObs = rpObs reply,
      rpBuffers = rpBuffers reply @ bufs, rpState = (n, rpState reply)\<rparr>"

definition use_nonce :: "'n hmac \<Rightarrow> instant \<Rightarrow> string \<Rightarrow> 'n \<Rightarrow> bool \<times> 'n" where
  "use_nonce m now nonce n =
     (case hmNonces m of None \<Rightarrow> (True, n) | Some ops \<Rightarrow> nonceUse ops n now nonce (hmNonceTTL m))"

text \<open>The part of the middleware after the body was read.\<close>

definition checked ::
  "'n hmac \<Rightarrow> http_env \<Rightarrow> http_request \<Rightarrow> byte list \<Rightarrow> byte list list \<Rightarrow> 's handler \<Rightarrow> 'n \<times> 's \<Rightarrow> ('n \<times> 's) reply" where
  "checked m env r body bufs inner = (\<lambda>(n, s).
     let timestampHeader = header_Get r ''X-Hook-Timestamp'';
         nonce = header_Get r ''X-Hook-Nonce'';
         signature = header_Get r ''X-Hook-Signature''
     in case ParseInt timestampHeader 64 of
          None \<Rightarrow> writeUnauthorized m r ''missing_or_invalid_signature_headers'' bufs (n, s)
        | Some timestamp \<Rightarrow>
            if nonce = [] \<or> signature = [] then
              writeUnauthorized m r ''missing_or_invalid_signature_headers'' bufs (n, s)
            else if absDuration (time_Sub (heHmac env) (time_Unix timestamp)) > hmSkew m then
              writeUnauthorized m r ''timestamp_outside_allowed_skew'' bufs (n, s)
            else if \<not> validSignature m timestampHeader nonce body signature then
              writeUnauthorized m r ''signature_mismatch'' bufs (n, s)
            else case use_nonce m (heNonce env) nonce n of
              (False, n') \<Rightarrow> writeUnauthorized m r ''nonce_replay'' bufs (n', s)
            | (True, n') \<Rightarrow> pass_on n' bufs (inner env (r\<lparr>rqBody := bytes_NewReader body\<rparr>) s))"

definition hmac_Wrap :: "'n hmac \<Rightarrow> 's handler \<Rightarrow> ('n \<times> 's) handler" where
  "hmac_Wrap m inner env r st =
     (let (buf, err, dropped) = ReadAll (LimitReader (nat (wrap64 (hmMaxBodyBytes m + 1))) (rqBody r));
          body = rbData buf;
          bufs = dropped @ [ZeroBytes body]
      in
        if err \<noteq> None then writeUnauthorized m r ''failed_to_read_request_body'' bufs st
        else if int (length body) > hmMaxBodyBytes m then writePayloadTooLarge m r bufs st
        else checked m env r body bufs inner st)"

section \<open>The gate\<close>

text \<open>
  What a request must satisfy to be let through, apart from the nonce: the body can be read
  and is not too large, the headers are present, the timestamp is within the skew and the
  signature is the digest of timestamp, nonce and body under the secret.
\<close>

definition authentic :: "'n hmac \<Rightarrow> instant \<Rightarrow> http_request \<Rightarrow> bool" where
  "authentic m now r \<longleftrightarrow>
     stream_error (rqBody r) = None
     \<and> int (length (stream_bytes (rqBody r))) \<le> hmMaxBodyBytes m
     \<and> header_Get r ''X-Hook-Nonce'' \<noteq> []
     \<and> (case ParseInt (header_Get r ''X-Hook-Timestamp'') 64 of
          None \<Rightarrow> False
        | Some t \<Rightarrow> absDuration (time_Sub now (time_Unix t)) \<le> hmSkew m)
     \<and> HasPrefix (header_Get r ''X-Hook-Signature'') ''sha256=''
     \<and> hex_DecodeString (drop 7 (header_Get r ''X-Hook-Signature''))
       = Some (hmac_sha256 (hmSecret m)
           (signed_payload (header_Get r ''X-Hook-Timestamp'') (header_Get r ''X-Hook-Nonce'')
             (stream_bytes (rqBody r))))"

definition admitted :: "'n hmac \<Rightarrow> http_env \<Rightarrow> http_request \<Rightarrow> 'n \<Rightarrow> bool" where
  "admitted m env r n \<longleftrightarrow>
     authentic m (heHmac env) r \<and> fst (use_nonce m (heNonce env) (header_Get r ''X-Hook-Nonce'') n)"

lemma wrap64_limit: "0 \<le> x \<Longrightarrow> x < 2 ^ 63 - 1 \<Longrightarrow> wrap64 (x + 1) = x + 1"
  by (intro wrap64_exact) auto

lemma validSignature_iff:
  "validSignature m ts nonce body header \<longleftrightarrow>
     HasPrefix header ''sha256='' \<and>
     hex_DecodeString (drop 7 header) = Some (hmac_sha256 (hmSecret m) (signed_payload ts nonce body))"
proof -
  have seven: "length ''sha256='' = 7" by simp
  show ?thesis unfolding validSignature_def seven by (auto split: option.splits)
qed

lemma signature_nonempty: "HasPrefix header ''sha256='' \<Longrightarrow> header \<noteq> []"
  by (auto simp: HasPrefix_def starts_with_def)

text \<open>What the limited read delivers, when the whole body is within the limit and when not.\<close>

lemma limited_body:
  assumes "0 \<le> hmMaxBodyBytes m" and "hmMaxBodyBytes m < 2 ^ 63 - 1"
    and "n = nat (wrap64 (hmMaxBodyBytes m + 1))"
  shows "int (length (stream_bytes s)) \<le> hmMaxBodyBytes m \<Longrightarrow>
           stream_bytes (LimitReader n s) = stream_bytes s \<and> stream_error (LimitReader n s) = stream_error s"
    and "hmMaxBodyBytes m < int (length (stream_bytes s)) \<Longrightarrow>
           hmMaxBodyBytes m < int (length (stream_bytes (LimitReader n s)))"
proof -
  have n: "n = nat (hmMaxBodyBytes m) + 1" using assms by (simp add: wrap64_limit nat_add_distrib)
  show "int (length (stream_bytes s)) \<le> hmMaxBodyBytes m \<Longrightarrow>
           stream_bytes (LimitReader n s) = stream_bytes s \<and> stream_error (LimitReader n s) = stream_error s"
    using n assms(1) by (simp add: stream_bytes_LimitReader stream_error_LimitReader_below nat_le_iff)
  show "hmMaxBodyBytes m < int (length (stream_bytes s)) \<Longrightarrow>
           hmMaxBodyBytes m < int (length (stream_bytes (LimitReader n s)))"
    using n assms(1) by (simp add: stream_bytes_LimitReader min_def)
qed

definition rejected :: "'s reply \<Rightarrow> 's \<Rightarrow> bool" where
  "rejected reply s \<longleftrightarrow> rpResult reply = Returned () \<and> rpState reply = s
     \<and> response_status (rpWrites reply) \<in> {401, 413} \<and> single (rpWrites reply)
     \<and> list_all zeroed (rpBuffers reply)"

lemma rejected_writers:
  "list_all zeroed bufs \<Longrightarrow> rejected (writeUnauthorized m r reason bufs s) s"
  "list_all zeroed bufs \<Longrightarrow> rejected (writePayloadTooLarge m r bufs s) s"
  using response_status_problem [where ws = "[]"]
  by (simp_all add: rejected_def writeUnauthorized_def writePayloadTooLarge_def)

lemma checked_cases:
  assumes "list_all zeroed bufs" and "stream_error (rqBody r) = None"
    and "int (length (stream_bytes (rqBody r))) \<le> hmMaxBodyBytes m"
  shows "if authentic m (heHmac env) r then
           (case use_nonce m (heNonce env) (header_Get r ''X-Hook-Nonce'') n of
              (False, n') \<Rightarrow> rejected (checked m env r (stream_bytes (rqBody r)) bufs inner (n, s)) (n', s)
            | (True, n') \<Rightarrow> \<exists>bufs'. list_all zeroed bufs'
                 \<and> checked m env r (stream_bytes (rqBody r)) bufs inner (n, s)
                   = pass_on n' bufs' (inner env (r\<lparr>rqBody := bytes_NewReader (stream_bytes (rqBody r))\<rparr>) s))
         else rejected (checked m env r (stream_bytes (rqBody r)) bufs inner (n, s)) (n, s)"
proof (cases "ParseInt (header_Get r ''X-Hook-Timestamp'') 64")
  case None
  then show ?thesis using assms(1) by (simp add: authentic_def checked_def rejected_writers)
next
  case (Some t)
  let ?sig = "header_Get r ''X-Hook-Signature''" and ?nonce = "header_Get r ''X-Hook-Nonce''"
  let ?valid = "validSignature m (header_Get r ''X-Hook-Timestamp'') ?nonce (stream_bytes (rqBody r)) ?sig"
  have auth: "authentic m (heHmac env) r \<longleftrightarrow>
      ?nonce \<noteq> [] \<and> absDuration (time_Sub (heHmac env) (time_Unix t)) \<le> hmSkew m \<and> ?valid"
    using assms(2,3) Some by (simp add: authentic_def validSignature_iff)
  have sig: "?valid \<Longrightarrow> ?sig \<noteq> []" using signature_nonempty [of ?sig] by (simp add: validSignature_iff)
  show ?thesis
  proof (cases "authentic m (heHmac env) r")
    case True
    then have "checked m env r (stream_bytes (rqBody r)) bufs inner (n, s) =
        (case use_nonce m (heNonce env) ?nonce n of
              (False, n') \<Rightarrow> writeUnauthorized m r ''nonce_replay'' bufs (n', s)
            | (True, n') \<Rightarrow> pass_on n' bufs (inner env (r\<lparr>rqBody := bytes_NewReader (stream_bytes (rqBody r))\<rparr>) s))"
      using auth sig Some by (auto simp: checked_def Let_def)
    with True assms(1) show ?thesis by (auto simp: rejected_writers split: prod.splits bool.splits)
  next
    case False
    then have "rejected (checked m env r (stream_bytes (rqBody r)) bufs inner (n, s)) (n, s)"
      using auth assms(1) Some by (auto simp: checked_def Let_def rejected_writers)
    with False show ?thesis by simp
  qed
qed

lemma hmac_Wrap_cases:
  assumes "0 \<le> hmMaxBodyBytes m" and "hmMaxBodyBytes m < 2 ^ 63 - 1"
  shows "if authentic m (heHmac env) r then
           (case use_nonce m (heNonce env) (header_Get r ''X-Hook-Nonce'') n of
              (False, n') \<Rightarrow> rejected (hmac_Wrap m inner env r (n, s)) (n', s)
            | (True, n') \<Rightarrow> \<exists>bufs. list_all zeroed bufs
                 \<and> hmac_Wrap m inner env r (n, s)
                   = pass_on n' bufs (inner env (r\<lparr>rqBody := bytes_NewReader (stream_bytes (rqBody r))\<rparr>) s))
         else rejected (hmac_Wrap m inner env r (n, s)) (n, s)"
proof -
  define lim where "lim = LimitReader (nat (wrap64 (hmMaxBodyBytes m + 1))) (rqBody r)"
  obtain buf dropped where ra: "ReadAll lim = (buf, stream_error lim, dropped)" "rbData buf = stream_bytes lim"
    "list_all zeroed dropped"
    by (rule ReadAll_obtain)
  define bufs where "bufs = dropped @ [ZeroBytes (stream_bytes lim)]"
  have z: "list_all zeroed bufs" using ra(3) by (simp add: bufs_def)
  note lb = limited_body [OF assms refl, of "rqBody r", folded lim_def]
  let ?W = "hmac_Wrap m inner env r (n, s)"
  have W: "?W =
      (if stream_error lim \<noteq> None then writeUnauthorized m r ''failed_to_read_request_body'' bufs (n, s)
       else if int (length (stream_bytes lim)) > hmMaxBodyBytes m then writePayloadTooLarge m r bufs (n, s)
       else checked m env r (stream_bytes lim) bufs inner (n, s))"
    unfolding hmac_Wrap_def lim_def [symmetric] ra(1) by (simp add: ra(2) bufs_def Let_def)
  consider (big) "hmMaxBodyBytes m < int (length (stream_bytes (rqBody r)))"
    | (err) "int (length (stream_bytes (rqBody r))) \<le> hmMaxBodyBytes m" "stream_error (rqBody r) \<noteq> None"
    | (ok) "int (length (stream_bytes (rqBody r))) \<le> hmMaxBodyBytes m" "stream_error (rqBody r) = None"
    by fastforce
  then show ?thesis
  proof cases
    case big
    then have "rejected ?W (n, s)" using lb(2) z by (simp add: W rejected_writers)
    then show ?thesis using big by (simp add: authentic_def)
  next
    case err
    then have "rejected ?W (n, s)" using lb(1) z by (simp add: W rejected_writers)
    then show ?thesis using err by (auto simp: authentic_def)
  next
    case ok
    then have lim: "stream_bytes lim = stream_bytes (rqBody r)" "stream_error lim = None" using lb(1) by auto
    then have W': "?W = checked m env r (stream_bytes (rqBody r)) bufs inner (n, s)" using ok by (simp add: W)
    show ?thesis
      unfolding W'
      by (rule checked_cases [OF z ok(2,1)])
  qed
qed

text \<open>A middleware, a handler and a signed request, for the instances below.\<close>

definition sample_hmac :: "memory_nonce_store hmac" where
  "sample_hmac = \<lparr>hmSecret = bytes_of ''secret'', hmNonces = Some (memory_nonce_ops (NewMemoryNonceStore 0)),
     hmSkew = 30 * second_ns, hmNonceTTL = 60 * second_ns, hmProblemBase = DefaultBaseURL, hmMaxBodyBytes = 1024\<rparr>"

definition sample_next :: "unit handler" where
  "sample_next env r s =
     \<lparr>rpResult = Returned (), rpWrites = [WriteHeader 202], rpObs = [], rpBuffers = [], rpState = ()\<rparr>"

definition sample_headers :: "string \<Rightarrow> string \<Rightarrow> string \<Rightarrow> string list" where
  "sample_headers ts key name =
     (if name = ''X-Hook-Timestamp'' then [ts]
      else if name = ''X-Hook-Nonce'' then [''n'']
      else if name = ''X-Hook-Signature''
        then [''sha256='' @ hex_EncodeToString (hmac_sha256 (bytes_of key) (signed_payload ts ''n'' (bytes_of ''{}'')))]
      else [])"

definition sample_hook_request :: "string \<Rightarrow> string \<Rightarrow> http_request" where
  "sample_hook_request ts key =
     \<lparr>rqMethod = ''POST'', rqPath = ''/api/v1/hook/password'', rqRemoteAddr = ''192.0.2.1:4000'',
      rqHeader = sample_headers ts key, rqBody = bytes_NewReader (bytes_of ''{}''), rqTraceID = []\<rparr>"

definition at_instant :: "instant \<Rightarrow> instant \<Rightarrow> http_env" where
  "at_instant t u = \<lparr>heRandom = None, heStart = t, heRate = t, heHmac = t, heNonce = u, heFresh = u, heSubmit = u, heEnd = u\<rparr>"

lemma sample_header_Get [simp]:
  "header_Get (sample_hook_request ts key) ''X-Hook-Timestamp'' = ts"
  "header_Get (sample_hook_request ts key) ''X-Hook-Nonce'' = ''n''"
  "header_Get (sample_hook_request ts key) ''X-Hook-Signature'' =
     ''sha256='' @ hex_EncodeToString (hmac_sha256 (bytes_of key) (signed_payload ts ''n'' (bytes_of ''{}'')))"
proof -
  have keys: "CanonicalHeaderKey ''X-Hook-Timestamp'' = ''X-Hook-Timestamp''"
    "CanonicalHeaderKey ''X-Hook-Nonce'' = ''X-Hook-Nonce''"
    "CanonicalHeaderKey ''X-Hook-Signature'' = ''X-Hook-Signature''"
    by code_simp+
  show "header_Get (sample_hook_request ts key) ''X-Hook-Timestamp'' = ts"
    "header_Get (sample_hook_request ts key) ''X-Hook-Nonce'' = ''n''"
    "header_Get (sample_hook_request ts key) ''X-Hook-Signature'' =
       ''sha256='' @ hex_EncodeToString (hmac_sha256 (bytes_of key) (signed_payload ts ''n'' (bytes_of ''{}'')))"
    by (simp_all add: header_Get_def header_Values_def keys sample_hook_request_def sample_headers_def)
qed

lemma sample_body [simp]: "rqBody (sample_hook_request ts key) = bytes_NewReader (bytes_of ''{}'')"
  by (simp add: sample_hook_request_def)

lemma sample_authentic:
  "authentic sample_hmac now (sample_hook_request ts ''secret'') \<longleftrightarrow>
     (case ParseInt ts 64 of None \<Rightarrow> False | Some t \<Rightarrow> absDuration (time_Sub now (time_Unix t)) \<le> 30 * second_ns)"
proof -
  have seven: "hex_DecodeString (drop 7 (''sha256='' @ hex_EncodeToString x)) = Some x" for x by simp
  have pre: "HasPrefix (''sha256='' @ x) ''sha256=''" for x by (simp add: HasPrefix_def starts_with_def)
  have len: "length (bytes_of ''{}'') = 2" by (simp add: bytes_of_def)
  show ?thesis
    unfolding authentic_def sample_header_Get seven sample_body stream_bytes_NewReader len
    by (simp add: sample_hmac_def pre del: append_Cons split: option.splits)
qed

text \<open>
  C8: the signature check is a gate. A request reaches the wrapped handler exactly when its
  body can be read within the size limit, its timestamp is within the skew, its signature is
  the digest of timestamp, nonce and body under the secret, and its nonce is new; the handler
  then gets exactly the signed body. Every other request is answered with 401 or 413, leaves
  the handler's state alone, and consumes no nonce unless it was authentic. All buffers the
  gate held the body in are zeroed.
\<close>

theorem hmac_gate:
  assumes "0 \<le> hmMaxBodyBytes m" and "hmMaxBodyBytes m < 2 ^ 63 - 1"
  shows "let nonce = header_Get r ''X-Hook-Nonce''; n' = snd (use_nonce m (heNonce env) nonce n);
             reply = hmac_Wrap m inner env r (n, s) in
         if admitted m env r n then
           \<exists>bufs. list_all zeroed bufs
             \<and> reply = pass_on n' bufs (inner env (r\<lparr>rqBody := bytes_NewReader (stream_bytes (rqBody r))\<rparr>) s)
         else rejected reply (if authentic m (heHmac env) r then n' else n, s)"
  using hmac_Wrap_cases [OF assms, of env r inner n s]
  by (auto simp: admitted_def Let_def split: prod.splits bool.splits if_splits)

theorem hmac_gate_witness:
  "admitted sample_hmac (at_instant (time_Unix 0) (time_Unix 0)) (sample_hook_request ''0'' ''secret'') (NewMemoryNonceStore 0)
   \<and> rpWrites (hmac_Wrap sample_hmac sample_next (at_instant (time_Unix 0) (time_Unix 0))
        (sample_hook_request ''0'' ''secret'') (NewMemoryNonceStore 0, ())) = [WriteHeader 202]"
proof -
  let ?env = "at_instant (time_Unix 0) (time_Unix 0)" and ?r = "sample_hook_request ''0'' ''secret''"
  have "ParseInt ''0'' 64 = Some 0" by code_simp
  moreover have "absDuration (time_Sub (time_Unix 0) (time_Unix 0)) \<le> 30 * second_ns" by code_simp
  ultimately have adm: "admitted sample_hmac ?env ?r (NewMemoryNonceStore 0)"
    unfolding admitted_def sample_authentic
    by (simp add: at_instant_def use_nonce_def sample_hmac_def memory_nonce_ops_def NewMemoryNonceStore_def
        MemoryNonceStore_Use_def)
  have max: "0 \<le> hmMaxBodyBytes sample_hmac" "hmMaxBodyBytes sample_hmac < 2 ^ 63 - 1"
    by (simp_all add: sample_hmac_def)
  show ?thesis
    using hmac_gate [OF max, where r = ?r and env = ?env and n = "NewMemoryNonceStore 0" and s = "()"
      and inner = sample_next] adm
    by (auto simp: pass_on_def sample_next_def Let_def)
qed

section \<open>Replay\<close>

text \<open>The state after a sequence of requests.\<close>

fun serve_all :: "'s handler \<Rightarrow> (http_env \<times> http_request) list \<Rightarrow> 's \<Rightarrow> 's" where
  "serve_all h [] s = s"
| "serve_all h ((env, r) # calls) s = serve_all h calls (rpState (h env r s))"

lemma serve_all_append: "serve_all h (xs @ ys) s = serve_all h ys (serve_all h xs s)"
  by (induction h xs s rule: serve_all.induct) simp_all

text \<open>What the nonce store does to a request, as seen by the nonce part of the state.\<close>

lemma hmac_Wrap_nonces:
  assumes "0 \<le> hmMaxBodyBytes m" and "hmMaxBodyBytes m < 2 ^ 63 - 1"
  shows "fst (rpState (hmac_Wrap m inner env r (n, s))) =
     (if authentic m (heHmac env) r then snd (use_nonce m (heNonce env) (header_Get r ''X-Hook-Nonce'') n) else n)"
  using hmac_Wrap_cases [OF assms, where env = env and r = r and n = n and inner = inner and s = s]
  by (auto simp: rejected_def pass_on_def split: if_splits prod.splits bool.splits)

lemma skew_bounds:
  assumes "absDuration (time_Sub a u) \<le> skew" and "skew < maxDuration" and "minDuration < time_Sub a u"
  shows "u - skew \<le> a \<and> a \<le> u + skew"
proof -
  have "wrap64 (- time_Sub a u) = - time_Sub a u" if "time_Sub a u < 0"
    using assms(3) that by (intro wrap64_exact) (simp_all add: minDuration_def)
  then show ?thesis
    using assms by (auto simp: absDuration_def time_Sub_def split: if_splits)
qed

text \<open>
  The contract of a nonce store: a nonce that was accepted is held from that moment on, it
  stays held as long as the time to live has not passed, and a held nonce is refused.
\<close>

locale nonce_store =
  fixes use :: "'n \<Rightarrow> instant \<Rightarrow> string \<Rightarrow> duration \<Rightarrow> bool \<times> 'n"
    and held :: "'n \<Rightarrow> string \<Rightarrow> instant \<Rightarrow> bool"
  assumes use_records: "fst (use n now k ttl) \<Longrightarrow> held (snd (use n now k ttl)) k now"
    and use_keeps: "held n k t \<Longrightarrow> time_Sub now t \<le> ttl \<Longrightarrow> held (snd (use n now k' ttl)) k t"
    and use_refuses: "held n k t \<Longrightarrow> time_Sub now t \<le> ttl \<Longrightarrow> \<not> fst (use n now k ttl)"
begin

lemma serve_keeps:
  assumes "0 \<le> hmMaxBodyBytes m" and "hmMaxBodyBytes m < 2 ^ 63 - 1"
    and "hmNonces m = Some ops" and "nonceUse ops = use"
    and "held (fst st) k t"
    and "list_all (\<lambda>(env, r). time_Sub (heNonce env) t \<le> hmNonceTTL m) calls"
  shows "held (fst (serve_all (hmac_Wrap m inner) calls st)) k t"
  using assms(5,6)
proof (induction calls arbitrary: st)
  case (Cons c calls)
  obtain env r where c: "c = (env, r)" by force
  obtain n s where st: "st = (n, s)" by force
  have "held (fst (rpState (hmac_Wrap m inner env r (n, s)))) k t"
    using Cons.prems c st
    by (simp add: use_nonce_def hmac_Wrap_nonces [OF assms(1,2)] assms(3,4) use_keeps)
  then show ?case using Cons c st by simp
qed simp

lemma replay_refused:
  assumes "0 \<le> hmMaxBodyBytes m" and "hmMaxBodyBytes m < 2 ^ 63 - 1"
    and "hmNonces m = Some ops" and "nonceUse ops = use"
    and "admitted m env1 r1 n" and "header_Get r1 ''X-Hook-Nonce'' = header_Get r2 ''X-Hook-Nonce''"
    and "list_all (\<lambda>(env, r). time_Sub (heNonce env) (heNonce env1) \<le> hmNonceTTL m) (mid @ [(env2, r2)])"
  shows "\<not> admitted m env2 r2 (fst (serve_all (hmac_Wrap m inner) ((env1, r1) # mid) (n, s)))"
proof -
  let ?k = "header_Get r1 ''X-Hook-Nonce''"
  let ?st = "rpState (hmac_Wrap m inner env1 r1 (n, s))"
  have "held (fst ?st) ?k (heNonce env1)"
    using assms(5)
    by (simp add: admitted_def use_nonce_def hmac_Wrap_nonces [OF assms(1,2)] assms(3,4) use_records)
  from serve_keeps [OF assms(1-4) this, of mid inner]
  have "held (fst (serve_all (hmac_Wrap m inner) mid ?st)) ?k (heNonce env1)" using assms(7) by simp
  from use_refuses [OF this, of "heNonce env2" "hmNonceTTL m"] show ?thesis
    using assms(3,4,6,7) by (simp add: admitted_def use_nonce_def)
qed

end

text \<open>The memory store keeps the contract.\<close>

interpretation mns: nonce_store MemoryNonceStore_Use "\<lambda>s k t. nsSeenAt s k = Some t"
  by unfold_locales (auto simp: MemoryNonceStore_Use_def Let_def split: if_splits)

lemma sorted_between:
  assumes "sorted (map f (x # xs @ [y]))"
  shows "\<forall>z \<in> set (xs @ [y]). f x \<le> f z \<and> f z \<le> f y"
  using assms by (auto simp: sorted_append)


lemma sample_times:
  "ParseInt ''0'' 64 = Some 0" "ParseInt ''9223372037'' 64 = Some 9223372037"
  by code_simp+

text \<open>The sample request with timestamp 0, checked and used within the given times.\<close>

lemma sample_admitted:
  assumes "absDuration (time_Sub (heHmac env) (time_Unix 0)) \<le> 30 * second_ns"
  shows "admitted sample_hmac env (sample_hook_request ''0'' ''secret'') n \<longleftrightarrow>
     (case nsSeenAt n ''n'' of None \<Rightarrow> True | Some t \<Rightarrow> 60 * second_ns < time_Sub (heNonce env) t)"
  using assms unfolding admitted_def sample_authentic
  by (auto simp: sample_times use_nonce_def sample_hmac_def memory_nonce_ops_def
      MemoryNonceStore_Use_def split: option.splits)


text \<open>
  With the time to live at exactly twice the skew, as in the default configuration, the
  margin for the delay is missing. The same signed request is let through at the start and
  again at the end of its validity, when one nanosecond passes between the check of the
  timestamp and the use of the nonce.
\<close>

theorem replay_without_margin:
  "let env1 = at_instant (time_Unix (- 30)) (time_Unix (- 30)); env2 = at_instant (time_Unix 30) (time_Unix 30 + 1);
       r = sample_hook_request ''0'' ''secret''; n = NewMemoryNonceStore 0
   in hmNonceTTL sample_hmac = 2 * hmSkew sample_hmac
      \<and> admitted sample_hmac env1 r n
      \<and> admitted sample_hmac env2 r (fst (serve_all (hmac_Wrap sample_hmac sample_next) [(env1, r)] (n, ())))"
proof -
  let ?env1 = "at_instant (time_Unix (- 30)) (time_Unix (- 30))"
  let ?env2 = "at_instant (time_Unix 30) (time_Unix 30 + 1)"
  let ?r = "sample_hook_request ''0'' ''secret''" and ?n = "NewMemoryNonceStore 0"
  have times: "absDuration (time_Sub (time_Unix (- 30)) (time_Unix 0)) \<le> 30 * second_ns"
    "absDuration (time_Sub (time_Unix 30) (time_Unix 0)) \<le> 30 * second_ns"
    "60 * second_ns < time_Sub (time_Unix 30 + 1) (time_Unix (- 30))"
    by code_simp+
  have adm: "admitted sample_hmac ?env1 ?r ?n"
    using times(1) by (subst sample_admitted) (simp_all add: at_instant_def NewMemoryNonceStore_def)
  have limits: "0 \<le> hmMaxBodyBytes sample_hmac" "hmMaxBodyBytes sample_hmac < 2 ^ 63 - 1"
    by (simp_all add: sample_hmac_def)
  have "fst (rpState (hmac_Wrap sample_hmac sample_next ?env1 ?r (?n, ())))
      = ?n\<lparr>nsSeenAt := [''n'' \<mapsto> time_Unix (- 30)]\<rparr>"
    using adm unfolding hmac_Wrap_nonces [OF limits]
    by (simp add: admitted_def use_nonce_def sample_hmac_def memory_nonce_ops_def at_instant_def
        MemoryNonceStore_Use_def NewMemoryNonceStore_def Let_def)
  then have "admitted sample_hmac ?env2 ?r (fst (serve_all (hmac_Wrap sample_hmac sample_next) [(?env1, ?r)] (?n, ())))"
    using times(2,3) by (subst sample_admitted) (simp_all add: at_instant_def)
  with adm show ?thesis by (simp add: Let_def sample_hmac_def)
qed



section \<open>What the signature covers\<close>

lemma payload_string: "signed_payload ts nonce body = bytes_of (ts @ ''.'' @ nonce @ ''.'' @ string_of body)"
  using bytes_of_append [of "ts @ ''.'' @ nonce @ ''.''" "string_of body"] by (simp add: signed_payload_def)

text \<open>
  The digest input determines the request. For timestamps the middleware accepts and
  nonces without a full stop, equal inputs come from equal timestamp, nonce and body.
\<close>

theorem signature_input_injective:
  assumes "ParseInt ts 64 = Some t" and "ParseInt ts' 64 = Some t'"
    and "CHR ''.'' \<notin> set nonce" and "CHR ''.'' \<notin> set nonce'"
    and "signed_payload ts nonce body = signed_payload ts' nonce' body'"
  shows "ts = ts' \<and> nonce = nonce' \<and> body = body'"
proof -
  have "ts @ CHR ''.'' # (nonce @ CHR ''.'' # string_of body) = ts' @ CHR ''.'' # (nonce' @ CHR ''.'' # string_of body')"
    using assms(5) by (simp add: payload_string bytes_of_inj del: bytes_of_append)
  then have tail: "ts = ts' \<and> nonce @ CHR ''.'' # string_of body = nonce' @ CHR ''.'' # string_of body'"
    using first_separator_unique [OF ParseInt_no_dot [OF assms(1)] ParseInt_no_dot [OF assms(2)]] by simp
  then have eq: "nonce = nonce'" "string_of body = string_of body'"
    using first_separator_unique [OF assms(3,4)] by simp_all
  have "body = body'" using arg_cong [OF eq(2), of bytes_of] by (simp only: bytes_of_string_of)
  with tail eq show ?thesis by simp
qed

theorem signature_input_injective_witness:
  "signed_payload ''1'' ''a'' [] = signed_payload ''1'' ''a'' [] \<and> (''1'' :: string) = ''1''"
proof -
  have "ParseInt ''1'' 64 = Some 1" by code_simp
  from signature_input_injective [OF this this, of "''a''" "''a''" "[]" "[]"] show ?thesis by simp
qed

text \<open>
  C39: nonces with a full stop share signatures. The signature of a body that starts with
  \<open>x\<close> and a full stop is also the signature of the rest of the body under the longer nonce,
  so a signed request can be presented again under a nonce the store has not seen.
\<close>

theorem signature_shared_between_nonces:
  "validSignature m ts nonce (bytes_of (x @ ''.'') @ body) header
   \<longleftrightarrow> validSignature m ts (nonce @ ''.'' @ x) body header"
  using bytes_of_append [of "ts @ ''.'' @ nonce @ ''.''" "x @ ''.''"]
  by (simp add: validSignature_iff signed_payload_def del: bytes_of_append)

end
