(* ===== verification/Go_Net.thy ===== *)
theory Go_Net
  imports Go_Hmac
begin

text \<open>
  The parts of the Go packages \<^verbatim>\<open>net\<close> and \<^verbatim>\<open>net/netip\<close> that the program uses: parsing of
  addresses, of host and port and of CIDR blocks, membership of an address in a block, and the
  text form of an address. A \<^verbatim>\<open>net.IP\<close> is its byte slice, of length 4 or 16, and empty for nil.
  Of an error only its presence is used.
\<close>

unbundle bit_operations_syntax

section \<open>Addresses\<close>

datatype addr = V4 "byte list" | V6 "byte list" string

definition v4InV6Prefix :: "byte list" where
  "v4InV6Prefix = replicate 10 0 @ [0xFF, 0xFF]"

definition decimal_digit :: "char \<Rightarrow> bool" where
  "decimal_digit c \<longleftrightarrow> 48 \<le> ord c \<and> ord c \<le> 57"

text \<open>One field of a dotted address: digits without a leading zero, at most 255.\<close>

definition parse_octet :: "string \<Rightarrow> byte option" where
  "parse_octet s =
     (if s = [] \<or> \<not> list_all decimal_digit s \<or> (1 < length s \<and> hd s = CHR ''0'') then None
      else case parse_digits 0 s of
        Some n \<Rightarrow> if n \<le> 255 then Some (word_of_nat n) else None
      | None \<Rightarrow> None)"

fun sequence :: "'a option list \<Rightarrow> 'a list option" where
  "sequence [] = Some []"
| "sequence (None # xs) = None"
| "sequence (Some x # xs) = map_option (Cons x) (sequence xs)"

definition parseIPv4Fields :: "string \<Rightarrow> byte list option" where
  "parseIPv4Fields s =
     (let parts = SplitChar CHR ''.'' s in
      if length parts = 4 then sequence (map parse_octet parts) else None)"

definition is_hex :: "char \<Rightarrow> bool" where
  "is_hex c \<longleftrightarrow> fromHexChar c \<noteq> None"

definition hex_number :: "string \<Rightarrow> nat" where
  "hex_number s = foldl (\<lambda>acc c. acc * 16 + the (fromHexChar c)) 0 s"

text \<open>
  The loop over the colon-separated groups: the bytes so far, the position of the ellipsis and
  the rest of the text. The first argument is the number of groups there is still room for.
\<close>

fun v6_groups :: "nat \<Rightarrow> byte list \<Rightarrow> nat option \<Rightarrow> string \<Rightarrow> (byte list \<times> nat option \<times> string) option" where
  "v6_groups 0 ip ellipsis s = Some (ip, ellipsis, s)"
| "v6_groups (Suc n) ip ellipsis s =
     (let digits = takeWhile is_hex s; rest = dropWhile is_hex s in
      if digits = [] \<or> 4 < length digits then None
      else if rest \<noteq> [] \<and> hd rest = CHR ''.'' then
        (if ellipsis = None \<and> length ip \<noteq> 12 then None
         else if 16 < length ip + 4 then None
         else map_option (\<lambda>fields. (ip @ fields, ellipsis, [])) (parseIPv4Fields s))
      else
        let acc = hex_number digits;
            ip' = ip @ [word_of_nat (acc div 256), word_of_nat (acc mod 256)]
        in if rest = [] then Some (ip', ellipsis, [])
           else if hd rest \<noteq> CHR '':'' \<or> length rest = 1 then None
           else
             let s' = tl rest in
             if hd s' = CHR '':'' then
               (if ellipsis \<noteq> None then None
                else if tl s' = [] then Some (ip', Some (length ip'), [])
                else v6_groups n ip' (Some (length ip')) (tl s'))
             else v6_groups n ip' ellipsis s')"

definition expand_ellipsis :: "byte list \<Rightarrow> nat option \<Rightarrow> byte list option" where
  "expand_ellipsis ip ellipsis =
     (if length ip < 16 then
        (case ellipsis of
           None \<Rightarrow> None
         | Some e \<Rightarrow> Some (take e ip @ replicate (16 - length ip) 0 @ drop e ip))
      else if ellipsis \<noteq> None then None
      else Some ip)"

definition parseIPv6 :: "string \<Rightarrow> addr option" where
  "parseIPv6 s =
     (let (text, zone, zoned) = CutChar CHR ''%'' s in
      if zoned \<and> zone = [] then None
      else
        let leading = (2 \<le> length text \<and> text ! 0 = CHR '':'' \<and> text ! 1 = CHR '':'');
            rest = (if leading then drop 2 text else text)
        in if leading \<and> rest = [] then Some (V6 (replicate 16 0) zone)
           else case v6_groups 8 [] (if leading then Some 0 else None) rest of
             None \<Rightarrow> None
           | Some (ip, ellipsis, left) \<Rightarrow>
               if left \<noteq> [] then None else map_option (\<lambda>b. V6 b zone) (expand_ellipsis ip ellipsis))"

definition ParseAddr :: "string \<Rightarrow> addr option" where
  "ParseAddr s =
     (case find (\<lambda>c. c = CHR ''.'' \<or> c = CHR '':'' \<or> c = CHR ''%'') s of
        None \<Rightarrow> None
      | Some c \<Rightarrow>
          if c = CHR ''.'' then map_option V4 (parseIPv4Fields s)
          else if c = CHR '':'' then parseIPv6 s
          else None)"

primrec addr_Zone :: "addr \<Rightarrow> string" where
  "addr_Zone (V4 b) = []"
| "addr_Zone (V6 b zone) = zone"

definition To4 :: "byte list \<Rightarrow> byte list option" where
  "To4 ip =
     (if length ip = 4 then Some ip
      else if length ip = 16 \<and> take 12 ip = v4InV6Prefix then Some (drop 12 ip)
      else None)"

text \<open>\<^verbatim>\<open>net.IP(addr.Unmap().AsSlice())\<close>.\<close>

primrec unmapped :: "addr \<Rightarrow> byte list" where
  "unmapped (V4 b) = b"
| "unmapped (V6 b zone) = (if take 12 b = v4InV6Prefix then drop 12 b else b)"

section \<open>Host and port\<close>

definition last_colon :: "string \<Rightarrow> (string \<times> string) option" where
  "last_colon s =
     (let r = rev s in
      if CHR '':'' \<in> set s
      then Some (rev (tl (dropWhile (\<lambda>c. c \<noteq> CHR '':'') r)), rev (takeWhile (\<lambda>c. c \<noteq> CHR '':'') r))
      else None)"

definition SplitHostPort :: "string \<Rightarrow> (string \<times> string) option" where
  "SplitHostPort hostport =
     (case last_colon hostport of
        None \<Rightarrow> None
      | Some (front, port) \<Rightarrow>
          if hd hostport = CHR ''['' then
            (let host = takeWhile (\<lambda>c. c \<noteq> CHR '']'') (tl hostport) in
             if front = CHR ''['' # host @ '']'' \<and> CHR ''['' \<notin> set (tl hostport) \<and> CHR '']'' \<notin> set port
             then Some (host, port) else None)
          else if CHR '':'' \<in> set front then None
          else if CHR ''['' \<in> set hostport \<or> CHR '']'' \<in> set hostport then None
          else Some (front, port))"

section \<open>CIDR blocks\<close>

record ip_net =
  netIP :: "byte list"
  netMask :: "byte list"

definition mask_byte :: "nat \<Rightarrow> byte" where
  "mask_byte n = (if 8 \<le> n then 0xFF else NOT (drop_bit n 0xFF))"

definition CIDRMask :: "nat \<Rightarrow> nat \<Rightarrow> byte list" where
  "CIDRMask ones bytes = map (\<lambda>i. mask_byte (ones - 8 * i)) [0..<bytes]"

definition and_bytes :: "byte list \<Rightarrow> byte list \<Rightarrow> byte list" where
  "and_bytes a b = map2 (AND) a b"

text \<open>\<^verbatim>\<open>dtoi\<close>: a decimal number below \<^verbatim>\<open>0xFFFFFF\<close> that uses up the text.\<close>

definition dtoi_all :: "string \<Rightarrow> nat option" where
  "dtoi_all s =
     (if s = [] then None
      else case parse_digits 0 s of Some n \<Rightarrow> if n < 0xFFFFFF then Some n else None | None \<Rightarrow> None)"

definition ParseCIDR :: "string \<Rightarrow> ip_net option" where
  "ParseCIDR s =
     (let (text, mask, found) = CutChar CHR ''/'' s in
      if \<not> found then None
      else case ParseAddr text of
        None \<Rightarrow> None
      | Some ip \<Rightarrow>
          if addr_Zone ip \<noteq> [] then None
          else let bytes = (case ip of V4 b \<Rightarrow> b | V6 b zone \<Rightarrow> b) in
            case dtoi_all mask of
              None \<Rightarrow> None
            | Some n \<Rightarrow>
                if 8 * length bytes < n then None
                else let m = CIDRMask n (length bytes) in Some \<lparr>netIP = and_bytes bytes m, netMask = m\<rparr>)"

text \<open>\<^verbatim>\<open>networkNumberAndMask\<close>; nil for a block that is not well-formed.\<close>

definition networkNumberAndMask :: "ip_net \<Rightarrow> byte list \<times> byte list" where
  "networkNumberAndMask n =
     (let ip = (case To4 (netIP n) of Some b \<Rightarrow> b | None \<Rightarrow> netIP n) in
      if length ip \<noteq> 4 \<and> length ip \<noteq> 16 then ([], [])
      else if length (netMask n) = 4 then (if length ip \<noteq> 4 then ([], []) else (ip, netMask n))
      else if length (netMask n) = 16 then (ip, if length ip = 4 then drop 12 (netMask n) else netMask n)
      else ([], []))"

definition net_Contains :: "ip_net \<Rightarrow> byte list \<Rightarrow> bool" where
  "net_Contains n ip =
     (let (nn, m) = networkNumberAndMask n;
          ip = (case To4 ip of Some b \<Rightarrow> b | None \<Rightarrow> ip)
      in length ip = length nn \<and> and_bytes nn m = and_bytes ip m)"

section \<open>Text form\<close>

definition ipv4_string :: "byte list \<Rightarrow> string" where
  "ipv4_string ip = Join (map (\<lambda>b. decimal (unat b)) ip) ''.''"

fun v6_words :: "byte list \<Rightarrow> nat list" where
  "v6_words (a # b # rest) = (unat a * 256 + unat b) # v6_words rest"
| "v6_words _ = []"

fun hex_digits :: "nat \<Rightarrow> string" where
  "hex_digits n = (if n < 16 then [hexChar n] else hex_digits (n div 16) @ [hexChar (n mod 16)])"

definition zero_run :: "nat list \<Rightarrow> nat \<Rightarrow> nat" where
  "zero_run ws i = length (takeWhile (\<lambda>w. w = 0) (drop i ws))"

text \<open>The first longest run of at least two zero groups.\<close>

definition longest_zero_run :: "nat list \<Rightarrow> nat \<times> nat" where
  "longest_zero_run ws =
     fold (\<lambda>i (start, len). let l = zero_run ws i in if 2 \<le> l \<and> len < l then (i, l) else (start, len))
       [0..<length ws] (0, 0)"

definition ipv6_string :: "byte list \<Rightarrow> string" where
  "ipv6_string ip =
     (let ws = v6_words ip; groups = map hex_digits ws; (start, len) = longest_zero_run ws
      in if len = 0 then Join groups '':''
         else Join (take start groups) '':'' @ ''::'' @ Join (drop (start + len) groups) '':'')"

definition ip_String :: "byte list \<Rightarrow> string" where
  "ip_String ip =
     (if ip = [] then ''<nil>''
      else if length ip \<noteq> 4 \<and> length ip \<noteq> 16 then CHR ''?'' # hex_EncodeToString ip
      else case To4 ip of
        Some b \<Rightarrow> ipv4_string b
      | None \<Rightarrow> ipv6_string ip)"

section \<open>Membership is agreement on the prefix\<close>

definition byte_bits :: "byte \<Rightarrow> bool list" where
  "byte_bits b = map (bit b) [7, 6, 5, 4, 3, 2, 1, 0]"

definition ip_bits :: "byte list \<Rightarrow> bool list" where
  "ip_bits ip = concat (map byte_bits ip)"

lemma bit_255: "bit (255 :: byte) i \<longleftrightarrow> i < 8"
proof -
  have eq: "(255 :: byte) = mask 8" by (simp add: mask_eq_exp_minus_1)
  show ?thesis unfolding eq by (simp only: bit_mask_iff) simp
qed

lemma bit_mask_byte:
  assumes "j < 8"
  shows "bit (mask_byte n) j \<longleftrightarrow> 8 - n \<le> j"
proof (cases "8 \<le> n")
  case True
  then have "mask_byte n = 255" by (simp add: mask_byte_def)
  then show ?thesis using assms True unfolding \<open>mask_byte n = 255\<close> bit_255 by simp
next
  case False
  then have "bit (mask_byte n) j \<longleftrightarrow> \<not> bit (255 :: byte) (n + j)"
    using assms by (simp add: mask_byte_def bit_not_iff bit_drop_bit_eq)
  then show ?thesis using False unfolding bit_255 by auto
qed

lemma byte_eq_iff: "(a :: byte) = b \<longleftrightarrow> (\<forall>j < 8. bit a j = bit b j)"
  using bit_word_eqI [of a b] by auto

lemma all_less_8:
  "(\<forall>j < 8. P j) \<longleftrightarrow> P 0 \<and> P 1 \<and> P 2 \<and> P 3 \<and> P 4 \<and> P 5 \<and> P 6 \<and> P (7 :: nat)"
  by (simp add: eval_nat_numeral less_Suc_eq all_conj_distrib imp_disjL)

lemma masked_byte_iff:
  "a AND mask_byte n = b AND mask_byte n \<longleftrightarrow> take n (byte_bits a) = take n (byte_bits b)"
proof -
  have masked: "a AND mask_byte n = b AND mask_byte n \<longleftrightarrow> (\<forall>j < 8. 8 - n \<le> j \<longrightarrow> bit a j = bit b j)"
    by (auto simp: byte_eq_iff [of "a AND mask_byte n"] bit_and_iff bit_mask_byte)
  consider "n = 0" | "n = 1" | "n = 2" | "n = 3" | "n = 4" | "n = 5" | "n = 6" | "n = 7" | "8 \<le> n" by linarith
  then show ?thesis
    unfolding masked all_less_8 by cases (auto simp: byte_bits_def)
qed

lemma CIDRMask_Suc: "CIDRMask n (Suc k) = mask_byte n # CIDRMask (n - 8) k"
proof -
  have "map (\<lambda>i. mask_byte (n - 8 * i)) [1..<Suc k] = map (\<lambda>i. mask_byte (n - 8 - 8 * i)) [0..<k]"
    by (rule nth_equalityI) (simp_all del: upt_Suc)
  then show ?thesis by (simp add: CIDRMask_def upt_conv_Cons del: upt_Suc)
qed

lemma masked_prefix:
  "length a = length b \<Longrightarrow>
   and_bytes a (CIDRMask n (length a)) = and_bytes b (CIDRMask n (length a))
   \<longleftrightarrow> take n (ip_bits a) = take n (ip_bits b)"
proof (induction a b arbitrary: n rule: list_induct2)
  case (Cons x xs y ys)
  have len: "length (byte_bits x) = 8" "length (byte_bits y) = 8" by (simp_all add: byte_bits_def)
  have "take n (ip_bits (x # xs)) = take n (ip_bits (y # ys))
      \<longleftrightarrow> take n (byte_bits x) = take n (byte_bits y) \<and> take (n - 8) (ip_bits xs) = take (n - 8) (ip_bits ys)"
    using len by (simp add: ip_bits_def)
  with Cons show ?case
    using masked_byte_iff [of x n y] by (simp add: CIDRMask_Suc and_bytes_def)
qed (simp add: ip_bits_def and_bytes_def)

section \<open>Lengths\<close>

lemma sequence_length: "sequence xs = Some ys \<Longrightarrow> length ys = length xs"
  by (induction xs arbitrary: ys rule: sequence.induct) auto

lemma parseIPv4Fields_length: "parseIPv4Fields s = Some b \<Longrightarrow> length b = 4"
  by (auto simp: parseIPv4Fields_def Let_def dest: sequence_length split: if_splits)

lemma v6_groups_length:
  "v6_groups n ip ellipsis s = Some (ip', ellipsis', rest) \<Longrightarrow> length ip + 2 * n \<le> 16 \<Longrightarrow> length ip' \<le> 16"
proof (induction n ip ellipsis s rule: v6_groups.induct)
  case (2 n ip ellipsis s)
  then show ?case
    by (auto simp: Let_def dest: parseIPv4Fields_length split: if_splits)
qed simp

lemma expand_ellipsis_length: "expand_ellipsis ip e = Some b \<Longrightarrow> length ip \<le> 16 \<Longrightarrow> length b = 16"
  by (auto simp: expand_ellipsis_def min_def split: if_splits option.splits)

lemma parseIPv6_length: "parseIPv6 s = Some a \<Longrightarrow> \<exists>b zone. a = V6 b zone \<and> length b = 16"
proof -
  have "v6_groups 8 [] e t = Some (ip, e', rest) \<Longrightarrow> expand_ellipsis ip e' = Some b \<Longrightarrow> length b = 16" for e t ip e' rest b
    using v6_groups_length [of 8 "[]" e t ip e' rest] expand_ellipsis_length [of ip e' b] by simp
  then show "parseIPv6 s = Some a \<Longrightarrow> \<exists>b zone. a = V6 b zone \<and> length b = 16"
    by (auto simp: parseIPv6_def Let_def split: prod.splits if_splits option.splits)
qed

lemma ParseCIDR_length:
  assumes "ParseCIDR s = Some n"
  shows "length (netIP n) \<in> {4, 16} \<and> length (netMask n) = length (netIP n)"
proof -
  have len: "length (case a of V4 b \<Rightarrow> b | V6 b zone \<Rightarrow> b) \<in> {4, 16}" if "ParseAddr t = Some a" for t a
    using that parseIPv6_length [of t a]
    by (auto simp: ParseAddr_def dest: parseIPv4Fields_length split: option.splits if_splits)
  from assms show ?thesis
    by (auto simp: ParseCIDR_def Let_def CIDRMask_def and_bytes_def dest: len split: prod.splits if_splits option.splits)
qed

text \<open>No block contains the nil address.\<close>

lemma nil_not_contained:
  assumes "ParseCIDR s = Some n"
  shows "\<not> net_Contains n []"
proof -
  have "length (fst (networkNumberAndMask n)) \<in> {4, 16}"
    using ParseCIDR_length [OF assms] by (auto simp: networkNumberAndMask_def To4_def Let_def)
  then show ?thesis by (auto simp: net_Contains_def To4_def split: prod.splits)
qed

end
