(* ===== verification/Rate_Limit.thy ===== *)
theory Rate_Limit
  imports Http Go_Net
begin

text \<open>
  File \<^verbatim>\<open>internal/middleware/ratelimit.go\<close>: the source address of a request is resolved across
  trusted proxies, checked against the allowed networks, and counted in a fixed window. The
  state of the wrapped handler is paired with the counters. An address that is nil is the empty
  byte list.
\<close>

section \<open>Addresses\<close>

definition parseCIDRs :: "string list \<Rightarrow> ip_net list" where
  "parseCIDRs values = List.map_filter (\<lambda>v. ParseCIDR (TrimSpace v)) values"

fun containsIP :: "ip_net list \<Rightarrow> byte list \<Rightarrow> bool" where
  "containsIP [] ip = False"
| "containsIP (cidr # cidrs) ip = (if net_Contains cidr ip then True else containsIP cidrs ip)"

definition parseIPWithOptionalPort :: "string \<Rightarrow> byte list option" where
  "parseIPWithOptionalPort v =
     (let v = TrimSpace v;
          with_port = (case SplitHostPort v of
             None \<Rightarrow> None
           | Some (host, port) \<Rightarrow>
               if host = [] \<or> port = [] then None
               else if ParseUint port 16 = None then None
               else (case ParseAddr host of
                       None \<Rightarrow> None
                     | Some a \<Rightarrow> if addr_Zone a \<noteq> [] then None else Some (unmapped a)))
      in case ParseAddr v of
           Some a \<Rightarrow> if addr_Zone a = [] then Some (unmapped a) else with_port
         | None \<Rightarrow> with_port)"

section \<open>The limiter\<close>

record rate_window =
  rwStart :: instant
  rwCount :: int

record rate_limiter =
  rlAllowedCIDRs :: "ip_net list"
  rlTrustedProxyCIDRs :: "ip_net list"
  rlLimitPerIP :: int
  rlWindow :: duration
  rlProblemBase :: string

record rate_limit_config =
  rcAllowedCIDRs :: "string list"
  rcTrustedProxyCIDRs :: "string list"
  rcLimitPerIP :: int
  rcWindow :: duration
  rcProblemBase :: string

type_synonym counts = "string \<rightharpoonup> rate_window"

definition NewRateLimiter :: "rate_limit_config \<Rightarrow> rate_limiter" where
  "NewRateLimiter cfg =
     \<lparr>rlAllowedCIDRs = parseCIDRs (rcAllowedCIDRs cfg), rlTrustedProxyCIDRs = parseCIDRs (rcTrustedProxyCIDRs cfg),
      rlLimitPerIP = (if rcLimitPerIP cfg \<le> 0 then 500 else rcLimitPerIP cfg),
      rlWindow = (if rcWindow cfg \<le> 0 then second_ns else rcWindow cfg), rlProblemBase = rcProblemBase cfg\<rparr>"

record source_resolution =
  srPeerIP :: "byte list"
  srResolvedClientIP :: "byte list"
  srPeerTrusted :: bool
  srForwardedHeaderCount :: nat
  srForwardedHopCount :: nat
  srSourceResolution :: string

text \<open>The last hop that is not a trusted proxy, if there is one.\<close>

definition last_untrusted :: "ip_net list \<Rightarrow> byte list list \<Rightarrow> byte list option" where
  "last_untrusted trusted hops = find (\<lambda>hop. \<not> containsIP trusted hop) (rev hops)"

definition resolveSourceIP :: "rate_limiter \<Rightarrow> http_request \<Rightarrow> source_resolution" where
  "resolveSourceIP l r =
     (let resolution = \<lparr>srPeerIP = [], srResolvedClientIP = [], srPeerTrusted = False, srForwardedHeaderCount = 0,
                        srForwardedHopCount = 0, srSourceResolution = ''invalid_peer''\<rparr>
      in case parseIPWithOptionalPort (rqRemoteAddr r) of
           None \<Rightarrow> resolution
         | Some peer \<Rightarrow>
             let values = header_Values r ''X-Forwarded-For'';
                 resolution = resolution\<lparr>srPeerIP := peer, srForwardedHeaderCount := length values\<rparr>;
                 resolution = (if length values = 1 \<and> TrimSpace (values ! 0) \<noteq> []
                               then resolution\<lparr>srForwardedHopCount := length (SplitChar CHR '','' (values ! 0))\<rparr>
                               else resolution)
             in if rlTrustedProxyCIDRs l = [] \<or> \<not> containsIP (rlTrustedProxyCIDRs l) peer then
                  resolution\<lparr>srSourceResolution := ''direct_peer'', srResolvedClientIP := peer\<rparr>
                else
                  let resolution = resolution\<lparr>srPeerTrusted := True, srSourceResolution := ''trusted_forwarded''\<rparr>;
                      invalid = resolution\<lparr>srSourceResolution := ''invalid_forwarded_chain''\<rparr>
                  in if length values \<noteq> 1 \<or> TrimSpace (values ! 0) = [] then invalid
                     else case sequence (map parseIPWithOptionalPort (SplitChar CHR '','' (values ! 0))) of
                       None \<Rightarrow> invalid
                     | Some hops \<Rightarrow>
                         (case last_untrusted (rlTrustedProxyCIDRs l) hops of
                            Some hop \<Rightarrow> resolution\<lparr>srResolvedClientIP := hop\<rparr>
                          | None \<Rightarrow> invalid))"

definition sourceIP :: "rate_limiter \<Rightarrow> http_request \<Rightarrow> byte list" where
  "sourceIP l r = srResolvedClientIP (resolveSourceIP l r)"

definition sourceAllowed :: "rate_limiter \<Rightarrow> byte list \<Rightarrow> bool" where
  "sourceAllowed l ip \<longleftrightarrow> rlAllowedCIDRs l \<noteq> [] \<and> containsIP (rlAllowedCIDRs l) ip"

definition sourceIPResolutionAttrs :: "source_resolution \<Rightarrow> attr list" where
  "sourceIPResolutionAttrs res =
     [AttrBool ''peerTrusted'' (srPeerTrusted res), AttrInt ''forwardedHeaderCount'' (int (srForwardedHeaderCount res)),
      AttrInt ''forwardedHopCount'' (int (srForwardedHopCount res)), AttrString ''sourceResolution'' (srSourceResolution res)]
     @ (if srPeerIP res \<noteq> [] then [AttrString ''peerIp'' (ip_String (srPeerIP res))] else [])
     @ (if srResolvedClientIP res \<noteq> [] then [AttrString ''resolvedClientIp'' (ip_String (srResolvedClientIP res))] else [])"

definition rateKey :: "byte list \<Rightarrow> string" where
  "rateKey ip = ip_String ip"

definition allow :: "rate_limiter \<Rightarrow> counts \<Rightarrow> string \<Rightarrow> instant \<Rightarrow> bool \<times> counts" where
  "allow l cs key now =
     (let current = (case cs key of Some w \<Rightarrow> w | None \<Rightarrow> \<lparr>rwStart = 0, rwCount = 0\<rparr>) in
      if rwStart current = 0 \<or> time_Sub now (rwStart current) \<ge> rlWindow l
      then (True, cs(key \<mapsto> \<lparr>rwStart = now, rwCount = 1\<rparr>))
      else if rwCount current \<ge> rlLimitPerIP l then (False, cs)
      else (True, cs(key \<mapsto> current\<lparr>rwCount := rwCount current + 1\<rparr>)))"

definition rate_limit_Wrap :: "rate_limiter \<Rightarrow> 's handler \<Rightarrow> (counts \<times> 's) handler" where
  "rate_limit_Wrap l inner env r = (\<lambda>(cs, s).
     let resolution = resolveSourceIP l r;
         sourceIP = srResolvedClientIP resolution
     in if \<not> sourceAllowed l sourceIP then
          reject (recordMiddlewareOutcome True (requestid_From r) ''ratelimit'' 401 ''unauthorized'' ''source_ip_not_allowed''
                    (sourceIPResolutionAttrs resolution))
            (Unauthorized (rlProblemBase l) (rqPath r) (requestid_From r) ''source ip is not allowed'') [] (cs, s)
        else case allow l cs (rateKey sourceIP) (heRate env) of
          (False, cs') \<Rightarrow>
            reject (recordMiddlewareOutcome True (requestid_From r) ''ratelimit'' 429 ''rate_limited'' ''request_rate_exceeded'' [])
              (TooManyRequests (rlProblemBase l) (rqPath r) (requestid_From r) ''request rate exceeded'') [] (cs', s)
        | (True, cs') \<Rightarrow>
            (let reply = inner env r s in
             \<lparr>rpResult = rpResult reply, rpWrites = rpWrites reply, rpObs = rpObs reply,
              rpBuffers = rpBuffers reply, rpState = (cs', rpState reply)\<rparr>))"

section \<open>Sources\<close>

lemma length_CIDRMask [simp]: "length (CIDRMask n k) = k"
  by (simp add: CIDRMask_def)

lemma and_bytes_idem: "length a = length m \<Longrightarrow> and_bytes (and_bytes a m) m = and_bytes a m"
  by (induction a m rule: list_induct2) (simp_all add: and_bytes_def)

lemma length_and_bytes [simp]: "length (and_bytes a m) = min (length a) (length m)"
  by (simp add: and_bytes_def)

lemma and_mask_byte_255: "x AND mask_byte k = 255 \<Longrightarrow> 8 \<le> k"
proof -
  assume "x AND mask_byte k = 255"
  then have "bit (mask_byte k) 0" using bit_255 [of 0] by (metis bit_and_iff zero_less_numeral)
  then show "8 \<le> k" using bit_mask_byte [of 0 k] by simp
qed

lemma mask_byte_full: "8 \<le> k \<Longrightarrow> x AND mask_byte k = x"
  by (simp add: byte_eq_iff bit_and_iff bit_mask_byte)

text \<open>Masking an address that is not an embedded IPv4 address does not make it one.\<close>

lemma masked_not_mapped:
  assumes "length net = 16" and "take 12 net \<noteq> v4InV6Prefix"
  shows "take 12 (and_bytes net (CIDRMask n 16)) \<noteq> v4InV6Prefix"
proof
  assume eq: "take 12 (and_bytes net (CIDRMask n 16)) = v4InV6Prefix"
  have nth: "and_bytes net (CIDRMask n 16) ! i = net ! i AND mask_byte (n - 8 * i)" if "i < 16" for i
    using that assms(1) by (simp add: and_bytes_def CIDRMask_def)
  have "take 12 (and_bytes net (CIDRMask n 16)) ! 11 = 255" unfolding eq by (simp add: v4InV6Prefix_def nth_append)
  then have n: "96 \<le> n" using and_mask_byte_255 [of "net ! 11" "n - 8 * 11"] nth [of 11] by simp
  have "take 12 net = take 12 (and_bytes net (CIDRMask n 16))"
    using assms(1) n by (intro nth_equalityI) (auto simp: nth mask_byte_full)
  with eq assms(2) show False by simp
qed

definition addr_bytes :: "addr \<Rightarrow> byte list" where
  "addr_bytes a = (case a of V4 b \<Rightarrow> b | V6 b zone \<Rightarrow> b)"

text \<open>The bytes of an address that \<^verbatim>\<open>net.IP\<close> does not read as an embedded IPv4 address.\<close>

definition plain_ip :: "byte list \<Rightarrow> bool" where
  "plain_ip ip \<longleftrightarrow> length ip = 4 \<or> length ip = 16 \<and> take 12 ip \<noteq> v4InV6Prefix"

lemma To4_plain: "plain_ip ip \<Longrightarrow> (case To4 ip of Some b \<Rightarrow> b | None \<Rightarrow> ip) = ip"
  by (auto simp: plain_ip_def To4_def)

lemma network_plain:
  assumes "plain_ip x" and "length m = length x"
  shows "networkNumberAndMask \<lparr>netIP = x, netMask = m\<rparr> = (x, m)"
  using assms by (cases "length x = 4") (auto simp: networkNumberAndMask_def To4_def plain_ip_def)

lemma plain_masked: "plain_ip net \<Longrightarrow> plain_ip (and_bytes net (CIDRMask n (length net)))"
  using masked_not_mapped [of net n] by (auto simp: plain_ip_def)

text \<open>
  Membership in a network block is agreement on its prefix. A configured block, written
  as an address and a prefix length, contains exactly the addresses of the same family whose
  leading bits are those of the block's address.
\<close>

theorem cidr_membership_is_prefix:
  assumes "CutChar CHR ''/'' (TrimSpace s) = (text, digits, True)"
    and "ParseAddr text = Some a" and "addr_Zone a = []" and "dtoi_all digits = Some n"
    and "n \<le> 8 * length (addr_bytes a)" and "plain_ip (addr_bytes a)" and "plain_ip ip"
  shows "containsIP (parseCIDRs [s]) ip \<longleftrightarrow>
           length ip = length (addr_bytes a) \<and> take n (ip_bits ip) = take n (ip_bits (addr_bytes a))"
proof -
  let ?net = "addr_bytes a" and ?m = "CIDRMask n (length (addr_bytes a))"
  have "ParseCIDR (TrimSpace s) = Some \<lparr>netIP = and_bytes ?net ?m, netMask = ?m\<rparr>"
    using assms(1-5) by (simp add: ParseCIDR_def addr_bytes_def [symmetric] Let_def)
  then have "containsIP (parseCIDRs [s]) ip \<longleftrightarrow> net_Contains \<lparr>netIP = and_bytes ?net ?m, netMask = ?m\<rparr> ip"
    by (simp add: parseCIDRs_def List.map_filter_def)
  also have "\<dots> \<longleftrightarrow> length ip = length ?net \<and> and_bytes (and_bytes ?net ?m) ?m = and_bytes ip ?m"
    using network_plain [OF plain_masked [OF assms(6), of n], of ?m] To4_plain [OF assms(7)]
    by (simp add: net_Contains_def)
  also have "\<dots> \<longleftrightarrow> length ip = length ?net \<and> take n (ip_bits ip) = take n (ip_bits ?net)"
    using masked_prefix [of ?net ip n] by (auto simp: and_bytes_idem)
  finally show ?thesis .
qed

theorem cidr_membership_is_prefix_witness:
  "containsIP (parseCIDRs ['' 10.1.2.0/23'']) [10, 1, 3, 7] \<longleftrightarrow>
     length [10, 1, 3, 7 :: byte] = 4 \<and> take 23 (ip_bits [10, 1, 3, 7]) = take 23 (ip_bits [10, 1, 2, 0])"
proof -
  have p: "CutChar CHR ''/'' (TrimSpace '' 10.1.2.0/23'') = (''10.1.2.0'', ''23'', True)"
    "ParseAddr ''10.1.2.0'' = Some (V4 [10, 1, 2, 0])" "dtoi_all ''23'' = Some 23"
    by code_simp+
  show ?thesis
    using cidr_membership_is_prefix [OF p(1,2) _ p(3), of "[10, 1, 3, 7]"]
    by (simp add: addr_bytes_def plain_ip_def)
qed

lemma SplitChar_append: "SplitChar sep (s @ sep # t) = SplitChar sep s @ SplitChar sep t"
  by (induction s) (auto split: list.splits)

lemma sequence_append: "sequence (xs @ ys) = Some zs \<Longrightarrow> \<exists>us vs. sequence xs = Some us \<and> sequence ys = Some vs \<and> zs = us @ vs"
proof (induction xs arbitrary: zs)
  case (Cons x xs)
  then obtain a as where x: "x = Some a" "sequence (xs @ ys) = Some as" "zs = a # as" by (cases x) auto
  with Cons.IH [OF x(2)] show ?case by auto
qed simp

lemma last_untrusted_append:
  "last_untrusted trusted hops = Some hop \<Longrightarrow> last_untrusted trusted (others @ hops) = Some hop"
proof -
  have "find P xs = Some x \<Longrightarrow> find P (xs @ ys) = Some x" for P and x :: "byte list" and xs ys
    by (induction xs) auto
  then show "last_untrusted trusted hops = Some hop \<Longrightarrow> last_untrusted trusted (others @ hops) = Some hop"
    by (simp add: last_untrusted_def)
qed

text \<open>The resolved address, by cases.\<close>

lemma sourceIP_cases:
  "sourceIP l r =
     (case parseIPWithOptionalPort (rqRemoteAddr r) of
        None \<Rightarrow> []
      | Some peer \<Rightarrow>
          if \<not> containsIP (rlTrustedProxyCIDRs l) peer then peer
          else case header_Values r ''X-Forwarded-For'' of
            [v] \<Rightarrow>
              if TrimSpace v = [] then []
              else (case sequence (map parseIPWithOptionalPort (SplitChar CHR '','' v)) of
                      None \<Rightarrow> []
                    | Some hops \<Rightarrow> (case last_untrusted (rlTrustedProxyCIDRs l) hops of Some hop \<Rightarrow> hop | None \<Rightarrow> []))
          | _ \<Rightarrow> [])"
proof (cases "parseIPWithOptionalPort (rqRemoteAddr r)")
  case None
  then show ?thesis by (simp add: sourceIP_def resolveSourceIP_def)
next
  case peer: (Some peer)
  show ?thesis
  proof (cases "containsIP (rlTrustedProxyCIDRs l) peer")
    case False
    with peer show ?thesis by (simp add: sourceIP_def resolveSourceIP_def Let_def)
  next
    case True
    then have "rlTrustedProxyCIDRs l \<noteq> []" by auto
    with True peer show ?thesis
      by (simp add: sourceIP_def resolveSourceIP_def Let_def split: option.split list.split)
  qed
qed

text \<open>
  C12: the client address cannot be forged with the forwarding header. For a peer that is not
  a trusted proxy the header has no influence. Behind a trusted proxy, once the hops the
  proxies wrote determine a client, whatever the client put in front of them leaves that
  client's address or makes the request unresolvable.
\<close>

theorem forwarded_for_cannot_forge:
  assumes "rqRemoteAddr r' = rqRemoteAddr r" and "parseIPWithOptionalPort (rqRemoteAddr r) = Some peer"
    and "header_Values r ''X-Forwarded-For'' = [v]" and "header_Values r' ''X-Forwarded-For'' = [forged @ '','' @ v]"
    and "sourceIP l r \<noteq> []"
  shows "(\<not> containsIP (rlTrustedProxyCIDRs l) peer \<longrightarrow> sourceIP l r = peer \<and> sourceIP l r' = peer)
       \<and> (sourceIP l r' = sourceIP l r \<or> sourceIP l r' = [])"
proof (cases "containsIP (rlTrustedProxyCIDRs l) peer")
  case False
  then show ?thesis using assms(1,2) by (simp add: sourceIP_cases)
next
  case True
  obtain hops where hops: "sequence (map parseIPWithOptionalPort (SplitChar CHR '','' v)) = Some hops"
    "last_untrusted (rlTrustedProxyCIDRs l) hops = Some (sourceIP l r)"
    using assms(2,3,5) True by (auto simp: sourceIP_cases split: option.splits if_splits)
  have split: "SplitChar CHR '','' (forged @ '','' @ v) = SplitChar CHR '','' forged @ SplitChar CHR '','' v"
    using SplitChar_append [of "CHR '',''" forged v] by simp
  have "sourceIP l r' = sourceIP l r \<or> sourceIP l r' = []"
  proof (cases "sequence (map parseIPWithOptionalPort (SplitChar CHR '','' (forged @ '','' @ v)))")
    case None
    then show ?thesis using assms(1,2,4) True by (simp add: sourceIP_cases [of l r'])
  next
    case (Some all)
    then obtain us where "all = us @ hops" using sequence_append [of "map parseIPWithOptionalPort (SplitChar CHR '','' forged)"]
        hops(1) unfolding split by fastforce
    then have "last_untrusted (rlTrustedProxyCIDRs l) all = Some (sourceIP l r)"
      using last_untrusted_append [OF hops(2)] by simp
    then show ?thesis using Some assms(1,2,4) True by (simp add: sourceIP_cases [of l r'])
  qed
  with True show ?thesis by simp
qed

definition forwarded_request :: "string \<Rightarrow> string \<Rightarrow> http_request" where
  "forwarded_request remote v = \<lparr>rqMethod = ''POST'', rqPath = ''/'', rqRemoteAddr = remote,
     rqHeader = (\<lambda>name. if name = ''X-Forwarded-For'' then [v] else []), rqBody = [], rqTraceID = []\<rparr>"

theorem forwarded_for_cannot_forge_witness:
  "let l = NewRateLimiter \<lparr>rcAllowedCIDRs = [], rcTrustedProxyCIDRs = [''10.0.0.0/8''], rcLimitPerIP = 1,
             rcWindow = 1, rcProblemBase = []\<rparr>;
       r = forwarded_request ''10.0.0.1:80'' ''1.2.3.4'';
       r' = forwarded_request ''10.0.0.1:80'' ''8.8.8.8,1.2.3.4''
   in sourceIP l r = [1, 2, 3, 4] \<and> (sourceIP l r' = sourceIP l r \<or> sourceIP l r' = [])"
proof -
  let ?l = "NewRateLimiter \<lparr>rcAllowedCIDRs = [], rcTrustedProxyCIDRs = [''10.0.0.0/8''], rcLimitPerIP = 1,
              rcWindow = 1, rcProblemBase = []\<rparr>"
  let ?r = "forwarded_request ''10.0.0.1:80'' ''1.2.3.4''"
  let ?r' = "forwarded_request ''10.0.0.1:80'' (''8.8.8.8'' @ '','' @ ''1.2.3.4'')"
  have e: "rqRemoteAddr ?r' = rqRemoteAddr ?r" "parseIPWithOptionalPort (rqRemoteAddr ?r) = Some [10, 0, 0, 1]"
    "header_Values ?r ''X-Forwarded-For'' = [''1.2.3.4'']"
    "header_Values ?r' ''X-Forwarded-For'' = [''8.8.8.8'' @ '','' @ ''1.2.3.4'']"
    "sourceIP ?l ?r = [1, 2, 3, 4]"
    by code_simp+
  then have ne: "sourceIP ?l ?r \<noteq> []" by simp
  show ?thesis using forwarded_for_cannot_forge [OF e(1-4) ne] e(5) by (simp add: Let_def)
qed

section \<open>The window\<close>

text \<open>The calls that are let through, of a sequence of calls.\<close>

fun granted :: "rate_limiter \<Rightarrow> counts \<Rightarrow> (string \<times> instant) list \<Rightarrow> (string \<times> instant) list" where
  "granted l cs [] = []"
| "granted l cs ((key, now) # calls) =
     (case allow l cs key now of (ok, cs') \<Rightarrow> (if ok then [(key, now)] else []) @ granted l cs' calls)"

text \<open>How many calls of a key fall in the interval of one window that begins at an instant.\<close>

definition calls_within :: "rate_limiter \<Rightarrow> string \<Rightarrow> instant \<Rightarrow> (string \<times> instant) list \<Rightarrow> nat" where
  "calls_within l key t calls = length (filter (\<lambda>(k, now). k = key \<and> t \<le> now \<and> now < t + rlWindow l) calls)"

lemma calls_within_simps [simp]:
  "calls_within l key t [] = 0"
  "calls_within l key t ((k, now) # calls) =
     (if k = key \<and> t \<le> now \<and> now < t + rlWindow l then 1 else 0) + calls_within l key t calls"
  by (simp_all add: calls_within_def)

lemma granted_subset: "set (granted l cs calls) \<subseteq> set calls"
proof (induction calls arbitrary: cs)
  case (Cons call calls)
  then show ?case by (cases call) (auto split: prod.splits)
qed simp

lemma calls_within_late:
  "\<forall>(k, now) \<in> set calls. t + rlWindow l \<le> now \<Longrightarrow> calls_within l key t (granted l cs calls) = 0"
  using granted_subset [of l cs calls] by (fastforce simp: calls_within_def filter_empty_conv)

definition limits :: "rate_limiter \<Rightarrow> bool" where
  "limits l \<longleftrightarrow> 0 < rlLimitPerIP l \<and> 0 < rlWindow l \<and> rlWindow l \<le> maxDuration"

text \<open>The counter of a key: in use since an instant, with the number of calls let through.\<close>

definition counter :: "rate_limiter \<Rightarrow> counts \<Rightarrow> string \<Rightarrow> instant \<Rightarrow> nat \<Rightarrow> bool" where
  "counter l cs key since n \<longleftrightarrow>
     cs key = Some \<lparr>rwStart = since, rwCount = int n\<rparr> \<and> 0 < since \<and> 0 < n \<and> int n \<le> rlLimitPerIP l"

lemma allow_other: "key \<noteq> k \<Longrightarrow> snd (allow l cs k now) key = cs key"
  by (simp add: allow_def Let_def)

lemma allow_counter:
  assumes "limits l" and "counter l cs key since n" and "since \<le> now"
  shows "since + rlWindow l \<le> now \<Longrightarrow> fst (allow l cs key now) \<and> counter l (snd (allow l cs key now)) key now 1"
    and "now < since + rlWindow l \<Longrightarrow> int n < rlLimitPerIP l \<Longrightarrow>
           fst (allow l cs key now) \<and> counter l (snd (allow l cs key now)) key since (Suc n)"
    and "now < since + rlWindow l \<Longrightarrow> int n = rlLimitPerIP l \<Longrightarrow> allow l cs key now = (False, cs)"
  using assms by (auto simp: allow_def counter_def limits_def time_Sub_def minDuration_def Let_def)

lemma allow_fresh:
  "limits l \<Longrightarrow> cs key = None \<Longrightarrow> 0 < now \<Longrightarrow> fst (allow l cs key now) \<and> counter l (snd (allow l cs key now)) key now 1"
  by (simp add: allow_def counter_def limits_def Let_def)

text \<open>While a counter is in use, what is let through before the window ends is what is left of it.\<close>

lemma granted_in_window:
  assumes "limits l" and "counter l cs key since n" and "sorted (map snd calls)" and "\<forall>(k, now) \<in> set calls. since \<le> now"
    and "t \<le> since"
  shows "calls_within l key t (granted l cs calls) + n \<le> nat (rlLimitPerIP l)"
  using assms
proof (induction calls arbitrary: cs n)
  case Nil
  then show ?case by (simp add: counter_def limits_def le_nat_iff)
next
  case (Cons call calls)
  obtain k now where call: "call = (k, now)" by (cases call)
  note IH = Cons.IH [OF Cons.prems(1)]
  have n: "int n \<le> rlLimitPerIP l" and since: "since \<le> now" using Cons.prems call by (auto simp: counter_def)
  show ?case
  proof (cases "since + rlWindow l \<le> now")
    case True
    then have late: "\<forall>(k, now) \<in> set (call # calls). t + rlWindow l \<le> now" using Cons.prems(3,5) call by fastforce
    have "calls_within l key t (granted l cs (call # calls)) = 0" by (rule calls_within_late [OF late])
    with n show ?thesis by simp
  next
    case open_: False
    show ?thesis
    proof (cases "k = key")
      case False
      then have "counter l (snd (allow l cs k now)) key since n"
        using Cons.prems(2) allow_other [of key k l cs now] by (simp add: counter_def)
      from IH [OF this] False Cons.prems show ?thesis by (simp add: call split_beta)
    next
      case True
      show ?thesis
      proof (cases "int n < rlLimitPerIP l")
        case False
        with n open_ have "allow l cs key now = (False, cs)" using allow_counter(3) [OF Cons.prems(1,2) since] by simp
        with IH [OF Cons.prems(2)] Cons.prems True show ?thesis by (simp add: call)
      next
        case below: True
        then have "fst (allow l cs key now)" "counter l (snd (allow l cs key now)) key since (Suc n)"
          using allow_counter(2) [OF Cons.prems(1,2) since] open_ by simp_all
        with IH [OF this(2)] Cons.prems True show ?thesis by (simp add: call split_beta)
      qed
    qed
  qed
qed

text \<open>The counter of a key, in use or not.\<close>

definition counter_of :: "rate_limiter \<Rightarrow> counts \<Rightarrow> string \<Rightarrow> (string \<times> instant) list \<Rightarrow> nat \<Rightarrow> bool" where
  "counter_of l cs key calls n \<longleftrightarrow>
     cs key = None \<and> n = 0 \<or> (\<exists>since. counter l cs key since n \<and> (\<forall>(k, now) \<in> set calls. since \<le> now))"

lemma counter_of_step:
  assumes "limits l" and "counter_of l cs key ((k, now) # calls) n" and "sorted (map snd ((k, now) # calls))" and "0 < now"
  obtains (other) "k \<noteq> key" "counter_of l (snd (allow l cs k now)) key calls n"
  | (full) "k = key" "allow l cs k now = (False, cs)" "counter_of l cs key calls n"
  | (counted) "k = key" "fst (allow l cs k now)" "int n < rlLimitPerIP l" "counter_of l (snd (allow l cs k now)) key calls (Suc n)"
  | (reset) "k = key" "fst (allow l cs k now)" "counter l (snd (allow l cs k now)) key now 1" "\<forall>(k, t) \<in> set calls. now \<le> t"
proof (cases "k = key")
  case False
  then have "counter_of l (snd (allow l cs k now)) key calls n"
    using assms(2) allow_other [of key k l cs now] by (auto simp: counter_of_def counter_def)
  with False show thesis by (rule other)
next
  case key: True
  have later: "\<forall>(k, t) \<in> set calls. now \<le> t" using assms(3) by auto
  show thesis
  proof (cases "cs key")
    case None
    then show thesis using reset [OF key] allow_fresh [of l cs key now] assms(1,4) later key by simp
  next
    case Some
    then obtain since where since: "counter l cs key since n" "since \<le> now" "\<forall>(k, t) \<in> set calls. since \<le> t"
      using assms(2) by (auto simp: counter_of_def)
    note step = allow_counter [OF assms(1) since(1,2)]
    consider "since + rlWindow l \<le> now" | "now < since + rlWindow l" "int n < rlLimitPerIP l"
      | "now < since + rlWindow l" "int n = rlLimitPerIP l"
      using since(1) by (force simp: counter_def)
    then show thesis
    proof cases
      case 1
      with step(1) later key show thesis by (intro reset) auto
    next
      case 2
      with step(2) since(3) key show thesis by (intro counted) (auto simp: counter_of_def)
    next
      case 3
      with step(3) since(1,3) key show thesis by (intro full) (auto simp: counter_of_def)
    qed
  qed
qed

lemma granted_from:
  assumes "limits l" and "counter_of l cs key calls n" and "sorted (map snd calls)"
    and "\<forall>(k, now) \<in> set calls. 0 < now \<and> t \<le> now"
  shows "calls_within l key t (granted l cs calls) + n \<le> 2 * nat (rlLimitPerIP l)"
  using assms
proof (induction calls arbitrary: cs n)
  case Nil
  then show ?case by (auto simp: counter_of_def counter_def limits_def)
next
  case (Cons call calls)
  obtain k now where call: "call = (k, now)" by (cases call)
  have t: "t \<le> now" "0 < now" using Cons.prems(4) call by auto
  have n: "n \<le> nat (rlLimitPerIP l)" using Cons.prems(1,2) by (auto simp: counter_of_def counter_def le_nat_iff limits_def)
  have "calls_within l key t (granted l cs ((k, now) # calls)) + n \<le> 2 * nat (rlLimitPerIP l)"
    using Cons.prems(1-3) t(2) unfolding call
  proof (cases rule: counter_of_step)
    case other
    with Cons.IH [OF Cons.prems(1) other(2)] Cons.prems(3,4) show ?thesis by (simp add: call split_beta)
  next
    case full
    with Cons.IH [OF Cons.prems(1) full(3)] Cons.prems(3,4) show ?thesis by (simp add: call)
  next
    case counted
    with Cons.IH [OF Cons.prems(1) counted(4)] Cons.prems(3,4) show ?thesis by (simp add: call split_beta)
  next
    case reset
    have "calls_within l key t (granted l (snd (allow l cs k now)) calls) + 1 \<le> nat (rlLimitPerIP l)"
      using granted_in_window [OF Cons.prems(1) reset(3) _ reset(4) t(1)] Cons.prems(3) call by simp
    with reset(1,2) n show ?thesis by (simp add: split_beta)
  qed
  then show ?case by (simp only: call)
qed

lemma granted_any:
  assumes "limits l" and "counter_of l cs key calls n" and "sorted (map snd calls)" and "\<forall>(k, now) \<in> set calls. 0 < now"
  shows "calls_within l key t (granted l cs calls) \<le> 2 * nat (rlLimitPerIP l)"
  using assms
proof (induction calls arbitrary: cs n)
  case (Cons call calls)
  obtain k now where call: "call = (k, now)" by (cases call)
  have now: "0 < now" using Cons.prems(4) call by auto
  show ?case
  proof (cases "t \<le> now")
    case True
    then have "\<forall>(k, now) \<in> set (call # calls). 0 < now \<and> t \<le> now" using Cons.prems(3,4) call by fastforce
    from granted_from [OF Cons.prems(1-3) this] show ?thesis by simp
  next
    case early: False
    have "\<exists>m. counter_of l (snd (allow l cs k now)) key calls m"
      using Cons.prems(1-3) now unfolding call
    proof (cases rule: counter_of_step)
      case reset
      then show ?thesis by (auto simp: counter_of_def)
    qed auto
    then obtain m where "counter_of l (snd (allow l cs k now)) key calls m" ..
    from Cons.IH [OF Cons.prems(1) this] Cons.prems(3,4) early show ?thesis by (simp add: call split_beta)
  qed
qed simp

text \<open>
  C14: no source exceeds twice its limit in any interval of one window. Whatever calls of
  whatever keys arrive in the order of their times, of the calls of one key in any interval as
  long as the window at most twice the limit are let through; in the interval that begins with
  the first call of the key, at most the limit.
\<close>

theorem rate_bounded:
  assumes "limits l" and "sorted (map snd calls)" and "\<forall>(k, now) \<in> set calls. 0 < now"
  shows "calls_within l key t (granted l Map.empty calls) \<le> 2 * nat (rlLimitPerIP l)
       \<and> (\<forall>first rest. calls = (key, first) # rest \<longrightarrow>
            calls_within l key first (granted l Map.empty calls) \<le> nat (rlLimitPerIP l))"
proof (intro conjI allI impI)
  show "calls_within l key t (granted l Map.empty calls) \<le> 2 * nat (rlLimitPerIP l)"
    by (rule granted_any [OF assms(1) _ assms(2,3), of _ _ 0]) (simp add: counter_of_def)
  fix first rest
  assume calls: "calls = (key, first) # rest"
  have fresh: "fst (allow l Map.empty key first)" "counter l (snd (allow l Map.empty key first)) key first 1"
    using allow_fresh [of l Map.empty key first] assms(1,3) calls by auto
  have "calls_within l key first (granted l (snd (allow l Map.empty key first)) rest) + 1 \<le> nat (rlLimitPerIP l)"
    using assms(2) calls by (intro granted_in_window [OF assms(1) fresh(2)]) auto
  with fresh(1) assms(1) show "calls_within l key first (granted l Map.empty calls) \<le> nat (rlLimitPerIP l)"
    by (simp add: calls split_beta limits_def)
qed

text \<open>A limiter with two calls a second, and four calls of one source.\<close>

theorem rate_bounded_witness:
  "let l = NewRateLimiter \<lparr>rcAllowedCIDRs = [], rcTrustedProxyCIDRs = [], rcLimitPerIP = 2, rcWindow = 100, rcProblemBase = []\<rparr>;
       calls = [(''a'', 1), (''a'', 90), (''a'', 95), (''a'', 120)]
   in granted l Map.empty calls = [(''a'', 1), (''a'', 90), (''a'', 120)]
      \<and> calls_within l ''a'' 50 (granted l Map.empty calls) \<le> 2 * nat (rlLimitPerIP l)
      \<and> calls_within l ''a'' 1 (granted l Map.empty calls) \<le> nat (rlLimitPerIP l)"
proof -
  let ?l = "NewRateLimiter \<lparr>rcAllowedCIDRs = [], rcTrustedProxyCIDRs = [], rcLimitPerIP = 2, rcWindow = 100, rcProblemBase = []\<rparr>"
  let ?calls = "[(''a'', 1 :: instant), (''a'', 90), (''a'', 95), (''a'', 120)]"
  have "limits ?l" by code_simp
  moreover have "sorted (map snd ?calls)" "\<forall>(k, now) \<in> set ?calls. 0 < now" by simp_all
  ultimately have "calls_within ?l ''a'' 50 (granted ?l Map.empty ?calls) \<le> 2 * nat (rlLimitPerIP ?l)
     \<and> (\<forall>first rest. ?calls = (''a'', first) # rest \<longrightarrow>
          calls_within ?l ''a'' first (granted ?l Map.empty ?calls) \<le> nat (rlLimitPerIP ?l))"
    by (rule rate_bounded)
  then have "calls_within ?l ''a'' 50 (granted ?l Map.empty ?calls) \<le> 2 * nat (rlLimitPerIP ?l)"
    "calls_within ?l ''a'' 1 (granted ?l Map.empty ?calls) \<le> nat (rlLimitPerIP ?l)"
    by blast+
  moreover have "granted ?l Map.empty ?calls = [(''a'', 1), (''a'', 90), (''a'', 120)]" by code_simp
  ultimately show ?thesis by (simp only: Let_def)
qed

text \<open>
  C11: the source check is a gate. A request whose source cannot be resolved or lies outside
  the allowed blocks, and every request when no block is configured, is answered with 401, and
  one over the rate with 429; neither reaches the wrapped handler or changes any state. Every
  other request is passed on as it is, with the wrapped handler's answer.
\<close>

theorem source_gate:
  "let l = NewRateLimiter cfg;
       reply = rate_limit_Wrap l inner env r (cs, s); (ok, cs') = allow l cs (rateKey (sourceIP l r)) (heRate env) in
   if sourceIP l r \<noteq> [] \<and> containsIP (rlAllowedCIDRs l) (sourceIP l r) then
     (if ok then rpResult reply = rpResult (inner env r s) \<and> rpWrites reply = rpWrites (inner env r s)
                 \<and> rpState reply = (cs', rpState (inner env r s))
      else rpResult reply = Returned () \<and> response_status (rpWrites reply) = 429 \<and> rpState reply = (cs, s))
   else rpResult reply = Returned () \<and> response_status (rpWrites reply) = 401 \<and> rpState reply = (cs, s)"
proof -
  let ?l = "NewRateLimiter cfg"
  have "\<not> containsIP (parseCIDRs vs) []" for vs
    by (induction vs) (auto simp: parseCIDRs_def List.map_filter_simps nil_not_contained split: option.splits)
  then have nil: "\<not> containsIP (rlAllowedCIDRs ?l) []" by (simp add: NewRateLimiter_def)
  have denied: "\<not> fst (allow l cs key now) \<Longrightarrow> snd (allow l cs key now) = cs" for l key now
    by (auto simp: allow_def Let_def split: if_splits)
  have allowed: "sourceAllowed l ip \<longleftrightarrow> containsIP (rlAllowedCIDRs l) ip" for l ip
    by (cases "rlAllowedCIDRs l") (auto simp: sourceAllowed_def)
  show ?thesis
    using nil denied [of ?l "rateKey (sourceIP ?l r)" "heRate env"] response_status_problem [where ws = "[]"]
    by (auto simp: rate_limit_Wrap_def allowed sourceIP_def reject_def Unauthorized_def TooManyRequests_def NewProblem_def
        Let_def split: prod.splits bool.splits)
qed

end
