(* ===== verification/Go_Time_Order.thy ===== *)
theory Go_Time_Order
  imports Go_Time "HOL-Library.Monad_Syntax"
begin

text \<open>
  The time layout with nine fractional digits. Its parser (\<^verbatim>\<open>time.Parse\<close> with the layout
  \<^verbatim>\<open>2006-01-02T15:04:05.000000000Z\<close>) reads back what the formatter writes, and for years of
  four digits the order of the texts, byte by byte, is the order of the instants. A store that
  can only compare strings therefore compares times.
\<close>

section \<open>Parsing\<close>

definition starts_with_digit :: "string \<Rightarrow> bool" where
  "starts_with_digit s \<longleftrightarrow> s \<noteq> [] \<and> is_digit (hd s)"

text \<open>\<^verbatim>\<open>getnum\<close>: one or two digits, two when \<open>fixed\<close>.\<close>

definition getnum :: "bool \<Rightarrow> string \<Rightarrow> (nat \<times> string) option" where
  "getnum fixed s =
     (if \<not> starts_with_digit s then None
      else if \<not> starts_with_digit (tl s) then (if fixed then None else Some (ord (hd s) - 48, tl s))
      else Some (digits_value 0 (take 2 s), drop 2 s))"

definition skip_char :: "char \<Rightarrow> string \<Rightarrow> string option" where
  "skip_char c s = (if s \<noteq> [] \<and> hd s = c then Some (tl s) else None)"

definition within :: "nat \<Rightarrow> nat \<Rightarrow> nat \<times> string \<Rightarrow> (nat \<times> string) option" where
  "within lo hi p = (if lo \<le> fst p \<and> fst p \<le> hi then Some p else None)"

definition parse_year :: "string \<Rightarrow> (nat \<times> string) option" where
  "parse_year s = (if 4 \<le> length s \<and> list_all is_digit (take 4 s) then Some (digits_value 0 (take 4 s), drop 4 s) else None)"

text \<open>
  \<^verbatim>\<open>parseNanoseconds\<close> on a separator and nine characters; \<^verbatim>\<open>atoi\<close> accepts a sign in front of
  the digits, and a negative result is out of range.
\<close>

definition parse_nanos :: "string \<Rightarrow> (nat \<times> string) option" where
  "parse_nanos s =
     (if length s < 10 \<or> hd s \<noteq> CHR ''.'' \<and> hd s \<noteq> CHR '','' then None
      else
        let field = take 9 (tl s);
            signed = (hd field = CHR ''-'' \<or> hd field = CHR ''+'');
            ds = (if signed then tl field else field)
        in if \<not> list_all is_digit ds \<or> hd field = CHR ''-'' \<and> digits_value 0 ds \<noteq> 0 then None
           else Some (digits_value 0 ds, drop 10 s))"

definition Parse_fixed9 :: "string \<Rightarrow> instant option" where
  "Parse_fixed9 s = do {
     (y, s) \<leftarrow> parse_year s; s \<leftarrow> skip_char CHR ''-'' s;
     (m, s) \<leftarrow> getnum True s \<bind> within 1 12; s \<leftarrow> skip_char CHR ''-'' s;
     (d, s) \<leftarrow> getnum True s; s \<leftarrow> skip_char CHR ''T'' s;
     (h, s) \<leftarrow> getnum False s \<bind> within 0 23; s \<leftarrow> skip_char CHR '':'' s;
     (mi, s) \<leftarrow> getnum True s \<bind> within 0 59; s \<leftarrow> skip_char CHR '':'' s;
     (sec, s) \<leftarrow> getnum True s \<bind> within 0 59;
     (ns, s) \<leftarrow> parse_nanos s; s \<leftarrow> skip_char CHR ''Z'' s;
     (if s = [] \<and> 1 \<le> d \<and> int d \<le> daysIn (is_leap (int y)) m
      then Some ((day_number (int y) m (int d) * 86400 + int (h * 3600 + mi * 60 + sec)) * second_ns + int ns)
      else None)
   }"

section \<open>Parsing reads back what was formatted\<close>

lemma digits_2: "digits 2 n = [char_of (48 + n div 10 mod 10), char_of (48 + n mod 10)]"
  by (simp add: numeral_2_eq_2)

lemma getnum_digits [simp]:
  assumes "n < 100" shows "getnum fixed (digits 2 n @ rest) = Some (n, rest)"
proof -
  obtain a b where ab: "digits 2 n = [a, b]" by (simp add: digits_2)
  then have "is_digit a" "is_digit b" using digits_are_digits [of 2 n] by simp_all
  then show ?thesis
    using digits_value_digits [of 0 2 n] assms unfolding ab by (simp add: getnum_def starts_with_digit_def numeral_2_eq_2)
qed

lemma skip_char_Cons [simp]: "skip_char c (c # s) = Some s"
  by (simp add: skip_char_def)

lemma parse_year_digits [simp]: "y \<le> 9999 \<Longrightarrow> parse_year (digits 4 y @ rest) = Some (y, rest)"
  by (simp add: parse_year_def digits_value_digits)

lemma within_iff [simp]: "lo \<le> n \<Longrightarrow> n \<le> hi \<Longrightarrow> within lo hi (n, s) = Some (n, s)"
  by (simp add: within_def)

lemma hd_digits: "is_digit (hd (digits (Suc w) n))"
  using digits_are_digits [of "Suc w" n] by (cases "digits (Suc w) n") (auto simp del: digits.simps)

lemma parse_nanos_digits [simp]:
  assumes "ns < 10 ^ 9" shows "parse_nanos (CHR ''.'' # digits 9 ns @ rest) = Some (ns, rest)"
proof -
  have "hd (digits 9 ns) \<noteq> CHR ''-''" "hd (digits 9 ns) \<noteq> CHR ''+''"
    using hd_digits [of 8 ns] by (auto simp: is_digit_def ord_def)
  with assms show ?thesis by (simp add: parse_nanos_def digits_value_digits Let_def)
qed

lemma Parse_fixed9_fields:
  assumes "y \<le> 9999" "1 \<le> m" "m \<le> 12" "1 \<le> d" "d < 100" "int d \<le> daysIn (is_leap (int y)) m"
    "h \<le> 23" "mi \<le> 59" "sec \<le> 59" "ns < 10 ^ 9"
  shows "Parse_fixed9 (digits 4 y @ CHR ''-'' # digits 2 m @ CHR ''-'' # digits 2 d @ CHR ''T'' # digits 2 h @
      CHR '':'' # digits 2 mi @ CHR '':'' # digits 2 sec @ CHR ''.'' # digits 9 ns @ ''Z'')
    = Some ((day_number (int y) m (int d) * 86400 + int (h * 3600 + mi * 60 + sec)) * second_ns + int ns)"
proof -
  have lt: "m < 100" "h < 100" "mi < 100" "sec < 100" using assms by simp_all
  show ?thesis
    unfolding Parse_fixed9_def by (simp add: assms lt parse_nanos_digits [OF assms(10)] del: digits.simps One_nat_def)
qed

text \<open>The text of an instant, by its fields.\<close>

lemma Format_fixed9_fields:
  assumes "0 \<le> time_year t" "time_year t \<le> 9999"
  obtains y m d h mi sec ns where
    "Format_fixed9 t = digits 4 y @ CHR ''-'' # digits 2 m @ CHR ''-'' # digits 2 d @ CHR ''T'' # digits 2 h @
       CHR '':'' # digits 2 mi @ CHR '':'' # digits 2 sec @ CHR ''.'' # digits 9 ns @ ''Z''"
    "civil (t div day_ns) = (int y, m, int d)" "int (h * 3600 + mi * 60 + sec) = t mod day_ns div second_ns"
    "int ns = t mod second_ns" "y \<le> 9999" "1 \<le> m" "m \<le> 12" "1 \<le> d" "d < 100" "int d \<le> daysIn (is_leap (int y)) m"
    "h \<le> 23" "mi \<le> 59" "sec \<le> 59" "ns < 10 ^ 9"
proof -
  obtain y m d where c: "civil (t div day_ns) = (y, m, d)" by (cases "civil (t div day_ns)")
  define s where "s = t mod day_ns div second_ns"
  note cc = civil_correct [OF c] and tod = time_of_day(1-6) [of t, folded s_def]
  have y: "0 \<le> y" "y \<le> 9999" using assms c by (simp_all add: time_year_def)
  have d31: "d \<le> 31" using cc(5) daysIn_le [OF cc(2,3), of "is_leap y"] by linarith
  have "s div 3600 = s div 60 div 60" using zdiv_zmult2_eq [of 60 s 60] by simp
  then have s: "s div 3600 * 3600 + s div 60 mod 60 * 60 + s mod 60 = s"
    using div_mult_mod_eq [of s 60] div_mult_mod_eq [of "s div 60" 60] by linarith
  define h mi sec ns where "h = nat (s div 3600)" "mi = nat (s div 60 mod 60)" "sec = nat (s mod 60)" "ns = nat (t mod second_ns)"
  note parts = this
  have "int h = s div 3600" "int mi = s div 60 mod 60" "int sec = s mod 60"
    unfolding parts using tod by (simp_all only: int_nat_eq if_True)
  moreover have "int ns = t mod second_ns" unfolding parts second_ns_def by simp
  moreover have "ns < 10 ^ 9" unfolding parts second_ns_def by (simp add: nat_less_iff)
  ultimately have i: "int (h * 3600 + mi * 60 + sec) = t mod day_ns div second_ns" "int ns = t mod second_ns"
    "h \<le> 23" "mi \<le> 59" "sec \<le> 59" "ns < 10 ^ 9"
    using tod s unfolding s_def [symmetric] by linarith+
  show thesis
  proof (rule that [OF _ _ i(1,2) _ cc(2,3) _ _ _ i(3-6), of "nat y" "nat d"])
    show "Format_fixed9 t = digits 4 (nat y) @ CHR ''-'' # digits 2 m @ CHR ''-'' # digits 2 (nat d) @ CHR ''T'' #
        digits 2 h @ CHR '':'' # digits 2 mi @ CHR '':'' # digits 2 sec @ CHR ''.'' # digits 9 ns @ ''Z''"
      unfolding Format_fixed9_def format_datetime_def c prod.case Let_def appendInt_4 [OF y] s_def [symmetric] parts [symmetric]
      by (simp only: append.simps append_assoc)
    show "civil (t div day_ns) = (int (nat y), m, int (nat d))" using c y cc(4) by simp
    show "int (nat d) \<le> daysIn (is_leap (int (nat y))) m" using cc(4,5) y by simp
  qed (use y cc(4) d31 in linarith)+
qed

lemma Parse_Format_fixed9:
  assumes "0 \<le> time_year t" "time_year t \<le> 9999"
  shows "Parse_fixed9 (Format_fixed9 t) = Some t"
proof -
  obtain y m d h mi sec ns where f: "Format_fixed9 t = digits 4 y @ CHR ''-'' # digits 2 m @ CHR ''-'' # digits 2 d @
      CHR ''T'' # digits 2 h @ CHR '':'' # digits 2 mi @ CHR '':'' # digits 2 sec @ CHR ''.'' # digits 9 ns @ ''Z''"
    and c: "civil (t div day_ns) = (int y, m, int d)" and s: "int (h * 3600 + mi * 60 + sec) = t mod day_ns div second_ns"
    and ns: "int ns = t mod second_ns"
    and le: "y \<le> 9999" "1 \<le> m" "m \<le> 12" "1 \<le> d" "d < 100" "int d \<le> daysIn (is_leap (int y)) m" "h \<le> 23" "mi \<le> 59"
      "sec \<le> 59" "ns < 10 ^ 9"
    using Format_fixed9_fields [OF assms] .
  have "Parse_fixed9 (Format_fixed9 t) = Some ((t div day_ns * 86400 + t mod day_ns div second_ns) * second_ns + t mod second_ns)"
    unfolding f by (simp only: Parse_fixed9_fields [OF le] civil_correct(1) [OF c] s ns)
  also have "(t div day_ns * 86400 + t mod day_ns div second_ns) * second_ns + t mod second_ns
      = t div day_ns * day_ns + (t mod day_ns div second_ns * second_ns + t mod day_ns mod second_ns)"
    by (simp add: day_ns_def mod_mod_cancel algebra_simps)
  also have "\<dots> = t" by (simp only: div_mult_mod_eq)
  finally show ?thesis .
qed

section \<open>The order of the texts\<close>

text \<open>The order of strings, byte by byte.\<close>

fun string_less :: "string \<Rightarrow> string \<Rightarrow> bool" where
  "string_less s [] = False"
| "string_less [] (d # t) = True"
| "string_less (c # s) (d # t) = (ord c < ord d \<or> c = d \<and> string_less s t)"

lemma string_less_irrefl [simp]: "\<not> string_less s s"
  by (induction s) auto

lemma string_less_append:
  "length p = length q \<Longrightarrow> string_less (p @ s) (q @ t) \<longleftrightarrow> string_less p q \<or> p = q \<and> string_less s t"
  by (induction p q rule: list_induct2) auto

lemma less_by_last_digit: "(m :: nat) < n \<longleftrightarrow> m div 10 < n div 10 \<or> m div 10 = n div 10 \<and> m mod 10 < n mod 10"
proof -
  define a r b q where "a = m div 10" "r = m mod 10" "b = n div 10" "q = n mod 10"
  then have "m = a * 10 + r" "n = b * 10 + q" "r < 10" "q < 10" by simp_all
  then have "m < n \<longleftrightarrow> a < b \<or> a = b \<and> r < q" by (cases a b rule: linorder_cases) auto
  then show ?thesis by (simp add: \<open>a = m div 10\<close> \<open>r = m mod 10\<close> \<open>b = n div 10\<close> \<open>q = n mod 10\<close>)
qed

lemma string_less_digits: "m < 10 ^ w \<Longrightarrow> n < 10 ^ w \<Longrightarrow> string_less (digits w m) (digits w n) \<longleftrightarrow> m < n"
proof (induction w arbitrary: m n)
  case (Suc w)
  have lt: "m div 10 < 10 ^ w" "n div 10 < 10 ^ w" using Suc.prems by auto
  have last: "string_less [char_of (48 + m mod 10)] [char_of (48 + n mod 10)] \<longleftrightarrow> m mod 10 < n mod 10"
    by (simp only: string_less.simps digit_char) simp
  have "digits w (m div 10) = digits w (n div 10) \<longleftrightarrow> m div 10 = n div 10"
    using digits_inj [OF _ lt] by auto
  then show ?case
    unfolding digits.simps less_by_last_digit [of m n]
    by (simp only: string_less_append length_digits Suc.IH [OF lt] last)
qed simp

text \<open>A field of digits in front of the rest of the text.\<close>

lemma string_less_field:
  assumes "m < 10 ^ w" "n < 10 ^ w" "m < n \<or> m = n \<and> string_less s t"
  shows "string_less (digits w m @ s) (digits w n @ t)"
  using assms string_less_digits [OF assms(1,2)] by (auto simp: string_less_append)

lemma string_less_char [simp]: "string_less (c # s) (c # t) \<longleftrightarrow> string_less s t"
  by simp

section \<open>The order of dates\<close>

lemma div_step:
  fixes y k :: int
  assumes "0 < k" shows "y div k = (y - 1) div k + (if k dvd y then 1 else 0)"
proof (cases "k dvd y")
  case True
  then obtain q where q: "y = k * q" by (rule dvdE)
  have "k * q - 1 = k * (q - 1) + (k - 1)" by (simp add: right_diff_distrib)
  then have "(k * q - 1) div k = q - 1" using assms by (intro int_div_pos_eq [where r = "k - 1"]) simp_all
  with q assms True show ?thesis by simp
next
  case False
  then have "y mod k \<noteq> 0" by (simp add: mod_eq_0_iff_dvd)
  then have r: "0 < y mod k" "y mod k < k" using pos_mod_sign [OF assms, of y] pos_mod_bound [OF assms, of y] by linarith+
  have "y - 1 = k * (y div k) + (y mod k - 1)" by simp
  then have "(y - 1) div k = y div k" using r by (intro int_div_pos_eq [where r = "y mod k - 1"]) simp_all
  with False show ?thesis by simp
qed

lemma days_before_year_Suc: "days_before_year (y + 1) = days_before_year y + (if is_leap y then 366 else 365)"
proof -
  have dvd: "400 dvd y \<Longrightarrow> 100 dvd y" "100 dvd y \<Longrightarrow> 4 dvd y"
    by (rule dvd_trans [of 100 400 y], simp, assumption) (rule dvd_trans [of 4 100 y], simp, assumption)
  have leap: "is_leap y \<longleftrightarrow> 4 dvd y \<and> (\<not> 100 dvd y \<or> 400 dvd y)" by (simp only: is_leap_def mod_eq_0_iff_dvd)
  have step4: "y div 4 = (y - 1) div 4 + (if 4 dvd y then 1 else 0)"
    and step100: "y div 100 = (y - 1) div 100 + (if 100 dvd y then 1 else 0)"
    and step400: "y div 400 = (y - 1) div 400 + (if 400 dvd y then 1 else 0)"
    by (rule div_step, rule zero_less_numeral)+
  have sum: "365 * y + (p + a) - (q + b) + (r + c) = 365 * (y - 1) + p - q + r + 365 + a - b + c" for p q r a b c by simp
  have total: "x + 365 + (if a then 1 else 0) - (if b then 1 else 0) + (if c then 1 else 0) = x + (if a \<and> (\<not> b \<or> c) then 366 else 365)"
    if "c \<Longrightarrow> b" "b \<Longrightarrow> a" for a b c and x :: int
    using that by (cases a; cases b; cases c) simp_all
  have "days_before_year (y + 1) = 365 * y + y div 4 - y div 100 + y div 400"
    by (simp only: days_before_year_def add_diff_cancel_right')
  also have "\<dots> = days_before_year y + 365 + (if 4 dvd y then 1 else 0) - (if 100 dvd y then 1 else 0)
      + (if 400 dvd y then 1 else 0)"
    unfolding days_before_year_def step4 step100 step400
    by (rule sum)
  also have "\<dots> = days_before_year y + (if is_leap y then 366 else 365)" unfolding leap by (rule total [OF dvd])
  finally show ?thesis .
qed

lemma days_before_year_mono: "x \<le> y \<Longrightarrow> days_before_year x \<le> days_before_year y"
proof (induction "nat (y - x)" arbitrary: y)
  case (Suc n)
  then have "days_before_year x \<le> days_before_year (y - 1)" by (intro Suc.hyps) auto
  with days_before_year_Suc [of "y - 1"] show ?case by (simp split: if_splits)
qed simp

lemma days_before_month_Suc:
  assumes "1 \<le> m" "m \<le> 12" shows "days_before_month leap m \<le> days_before_month leap (Suc m)"
  using assms by (auto simp: days_before_month_def month_starts_def nth_Cons numeral_eq_Suc le_Suc_eq)

lemma days_before_month_mono:
  assumes "m \<le> m'" "1 \<le> m" "m' \<le> 13" shows "days_before_month leap m \<le> days_before_month leap m'"
  using assms
proof (induction m' rule: dec_induct)
  case (step n)
  then show ?case using days_before_month_Suc [of n leap] by simp
qed simp

lemma civil_less:
  assumes "civil a = (y, m, d)" "civil b = (y', m', d')" "a < b"
  shows "y < y' \<or> y = y' \<and> (m < m' \<or> m = m' \<and> d < d')"
proof (rule ccontr)
  assume neg: "\<not> ?thesis"
  note A = civil_correct [OF assms(1)] and B = civil_correct [OF assms(2)]
  show False
  proof (cases "y' < y")
    case True
    then have "days_before_year (y' + 1) \<le> days_before_year y" by (intro days_before_year_mono) simp
    with A(6) B(7) assms(3) days_before_year_Suc [of y'] show False by (simp split: if_splits)
  next
    case False
    with neg have y: "y' = y" "m' < m \<or> m' = m \<and> d' \<le> d" by auto
    show False
    proof (cases "m' < m")
      case True
      then have "days_before_month (is_leap y) (m' + 1) \<le> days_before_month (is_leap y) m"
        using A(3) by (intro days_before_month_mono) auto
      with A(1,4) B(1,5) y(1) assms(3) show False by (simp add: day_number_def daysIn_def)
    next
      case False
      with y A(1) B(1) assms(3) show False by (auto simp: day_number_def)
    qed
  qed
qed

section \<open>The order of the texts is the order of the instants\<close>

lemma sixty_less:
  fixes a s a' s' :: nat
  assumes "s \<le> 59" "s' \<le> 59"
  shows "a * 60 + s < a' * 60 + s' \<longleftrightarrow> a < a' \<or> a = a' \<and> s < s'"
    and "a * 60 + s = a' * 60 + s' \<longleftrightarrow> a = a' \<and> s = s'"
  using assms by (cases a a' rule: linorder_cases; simp)+

lemma clock_less:
  fixes h mi sec h' mi' sec' :: nat
  assumes "mi \<le> 59" "sec \<le> 59" "mi' \<le> 59" "sec' \<le> 59"
  shows "h * 3600 + mi * 60 + sec < h' * 3600 + mi' * 60 + sec' \<longleftrightarrow> h < h' \<or> h = h' \<and> (mi < mi' \<or> mi = mi' \<and> sec < sec')"
    and "h * 3600 + mi * 60 + sec = h' * 3600 + mi' * 60 + sec' \<longleftrightarrow> h = h' \<and> mi = mi' \<and> sec = sec'"
proof -
  have nested: "h * 3600 + mi * 60 + sec = (h * 60 + mi) * 60 + sec" "h' * 3600 + mi' * 60 + sec' = (h' * 60 + mi') * 60 + sec'"
    by simp_all
  note s = sixty_less [OF assms(2,4)] and m = sixty_less [OF assms(1,3)]
  show "h * 3600 + mi * 60 + sec < h' * 3600 + mi' * 60 + sec' \<longleftrightarrow> h < h' \<or> h = h' \<and> (mi < mi' \<or> mi = mi' \<and> sec < sec')"
    "h * 3600 + mi * 60 + sec = h' * 3600 + mi' * 60 + sec' \<longleftrightarrow> h = h' \<and> mi = mi' \<and> sec = sec'"
    unfolding nested s m by blast+
qed

lemma instant_less:
  "(t :: int) < u \<Longrightarrow> t div day_ns < u div day_ns \<or> t div day_ns = u div day_ns \<and>
     (t mod day_ns div second_ns < u mod day_ns div second_ns \<or>
      t mod day_ns div second_ns = u mod day_ns div second_ns \<and> t mod second_ns < u mod second_ns)"
proof -
  have day: "0 < day_ns" "0 < second_ns" by (simp_all add: day_ns_def second_ns_def)
  have mod: "x mod day_ns mod second_ns = x mod second_ns" for x by (simp add: day_ns_def mod_mod_cancel)
  have split: "x < y \<Longrightarrow> x div k < y div k \<or> x div k = y div k \<and> x mod k < y mod k" if "0 < k" for x y k :: int
  proof (cases "x div k = y div k")
    case True
    assume "x < y"
    with True div_mult_mod_eq [of x k] div_mult_mod_eq [of y k] have "x mod k < y mod k" unfolding True by linarith
    with True show ?thesis by simp
  next
    case False
    assume "x < y"
    then have "x div k \<le> y div k" using that by (intro zdiv_mono1) simp_all
    with False show ?thesis by simp
  qed
  assume "t < u"
  from split [OF day(1) this] split [OF day(2), of "t mod day_ns" "u mod day_ns"] show ?thesis unfolding mod by blast
qed

lemma Format_fixed9_mono:
  assumes t: "0 \<le> time_year t" "time_year t \<le> 9999" and u: "0 \<le> time_year u" "time_year u \<le> 9999" and "t < u"
  shows "string_less (Format_fixed9 t) (Format_fixed9 u)"
proof -
  obtain y m d h mi sec ns where f: "Format_fixed9 t = digits 4 y @ CHR ''-'' # digits 2 m @ CHR ''-'' # digits 2 d @
      CHR ''T'' # digits 2 h @ CHR '':'' # digits 2 mi @ CHR '':'' # digits 2 sec @ CHR ''.'' # digits 9 ns @ ''Z''"
    and c: "civil (t div day_ns) = (int y, m, int d)" and s: "int (h * 3600 + mi * 60 + sec) = t mod day_ns div second_ns"
    and ns: "int ns = t mod second_ns"
    and le: "y \<le> 9999" "1 \<le> m" "m \<le> 12" "1 \<le> d" "d < 100" "int d \<le> daysIn (is_leap (int y)) m" "h \<le> 23" "mi \<le> 59"
      "sec \<le> 59" "ns < 10 ^ 9"
    using Format_fixed9_fields [OF t] .
  obtain y' m' d' h' mi' sec' ns' where f': "Format_fixed9 u = digits 4 y' @ CHR ''-'' # digits 2 m' @ CHR ''-'' #
      digits 2 d' @ CHR ''T'' # digits 2 h' @ CHR '':'' # digits 2 mi' @ CHR '':'' # digits 2 sec' @ CHR ''.'' # digits 9 ns' @ ''Z''"
    and c': "civil (u div day_ns) = (int y', m', int d')" and s': "int (h' * 3600 + mi' * 60 + sec') = u mod day_ns div second_ns"
    and ns': "int ns' = u mod second_ns"
    and le': "y' \<le> 9999" "1 \<le> m'" "m' \<le> 12" "1 \<le> d'" "d' < 100" "int d' \<le> daysIn (is_leap (int y')) m'" "h' \<le> 23" "mi' \<le> 59"
      "sec' \<le> 59" "ns' < 10 ^ 9"
    using Format_fixed9_fields [OF u] .
  have lex: "y < y' \<or> y = y' \<and> (m < m' \<or> m = m' \<and> (d < d' \<or> d = d' \<and> (h < h' \<or> h = h' \<and>
      (mi < mi' \<or> mi = mi' \<and> (sec < sec' \<or> sec = sec' \<and> ns < ns')))))"
    using instant_less [OF assms(5)]
  proof (elim disjE conjE)
    assume "t div day_ns < u div day_ns"
    from civil_less [OF c c' this] show ?thesis by auto
  next
    assume day: "t div day_ns = u div day_ns" and "t mod day_ns div second_ns < u mod day_ns div second_ns"
    then have "h * 3600 + mi * 60 + sec < h' * 3600 + mi' * 60 + sec'" using s s' by linarith
    then have "h < h' \<or> h = h' \<and> (mi < mi' \<or> mi = mi' \<and> sec < sec')" unfolding clock_less [OF le(8,9) le'(8,9)] .
    with c c' day show ?thesis by auto
  next
    assume day: "t div day_ns = u div day_ns" and "t mod day_ns div second_ns = u mod day_ns div second_ns"
      and "t mod second_ns < u mod second_ns"
    then have "h * 3600 + mi * 60 + sec = h' * 3600 + mi' * 60 + sec'" "ns < ns'" using s s' ns ns' by linarith+
    with c c' day show ?thesis unfolding clock_less [OF le(8,9) le'(8,9)] by simp
  qed
  have lt: "y < 10 ^ 4" "y' < 10 ^ 4" "m < 10 ^ 2" "m' < 10 ^ 2" "d < 10 ^ 2" "d' < 10 ^ 2" "h < 10 ^ 2" "h' < 10 ^ 2"
    "mi < 10 ^ 2" "mi' < 10 ^ 2" "sec < 10 ^ 2" "sec' < 10 ^ 2"
    using le le' by simp_all
  have less: "string_less (digits w a @ c # p) (digits w b @ c # q) \<longleftrightarrow> a < b \<or> a = b \<and> string_less p q"
    if "a < 10 ^ w" "b < 10 ^ w" for w a b c p q
    using that string_less_digits [OF that] digits_inj [OF _ that] by (auto simp: string_less_append)
  show ?thesis
    unfolding f f' less [OF lt(1,2)] less [OF lt(3,4)] less [OF lt(5,6)] less [OF lt(7,8)] less [OF lt(9,10)] less [OF lt(11,12)]
      less [OF le(10) le'(10)]
    using lex by simp
qed

lemma Format_fixed9_less_iff:
  assumes "0 \<le> time_year t" "time_year t \<le> 9999" "0 \<le> time_year u" "time_year u \<le> 9999"
  shows "string_less (Format_fixed9 t) (Format_fixed9 u) \<longleftrightarrow> t < u"
    and "Format_fixed9 t = Format_fixed9 u \<longleftrightarrow> t = u"
proof -
  have asym: "string_less s t \<Longrightarrow> \<not> string_less t s" for s t
    by (induction s t rule: string_less.induct) auto
  have mono: "t < u \<Longrightarrow> string_less (Format_fixed9 t) (Format_fixed9 u)" "u < t \<Longrightarrow> string_less (Format_fixed9 u) (Format_fixed9 t)"
    using Format_fixed9_mono assms by simp_all
  then show "string_less (Format_fixed9 t) (Format_fixed9 u) \<longleftrightarrow> t < u"
    using asym by (cases t u rule: linorder_cases) auto
  show "Format_fixed9 t = Format_fixed9 u \<longleftrightarrow> t = u"
    using mono string_less_irrefl by (cases t u rule: linorder_cases) auto
qed

end
