(* ===== verification/Redis_Store.thy ===== *)
theory Redis_Store
  imports Sync_Status Go_Time_Order Go_Hmac Resources
begin

text \<open>
  File \<^verbatim>\<open>internal/syncstatus/redis.go\<close>: the shared sync status store. The Lua script that
  decides a transition runs on the server and is translated here; the commands it issues are
  the operations of the record \<open>redis_server\<close>, whose documented behaviour is \<open>redis_laws\<close>. The
  store keeps times as text and the script compares them as text.

  It is shown that the store refines the in-process store of theory \<open>Sync_Status\<close>, except that
  records may expire. The second part is the provider of Redis credentials, which stops its
  token manager once.
\<close>

section \<open>The server\<close>

text \<open>
  A command runs at an instant of the server's clock. \<open>rvHash\<close> and \<open>rvDeadline\<close> observe the
  stored hash of a key and the instant it expires.
\<close>

record 'r redis_server =
  rvHash :: "'r \<Rightarrow> string \<Rightarrow> string \<rightharpoonup> string"
  rvDeadline :: "'r \<Rightarrow> string \<Rightarrow> instant option"
  rvHGet :: "instant \<Rightarrow> 'r \<Rightarrow> string \<Rightarrow> string \<Rightarrow> string option"
  rvHGetAll :: "instant \<Rightarrow> 'r \<Rightarrow> string \<Rightarrow> (string \<times> string) list"
  rvHSet :: "instant \<Rightarrow> 'r \<Rightarrow> string \<Rightarrow> (string \<times> string) list \<Rightarrow> 'r"
  rvPExpire :: "instant \<Rightarrow> 'r \<Rightarrow> string \<Rightarrow> int \<Rightarrow> 'r"

definition visible :: "'r redis_server \<Rightarrow> instant \<Rightarrow> 'r \<Rightarrow> string \<Rightarrow> string \<rightharpoonup> string" where
  "visible rv t r key =
     (case rvDeadline rv r key of
        None \<Rightarrow> rvHash rv r key
      | Some d \<Rightarrow> if t < d then rvHash rv r key else Map.empty)"

text \<open>
  The documented behaviour of the commands: \<^verbatim>\<open>HGET\<close> and \<^verbatim>\<open>HGETALL\<close> read a key that has not
  expired; \<^verbatim>\<open>HSET\<close> adds fields and keeps the deadline of a key that exists; \<^verbatim>\<open>PEXPIRE\<close> replaces
  the deadline of a key that exists.
\<close>

definition redis_laws :: "'r redis_server \<Rightarrow> bool" where
  "redis_laws rv \<longleftrightarrow>
     (\<forall>t r key field. rvHGet rv t r key field = visible rv t r key field)
   \<and> (\<forall>t r key. map_of (rvHGetAll rv t r key) = visible rv t r key)
   \<and> (\<forall>t r key fvs. rvHash rv (rvHSet rv t r key fvs) = (rvHash rv r)(key := visible rv t r key ++ map_of fvs))
   \<and> (\<forall>t r key fvs. rvDeadline rv (rvHSet rv t r key fvs) =
        (rvDeadline rv r)(key := if visible rv t r key = Map.empty then None else rvDeadline rv r key))
   \<and> (\<forall>t r key ms. visible rv t r key \<noteq> Map.empty \<longrightarrow>
        rvHash rv (rvPExpire rv t r key ms) = rvHash rv r
      \<and> rvDeadline rv (rvPExpire rv t r key ms) = (rvDeadline rv r)(key \<mapsto> t + ms * millisecond_ns))"

section \<open>The store\<close>

record redis_store =
  rsKeyPrefix :: string
  rsPendingTTL :: duration
  rsTerminalTTL :: duration

text \<open>The script. Lua reads a missing field as false, and compares strings byte by byte.\<close>

definition lua_precedence :: "string option \<Rightarrow> nat" where
  "lua_precedence st =
     (if st = Some ''sync_pending'' then 1 else if st = Some ''sync_failed'' then 2
      else if st = Some ''synced'' then 3 else 0)"

definition transition_write :: "'r redis_server \<Rightarrow> instant \<Rightarrow> 'r \<Rightarrow> string \<Rightarrow> string \<Rightarrow> string \<Rightarrow> string \<Rightarrow> int \<Rightarrow> 'r \<times> int" where
  "transition_write rv t r key st upd src ttl =
     (let r = rvHSet rv t r key [(''status'', st), (''updated_at'', upd), (''source_enqueued_at'', src)]
      in (rvPExpire rv t r key ttl, 1))"

definition transitionScript :: "'r redis_server \<Rightarrow> instant \<Rightarrow> 'r \<Rightarrow> string \<Rightarrow> string \<Rightarrow> string \<Rightarrow> string \<Rightarrow> int \<Rightarrow> 'r \<times> int" where
  "transitionScript rv t r key st upd src ttl =
     (case rvHGet rv t r key ''source_enqueued_at'' of
        Some current_source \<Rightarrow>
          if string_less src current_source then (r, 0)
          else if src = current_source then
            (let current_status = rvHGet rv t r key ''status'' in
             if lua_precedence (Some st) \<le> lua_precedence current_status then (r, 0)
             else transition_write rv t r key st upd src ttl)
          else transition_write rv t r key st upd src ttl
      | None \<Rightarrow> transition_write rv t r key st upd src ttl)"

definition RedisStore_key :: "unicode_tables \<Rightarrow> redis_store \<Rightarrow> string \<Rightarrow> string" where
  "RedisStore_key U s upn =
     (let digest = sha256_Sum256 (bytes_of (normalizeUPN U upn)) in rsKeyPrefix s @ hex_EncodeToString digest)"

text \<open>
  How a call ended: it was answered, it did not reach the server, or the script ran and the
  answer was lost.
\<close>

datatype rpc = Answered | NotRun goerror | AnswerLost goerror

definition RedisStore_set ::
  "unicode_tables \<Rightarrow> 'r redis_server \<Rightarrow> redis_store \<Rightarrow> rpc \<Rightarrow> instant \<Rightarrow> instant \<Rightarrow> 'r \<Rightarrow> string \<Rightarrow> Status
     \<Rightarrow> instant \<Rightarrow> duration \<Rightarrow> 'r \<times> goerror option" where
  "RedisStore_set U rv s call t now r upn st src ttl =
     (let ran = fst (transitionScript rv t r (RedisStore_key U s upn) st (Format_fixed9 now) (Format_fixed9 src)
                       (duration_Milliseconds ttl))
      in case call of
           Answered \<Rightarrow> (ran, None)
         | NotRun e \<Rightarrow> (r, Some e)
         | AnswerLost e \<Rightarrow> (ran, Some e))"

definition RedisStore_MarkPending where
  "RedisStore_MarkPending U rv s call t now r upn src =
     RedisStore_set U rv s call t now r upn StatusPending src (rsPendingTTL s)"

definition RedisStore_MarkSynced where
  "RedisStore_MarkSynced U rv s call t now r upn src =
     RedisStore_set U rv s call t now r upn StatusSynced src (rsTerminalTTL s)"

definition RedisStore_MarkFailed where
  "RedisStore_MarkFailed U rv s call t now r upn src =
     RedisStore_set U rv s call t now r upn StatusFailed src (rsTerminalTTL s)"

text \<open>Of the error of \<^verbatim>\<open>time.Parse\<close> only its presence is modelled. A missing field reads as the empty string.\<close>

definition parse_error :: goerror where "parse_error = ErrorString ''parsing time''"

definition field_text :: "(string \<times> string) list \<Rightarrow> string \<Rightarrow> string" where
  "field_text flds name = (case map_of flds name of Some v \<Rightarrow> v | None \<Rightarrow> [])"

definition RedisStore_Get ::
  "unicode_tables \<Rightarrow> 'r redis_server \<Rightarrow> redis_store \<Rightarrow> goerror option \<Rightarrow> instant \<Rightarrow> 'r \<Rightarrow> string \<Rightarrow> goerror + status_record" where
  "RedisStore_Get U rv s err t r upn =
     (case err of
        Some e \<Rightarrow> Inl e
      | None \<Rightarrow>
          let flds = rvHGetAll rv t r (RedisStore_key U s upn) in
          if flds = [] then Inr zeroRecord
          else
            let status = field_text flds ''status'' in
            if statusPrecedence status = 0 then Inl (QuotedError ''invalid Redis sync status '' status)
            else case Parse_fixed9 (field_text flds ''updated_at'') of
              None \<Rightarrow> Inl (Wrapped ''parse Redis updated_at: '' parse_error)
            | Some updatedAt \<Rightarrow>
                (case Parse_fixed9 (field_text flds ''source_enqueued_at'') of
                   None \<Rightarrow> Inl (Wrapped ''parse Redis source_enqueued_at: '' parse_error)
                 | Some sourceEnqueuedAt \<Rightarrow>
                     Inr \<lparr>recStatus = status, recUpdatedAt = updatedAt, recSourceEnqueuedAt = sourceEnqueuedAt\<rparr>))"

section \<open>Construction\<close>

record redis_options =
  roHost :: string
  roPort :: int
  roKeyPrefix :: string
  roPendingTTL :: duration
  roTerminalTTL :: duration
  roManagedIdentityClientID :: string
  roPingTimeout :: duration

definition validateRedisStoreOptions :: "string \<Rightarrow> duration \<Rightarrow> duration \<Rightarrow> goerror option" where
  "validateRedisStoreOptions keyPrefix pendingTTL terminalTTL =
     (if TrimSpace keyPrefix = [] then Some (ErrorString ''redis key prefix is required'')
      else if pendingTTL < millisecond_ns then Some (ErrorString ''pending TTL must be at least 1ms'')
      else if terminalTTL < millisecond_ns then Some (ErrorString ''terminal TTL must be at least 1ms'')
      else None)"

definition ContainsAny :: "string \<Rightarrow> string \<Rightarrow> bool" where
  "ContainsAny s chars = list_ex (\<lambda>c. c \<in> set chars) s"

text \<open>The argument \<open>uuid\<close> is \<^verbatim>\<open>uuid.Validate\<close>: whether a text is a UUID.\<close>

definition validateRedisOptions :: "(string \<Rightarrow> bool) \<Rightarrow> redis_options \<Rightarrow> goerror option" where
  "validateRedisOptions uuid opts =
     (case validateRedisStoreOptions (roKeyPrefix opts) (roPendingTTL opts) (roTerminalTTL opts) of
        Some err \<Rightarrow> Some err
      | None \<Rightarrow>
          if TrimSpace (roHost opts) = [] then Some (ErrorString ''Redis host is required'')
          else if Contains (roHost opts) ''://'' then Some (ErrorString ''Redis host must not include a URL scheme'')
          else if ContainsAny (roHost opts) ''/@:''
          then Some (ErrorString ''Redis host must not include a path, user info, or port'')
          else if roPort opts \<le> 0 \<or> roPort opts > 65535 then Some (ErrorString ''Redis port must be between 1 and 65535'')
          else if TrimSpace (roManagedIdentityClientID opts) = []
          then Some (ErrorString ''Redis managed identity client ID is required'')
          else if \<not> uuid (TrimSpace (roManagedIdentityClientID opts))
          then Some (ErrorString ''Redis managed identity client ID must be a valid UUID'')
          else if roPingTimeout opts \<le> 0 then Some (ErrorString ''Redis ping timeout must be positive'')
          else None)"

definition NewRedisStore :: "bool \<Rightarrow> string \<Rightarrow> duration \<Rightarrow> duration \<Rightarrow> goerror + redis_store" where
  "NewRedisStore client keyPrefix pendingTTL terminalTTL =
     (if \<not> client then Inl (ErrorString ''redis client is required'')
      else case validateRedisStoreOptions keyPrefix pendingTTL terminalTTL of
        Some err \<Rightarrow> Inl err
      | None \<Rightarrow> Inr \<lparr>rsKeyPrefix = keyPrefix, rsPendingTTL = pendingTTL, rsTerminalTTL = terminalTTL\<rparr>)"

section \<open>The provider of credentials\<close>

text \<open>
  \<^verbatim>\<open>ownedCredentialsProvider\<close>: listeners subscribe and unsubscribe, tokens are passed on to
  them, and closing stops the token manager. A listener is a number. Every method runs under
  the mutex, so a call is one step. The stop function is that of the handle
  \<open>(''redis'', ''token manager'')\<close>.
\<close>

definition token_manager :: resource where "token_manager = (''redis'', ''token manager'')"
definition redis_client :: resource where "redis_client = (''redis'', ''client'')"

record cred_provider =
  cpListeners :: "nat list"
  cpClosed :: bool
  cpOnce :: bool
  cpCloseErr :: "goerror option"

text \<open>\<^verbatim>\<open>RequestToken\<close>; the arguments are the answers of \<^verbatim>\<open>GetToken\<close> and \<^verbatim>\<open>shared.NewIDPResponse\<close>.\<close>

definition RequestToken :: "(string \<Rightarrow> goerror + 'k) \<Rightarrow> ('k \<Rightarrow> goerror + 'p) \<Rightarrow> string \<Rightarrow> goerror + 'p" where
  "RequestToken getToken response scope = (case getToken scope of Inl err \<Rightarrow> Inl err | Inr token \<Rightarrow> response token)"

definition newOwnedCredentialsProvider :: "bool \<Rightarrow> goerror option \<Rightarrow> (goerror + cred_provider) \<times> res_event list" where
  "newOwnedCredentialsProvider manager started =
     (if \<not> manager then (Inl (ErrorString ''token manager is required''), [])
      else case started of
        Some err \<Rightarrow> (Inl (Wrapped ''start token manager: '' err), [])
      | None \<Rightarrow> (Inr \<lparr>cpListeners = [], cpClosed = False, cpOnce = False, cpCloseErr = None\<rparr>, [Opened token_manager]))"

definition newStreamingCredentialsProvider ::
  "goerror option \<Rightarrow> goerror option \<Rightarrow> (goerror + cred_provider) \<times> res_event list" where
  "newStreamingCredentialsProvider manager_err started =
     (case manager_err of
        Some err \<Rightarrow> (Inl err, [])
      | None \<Rightarrow> newOwnedCredentialsProvider True started)"

text \<open>The argument \<open>token\<close> is what \<^verbatim>\<open>GetToken\<close> answers.\<close>

definition Subscribe :: "goerror + string \<Rightarrow> cred_provider \<Rightarrow> nat \<Rightarrow> (goerror + string) \<times> cred_provider" where
  "Subscribe token p listener =
     (if cpClosed p then (Inl (ErrorString ''credentials provider is closed''), p)
      else case token of
        Inl err \<Rightarrow> (Inl (Wrapped ''get Redis credentials: '' err), p)
      | Inr current \<Rightarrow>
          (Inr current, if listener \<in> set (cpListeners p) then p else p\<lparr>cpListeners := cpListeners p @ [listener]\<rparr>))"

definition Unsubscribe :: "cred_provider \<Rightarrow> nat \<Rightarrow> cred_provider" where
  "Unsubscribe p listener = p\<lparr>cpListeners := remove1 listener (cpListeners p)\<rparr>"

text \<open>The listeners that are told about a token or an error.\<close>

definition OnNext :: "cred_provider \<Rightarrow> string \<Rightarrow> (nat \<times> string) list" where
  "OnNext p token = map (\<lambda>listener. (listener, token)) (cpListeners p)"

definition OnError :: "cred_provider \<Rightarrow> goerror \<Rightarrow> (nat \<times> goerror) list" where
  "OnError p err = map (\<lambda>listener. (listener, err)) (cpListeners p)"

definition Provider_Close :: "goerror option \<Rightarrow> cred_provider \<Rightarrow> goerror option \<times> cred_provider \<times> res_event list" where
  "Provider_Close stopped p =
     (if cpOnce p then (cpCloseErr p, p, [])
      else (stopped, p\<lparr>cpClosed := True, cpListeners := [], cpOnce := True, cpCloseErr := stopped\<rparr>, [Closed token_manager]))"

section \<open>The production constructor\<close>

text \<open>What the Azure identity and Redis packages answer.\<close>

record redis_sdk =
  rkCredential :: "string \<Rightarrow> goerror option"
  rkTokenManager :: "goerror option"
  rkStart :: "goerror option"
  rkPing :: "string \<Rightarrow> duration \<Rightarrow> goerror option"
  rkClose :: "resource \<Rightarrow> goerror option"

definition JoinHostPort :: "string \<Rightarrow> string \<Rightarrow> string" where
  "JoinHostPort host port = (if CHR '':'' \<in> set host then ''['' @ host @ '']:'' @ port else host @ '':'' @ port)"

definition RedisStore_Close :: "redis_sdk \<Rightarrow> cred_provider \<Rightarrow> goerror option \<times> cred_provider \<times> res_event list" where
  "RedisStore_Close sdk p =
     (let clientErr = rkClose sdk redis_client;
          (credentialsErr, p', evs) = Provider_Close (rkClose sdk token_manager) p
      in (errors_Join [clientErr, credentialsErr], p', Closed redis_client # evs))"

definition NewManagedIdentityRedisStore ::
  "(string \<Rightarrow> bool) \<Rightarrow> redis_sdk \<Rightarrow> redis_options \<Rightarrow> (goerror + redis_store \<times> cred_provider) \<times> res_event list" where
  "NewManagedIdentityRedisStore uuid sdk opts =
     (case validateRedisOptions uuid opts of
        Some err \<Rightarrow> (Inl err, [])
      | None \<Rightarrow>
          (case rkCredential sdk (TrimSpace (roManagedIdentityClientID opts)) of
             Some err \<Rightarrow> (Inl (Wrapped ''create Redis managed identity credential: '' err), [])
           | None \<Rightarrow>
               (case newStreamingCredentialsProvider (rkTokenManager sdk) (rkStart sdk) of
                  (Inl err, evs) \<Rightarrow> (Inl (Wrapped ''create Redis streaming credentials provider: '' err), evs)
                | (Inr provider, evs) \<Rightarrow>
                    (let addr = JoinHostPort (TrimSpace (roHost opts)) (decimal_int (roPort opts));
                         evs = evs @ [Opened redis_client]
                     in case NewRedisStore True (roKeyPrefix opts) (roPendingTTL opts) (roTerminalTTL opts) of
                          Inl err \<Rightarrow>
                            (let (providerErr, p', evs') = Provider_Close (rkClose sdk token_manager) provider
                             in (Inl (the (errors_Join [Some err, rkClose sdk redis_client, providerErr])),
                                 evs @ [Closed redis_client] @ evs'))
                        | Inr store \<Rightarrow>
                            (case rkPing sdk addr (roPingTimeout opts) of
                               Some err \<Rightarrow>
                                 (let (closeErr, p', evs') = RedisStore_Close sdk provider
                                  in (Inl (the (errors_Join [Some (Wrapped ''ping Redis: '' err), closeErr])), evs @ evs'))
                             | None \<Rightarrow> (Inr (store, provider), evs))))))"

section \<open>What the server holds, as records\<close>

definition year_ok :: "instant \<Rightarrow> bool" where
  "year_ok t \<longleftrightarrow> 0 \<le> time_year t \<and> time_year t \<le> 9999"

definition good_record :: "status_record \<Rightarrow> bool" where
  "good_record rec \<longleftrightarrow> known_status (recStatus rec) \<and> year_ok (recUpdatedAt rec) \<and> year_ok (recSourceEnqueuedAt rec)"

definition record_hash :: "status_record \<Rightarrow> string \<rightharpoonup> string" where
  "record_hash rec = [''status'' \<mapsto> recStatus rec, ''updated_at'' \<mapsto> Format_fixed9 (recUpdatedAt rec),
     ''source_enqueued_at'' \<mapsto> Format_fixed9 (recSourceEnqueuedAt rec)]"

definition hash_record :: "(string \<rightharpoonup> string) \<Rightarrow> status_record option" where
  "hash_record h = (case (h ''status'', h ''updated_at'', h ''source_enqueued_at'') of
     (Some st, Some upd, Some src) \<Rightarrow>
       (case (Parse_fixed9 upd, Parse_fixed9 src) of
          (Some a, Some b) \<Rightarrow> Some \<lparr>recStatus = st, recUpdatedAt = a, recSourceEnqueuedAt = b\<rparr>
        | _ \<Rightarrow> None)
   | _ \<Rightarrow> None)"

lemma parse_format: "year_ok t \<Longrightarrow> Parse_fixed9 (Format_fixed9 t) = Some t"
  by (simp add: year_ok_def Parse_Format_fixed9)

lemma hash_record_hash [simp]: "good_record rec \<Longrightarrow> hash_record (record_hash rec) = Some rec"
  by (simp add: hash_record_def record_hash_def good_record_def parse_format)

lemma hash_record_empty [simp]: "hash_record Map.empty = None"
  by (simp add: hash_record_def)

lemma record_hash_not_empty [simp]: "record_hash rec \<noteq> Map.empty"
  by (auto simp: record_hash_def)

text \<open>The key of a normalised account name.\<close>

definition account_key :: "redis_store \<Rightarrow> string \<Rightarrow> string" where
  "account_key s n = rsKeyPrefix s @ hex_EncodeToString (sha256_Sum256 (bytes_of n))"

lemma RedisStore_key_account: "RedisStore_key U s upn = account_key s (normalizeUPN U upn)"
  by (simp add: RedisStore_key_def account_key_def)

text \<open>
  The accounts in use, among which the digest has no collision; and the invariant that the
  server holds nothing but records under their keys.
\<close>

definition no_collision :: "string set \<Rightarrow> bool" where
  "no_collision A \<longleftrightarrow> inj_on (\<lambda>n. sha256_Sum256 (bytes_of n)) A"

definition holds_records :: "'r redis_server \<Rightarrow> redis_store \<Rightarrow> string set \<Rightarrow> 'r \<Rightarrow> bool" where
  "holds_records rv s A r \<longleftrightarrow>
     (\<forall>n \<in> A. rvHash rv r (account_key s n) = Map.empty
        \<or> (\<exists>rec. good_record rec \<and> rvHash rv r (account_key s n) = record_hash rec))"

definition redis_abs :: "'r redis_server \<Rightarrow> redis_store \<Rightarrow> string set \<Rightarrow> instant \<Rightarrow> 'r \<Rightarrow> memory_store" where
  "redis_abs rv s A t r = (\<lambda>n. if n \<in> A then hash_record (visible rv t r (account_key s n)) else None)"

lemma account_key_inj: "no_collision A \<Longrightarrow> m \<in> A \<Longrightarrow> n \<in> A \<Longrightarrow> account_key s m = account_key s n \<longleftrightarrow> m = n"
  unfolding account_key_def no_collision_def
  by (metis hex_roundtrip inj_onD option.inject same_append_eq)

lemma visible_cases:
  assumes "holds_records rv s A r" and "n \<in> A"
  obtains (absent) "visible rv t r (account_key s n) = Map.empty" "redis_abs rv s A t r n = None"
  | (present) rec where "good_record rec" "visible rv t r (account_key s n) = record_hash rec" "redis_abs rv s A t r n = Some rec"
proof (cases "visible rv t r (account_key s n) = Map.empty")
  case True
  with absent assms(2) show thesis by (simp add: redis_abs_def)
next
  case False
  then have "visible rv t r (account_key s n) = rvHash rv r (account_key s n)"
    by (auto simp: visible_def split: option.splits if_splits)
  with False assms present show thesis by (auto simp: holds_records_def redis_abs_def)
qed

text \<open>As time passes, records are only forgotten.\<close>

lemma visible_later: "t \<le> t' \<Longrightarrow> visible rv t' r key = visible rv t r key \<or> visible rv t' r key = Map.empty"
  by (auto simp: visible_def split: option.split)

lemma redis_abs_later:
  assumes "t \<le> t'" shows "redis_abs rv s A t' r \<subseteq>\<^sub>m redis_abs rv s A t r"
  unfolding map_le_def
proof
  fix n assume "n \<in> dom (redis_abs rv s A t' r)"
  then have n: "n \<in> A" "visible rv t' r (account_key s n) \<noteq> Map.empty" by (auto simp: redis_abs_def split: if_splits)
  with visible_later [OF assms, of rv r "account_key s n"] show "redis_abs rv s A t' r n = redis_abs rv s A t r n"
    by (simp add: redis_abs_def)
qed

section \<open>The script\<close>

lemma lua_precedence_status: "lua_precedence (Some st) = statusPrecedence st"
  by (simp add: lua_precedence_def statusPrecedence_def status_defs)

text \<open>Writing a record: the hash is that record, until its lifetime is over; other keys are as before.\<close>

lemma transition_write_effect:
  assumes laws: "redis_laws rv" and "0 < ttl"
    and h: "visible rv t r key = Map.empty \<or> (\<exists>rec. visible rv t r key = record_hash rec)"
    and r': "r' = fst (transition_write rv t r key st (Format_fixed9 now) (Format_fixed9 src) ttl)"
  shows "rvHash rv r' = (rvHash rv r)(key := record_hash \<lparr>recStatus = st, recUpdatedAt = now, recSourceEnqueuedAt = src\<rparr>)"
    and "rvDeadline rv r' = (rvDeadline rv r)(key \<mapsto> t + ttl * millisecond_ns)"
proof -
  let ?fvs = "[(''status'', st), (''updated_at'', Format_fixed9 now), (''source_enqueued_at'', Format_fixed9 src)]"
  let ?h = "record_hash \<lparr>recStatus = st, recUpdatedAt = now, recSourceEnqueuedAt = src\<rparr>"
  define r1 where "r1 = rvHSet rv t r key ?fvs"
  have h1: "rvHash rv r1 = (rvHash rv r)(key := visible rv t r key ++ map_of ?fvs)"
    and d1: "rvDeadline rv r1 = (rvDeadline rv r)(key := if visible rv t r key = Map.empty then None else rvDeadline rv r key)"
    using laws unfolding redis_laws_def r1_def by blast+
  have "visible rv t r key ++ map_of ?fvs = ?h" using h by (fastforce simp: record_hash_def map_add_def split: if_splits)
  with h1 have h1: "rvHash rv r1 = (rvHash rv r)(key := ?h)" by simp
  have "visible rv t r1 key = ?h"
    using h1 d1 by (auto simp: visible_def split: option.splits if_splits)
  then have "rvHash rv (rvPExpire rv t r1 key ttl) = rvHash rv r1
      \<and> rvDeadline rv (rvPExpire rv t r1 key ttl) = (rvDeadline rv r1)(key \<mapsto> t + ttl * millisecond_ns)"
    using laws record_hash_not_empty unfolding redis_laws_def by metis
  moreover have "r' = rvPExpire rv t r1 key ttl" by (simp add: r' transition_write_def r1_def)
  ultimately show "rvHash rv r' = (rvHash rv r)(key := ?h)"
    "rvDeadline rv r' = (rvDeadline rv r)(key \<mapsto> t + ttl * millisecond_ns)"
    using h1 d1 by simp_all
qed

lemma write_abs:
  assumes "redis_laws rv" "no_collision A" "holds_records rv s A r" "n \<in> A" "0 < ttl"
    and rec: "good_record rec"
    and r': "r' = fst (transition_write rv t r (account_key s n) (recStatus rec) (Format_fixed9 (recUpdatedAt rec))
                         (Format_fixed9 (recSourceEnqueuedAt rec)) ttl)"
  shows "holds_records rv s A r'" and "redis_abs rv s A t r' = (redis_abs rv s A t r)(n \<mapsto> rec)"
proof -
  have h: "visible rv t r (account_key s n) = Map.empty \<or> (\<exists>rec. visible rv t r (account_key s n) = record_hash rec)"
    using visible_cases [OF assms(3,4), of t] by metis
  have "0 < ttl * millisecond_ns" using assms(5) by (simp add: millisecond_ns_def)
  then have now: "t < t + ttl * millisecond_ns" by simp
  have surj: "\<lparr>recStatus = recStatus rec, recUpdatedAt = recUpdatedAt rec, recSourceEnqueuedAt = recSourceEnqueuedAt rec\<rparr> = rec"
    by (cases rec) simp
  have eff: "rvHash rv r' = (rvHash rv r)(account_key s n := record_hash rec)"
    "rvDeadline rv r' = (rvDeadline rv r)(account_key s n \<mapsto> t + ttl * millisecond_ns)"
    using transition_write_effect [OF assms(1,5) h r'] unfolding surj by simp_all
  show "holds_records rv s A r'"
    using assms(3,4) rec account_key_inj [OF assms(2)] unfolding holds_records_def eff by auto
  show "redis_abs rv s A t r' = (redis_abs rv s A t r)(n \<mapsto> rec)"
  proof
    fix m
    show "redis_abs rv s A t r' m = ((redis_abs rv s A t r)(n \<mapsto> rec)) m"
    proof (cases "m = n")
      case True
      then show ?thesis using rec now assms(4) by (simp add: redis_abs_def visible_def eff)
    next
      case False
      then have "m \<in> A \<Longrightarrow> rvHash rv r' (account_key s m) = rvHash rv r (account_key s m)
          \<and> rvDeadline rv r' (account_key s m) = rvDeadline rv r (account_key s m)"
        using account_key_inj [OF assms(2), of m n s] assms(4) by (simp add: eff)
      then have "m \<in> A \<Longrightarrow> visible rv t r' (account_key s m) = visible rv t r (account_key s m)"
        by (simp only: visible_def)
      with False show ?thesis by (simp add: redis_abs_def)
    qed
  qed
qed

text \<open>The script writes exactly when the in-process store would.\<close>

lemma script_decision:
  assumes "redis_laws rv" "holds_records rv s A r" "n \<in> A" "year_ok src"
  shows "transitionScript rv t r (account_key s n) st upd (Format_fixed9 src) ttl =
     (case redis_abs rv s A t r n of
        Some existing \<Rightarrow>
          if src < recSourceEnqueuedAt existing then (r, 0)
          else if src = recSourceEnqueuedAt existing \<and> statusPrecedence st \<le> statusPrecedence (recStatus existing) then (r, 0)
          else transition_write rv t r (account_key s n) st upd (Format_fixed9 src) ttl
      | None \<Rightarrow> transition_write rv t r (account_key s n) st upd (Format_fixed9 src) ttl)"
proof -
  have get: "rvHGet rv t r key field = visible rv t r key field" for key field
    using assms(1) unfolding redis_laws_def by blast
  show ?thesis
    using assms(2,3)
  proof (cases rule: visible_cases [where t = t])
    case absent
    then show ?thesis by (simp add: transitionScript_def get)
  next
    case (present rec)
    then have y: "year_ok (recSourceEnqueuedAt rec)" by (simp add: good_record_def)
    have cmp: "string_less (Format_fixed9 src) (Format_fixed9 (recSourceEnqueuedAt rec)) \<longleftrightarrow> src < recSourceEnqueuedAt rec"
      "Format_fixed9 src = Format_fixed9 (recSourceEnqueuedAt rec) \<longleftrightarrow> src = recSourceEnqueuedAt rec"
      using Format_fixed9_less_iff [of src "recSourceEnqueuedAt rec"] assms(4) y by (simp_all add: year_ok_def)
    have flds: "record_hash rec ''source_enqueued_at'' = Some (Format_fixed9 (recSourceEnqueuedAt rec))"
      "record_hash rec ''status'' = Some (recStatus rec)"
      by (simp_all add: record_hash_def)
    show ?thesis
      unfolding transitionScript_def get present flds option.case cmp Let_def lua_precedence_status by simp
  qed
qed

lemma set_refines:
  assumes "redis_laws rv" "no_collision A" "holds_records rv s A r" "normalizeUPN U upn \<in> A" "millisecond_ns \<le> ttl"
    and "known_status st" "year_ok now" "year_ok src"
  shows "holds_records rv s A (fst (RedisStore_set U rv s Answered t now r upn st src ttl))"
    and "redis_abs rv s A t (fst (RedisStore_set U rv s Answered t now r upn st src ttl)) =
           fst (MemoryStore_set U None now (redis_abs rv s A t r) upn st src)"
proof -
  let ?n = "normalizeUPN U upn" and ?rec = "\<lparr>recStatus = st, recUpdatedAt = now, recSourceEnqueuedAt = src\<rparr>"
  have "0 < duration_Milliseconds ttl"
    using assms(5) by (simp add: duration_Milliseconds_def millisecond_ns_def pos_imp_zdiv_pos_iff)
  note w = write_abs [OF assms(1-4) this, of ?rec _ t]
  have good: "good_record ?rec" using assms(6-8) by (simp add: good_record_def)
  note d = script_decision [OF assms(1,3,4,8)]
  show "holds_records rv s A (fst (RedisStore_set U rv s Answered t now r upn st src ttl))"
    using w(1) [OF good] assms(3) by (simp add: RedisStore_set_def RedisStore_key_account d split: option.split)
  show "redis_abs rv s A t (fst (RedisStore_set U rv s Answered t now r upn st src ttl)) =
      fst (MemoryStore_set U None now (redis_abs rv s A t r) upn st src)"
    using w(2) [OF good]
    by (simp add: RedisStore_set_def RedisStore_key_account d MemoryStore_set_def Let_def split: option.split)
qed

lemma get_refines:
  assumes "redis_laws rv" "holds_records rv s A r" "normalizeUPN U upn \<in> A"
  shows "RedisStore_Get U rv s None t r upn = MemoryStore_Get U None (redis_abs rv s A t r) upn"
proof -
  have get: "map_of (rvHGetAll rv t r key) = visible rv t r key" for key
    using assms(1) unfolding redis_laws_def by blast
  show ?thesis
    using assms(2,3)
  proof (cases rule: visible_cases [where t = t])
    case absent
    then show ?thesis using get [of "account_key s (normalizeUPN U upn)"]
      by (simp add: RedisStore_Get_def MemoryStore_Get_def RedisStore_key_account Let_def)
  next
    case (present rec)
    let ?fs = "rvHGetAll rv t r (account_key s (normalizeUPN U upn))"
    have m: "map_of ?fs = record_hash rec" using get present by simp
    then have "?fs \<noteq> []" by (metis map_of.simps(1) record_hash_not_empty)
    moreover have "field_text ?fs ''status'' = recStatus rec" "field_text ?fs ''updated_at'' = Format_fixed9 (recUpdatedAt rec)"
      "field_text ?fs ''source_enqueued_at'' = Format_fixed9 (recSourceEnqueuedAt rec)"
      by (simp_all add: field_text_def m record_hash_def)
    moreover have "statusPrecedence (recStatus rec) \<noteq> 0" "year_ok (recUpdatedAt rec)" "year_ok (recSourceEnqueuedAt rec)"
      using present(1) by (simp_all add: good_record_def known_status_precedence)
    ultimately show ?thesis
      using present by (simp add: RedisStore_Get_def MemoryStore_Get_def RedisStore_key_account parse_format Let_def)
  qed
qed

section \<open>Runs\<close>

text \<open>
  The abstract store: the in-process store, which may forget records at any time.
\<close>

inductive expiring_run :: "unicode_tables \<Rightarrow> memory_store \<Rightarrow> mark list \<Rightarrow> memory_store \<Rightarrow> bool" for U where
  stop: "expiring_run U s [] s"
| forget: "s' \<subseteq>\<^sub>m s \<Longrightarrow> expiring_run U s' ms s'' \<Longrightarrow> expiring_run U s ms s''"
| mark: "expiring_run U (memory_mark U s m) ms s' \<Longrightarrow> expiring_run U s (m # ms) s'"

lemma expiring_run_append:
  "expiring_run U s ms s' \<Longrightarrow> expiring_run U s' ms' s'' \<Longrightarrow> expiring_run U s (ms @ ms') s''"
  by (induction rule: expiring_run.induct) (auto intro: expiring_run.intros)

text \<open>Calls of the store, each with the instant on the server and the way it ended.\<close>

type_synonym redis_call = "instant \<times> rpc \<times> mark"

definition mark_ttl :: "redis_store \<Rightarrow> mark \<Rightarrow> duration" where
  "mark_ttl s m = (if markStatus m = StatusPending then rsPendingTTL s else rsTerminalTTL s)"

definition redis_mark :: "unicode_tables \<Rightarrow> 'r redis_server \<Rightarrow> redis_store \<Rightarrow> 'r \<Rightarrow> redis_call \<Rightarrow> 'r" where
  "redis_mark U rv s r c = (case c of (t, call, m) \<Rightarrow>
     fst (if markStatus m = StatusPending then RedisStore_MarkPending U rv s call t (markNow m) r (markUPN m) (markSource m)
          else if markStatus m = StatusSynced then RedisStore_MarkSynced U rv s call t (markNow m) r (markUPN m) (markSource m)
          else RedisStore_MarkFailed U rv s call t (markNow m) r (markUPN m) (markSource m)))"

definition reached :: "redis_call \<Rightarrow> bool" where
  "reached c = (case fst (snd c) of NotRun e \<Rightarrow> False | _ \<Rightarrow> True)"

definition good_call :: "unicode_tables \<Rightarrow> string set \<Rightarrow> redis_call \<Rightarrow> bool" where
  "good_call U A c \<longleftrightarrow> (case c of (t, call, m) \<Rightarrow>
     known_status (markStatus m) \<and> year_ok (markNow m) \<and> year_ok (markSource m) \<and> normalizeUPN U (markUPN m) \<in> A)"

lemma redis_mark_set:
  assumes "good_call U A (t, call, m)"
  shows "redis_mark U rv s r (t, call, m) =
    (if reached (t, call, m)
     then fst (RedisStore_set U rv s Answered t (markNow m) r (markUPN m) (markStatus m) (markSource m) (mark_ttl s m))
     else r)"
  using assms
  by (auto simp: redis_mark_def good_call_def known_status_def RedisStore_MarkPending_def RedisStore_MarkSynced_def
      RedisStore_MarkFailed_def RedisStore_set_def reached_def mark_ttl_def status_defs Let_def split: rpc.split)

lemma redis_run_simulates:
  assumes "redis_laws rv" "no_collision A" "holds_records rv s A r"
    and "millisecond_ns \<le> rsPendingTTL s" "millisecond_ns \<le> rsTerminalTTL s"
    and "sorted (map fst calls)" "\<forall>c \<in> set calls. good_call U A c \<and> t0 \<le> fst c" "\<forall>c \<in> set calls. fst c \<le> t" "t0 \<le> t"
  shows "holds_records rv s A (foldl (redis_mark U rv s) r calls)
       \<and> expiring_run U (redis_abs rv s A t0 r) (map (snd \<circ> snd) (filter reached calls))
           (redis_abs rv s A t (foldl (redis_mark U rv s) r calls))"
  using assms(3,6-9)
proof (induction calls arbitrary: r t0)
  case Nil
  then show ?case by (auto intro: forget [OF redis_abs_later] stop)
next
  case (Cons c calls)
  obtain t1 call m where c: "c = (t1, call, m)" by (cases c)
  let ?r' = "redis_mark U rv s r c"
  have good: "good_call U A (t1, call, m)" and t1: "t0 \<le> t1" "t1 \<le> t" using Cons.prems(3,4) c by auto
  have ttl: "millisecond_ns \<le> mark_ttl s m" using assms(4,5) by (simp add: mark_ttl_def)
  have m: "normalizeUPN U (markUPN m) \<in> A" "known_status (markStatus m)" "year_ok (markNow m)" "year_ok (markSource m)"
    using good by (simp_all add: good_call_def)
  note step = set_refines [OF assms(1,2) Cons.prems(1) m(1) ttl m(2-4), of t1]
  have inv: "holds_records rv s A ?r'"
    using step(1) Cons.prems(1) by (simp add: c redis_mark_set [OF good])
  have later: "\<forall>c \<in> set calls. good_call U A c \<and> t1 \<le> fst c" using Cons.prems(2,3) c by auto
  have rest: "holds_records rv s A (foldl (redis_mark U rv s) ?r' calls)
      \<and> expiring_run U (redis_abs rv s A t1 ?r') (map (snd \<circ> snd) (filter reached calls))
          (redis_abs rv s A t (foldl (redis_mark U rv s) ?r' calls))"
    using Cons.prems(2,4) t1(2) later by (intro Cons.IH [OF inv]) auto
  have "expiring_run U (redis_abs rv s A t1 r) (map (snd \<circ> snd) (filter reached (c # calls)))
      (redis_abs rv s A t (foldl (redis_mark U rv s) ?r' calls))"
  proof (cases "reached c")
    case True
    then have "redis_abs rv s A t1 ?r' = memory_mark U (redis_abs rv s A t1 r) m"
      using step(2) by (simp add: c redis_mark_set [OF good] memory_mark_def)
    with rest True show ?thesis by (auto simp: c intro: mark)
  next
    case False
    then have "?r' = r" by (simp add: c redis_mark_set [OF good])
    with rest False show ?thesis by simp
  qed
  from forget [OF redis_abs_later [OF t1(1)] this] rest show ?case unfolding foldl_Cons by blast
qed


text \<open>A server that keeps its hashes in a function, for use as an instance.\<close>

type_synonym simple_state = "string \<Rightarrow> (string \<times> string) list \<times> instant option"

definition simple_visible :: "instant \<Rightarrow> simple_state \<Rightarrow> string \<Rightarrow> (string \<times> string) list" where
  "simple_visible t r key = (case snd (r key) of None \<Rightarrow> fst (r key) | Some d \<Rightarrow> if t < d then fst (r key) else [])"

definition simple_redis :: "simple_state redis_server" where
  "simple_redis =
     \<lparr>rvHash = (\<lambda>r key. map_of (fst (r key))), rvDeadline = (\<lambda>r key. snd (r key)),
      rvHGet = (\<lambda>t r key field. map_of (simple_visible t r key) field), rvHGetAll = simple_visible,
      rvHSet = (\<lambda>t r key fvs. r(key := (fvs @ simple_visible t r key, if simple_visible t r key = [] then None else snd (r key)))),
      rvPExpire = (\<lambda>t r key ms. if simple_visible t r key = [] then r else r(key := (fst (r key), Some (t + ms * millisecond_ns))))\<rparr>"

lemma simple_redis_laws: "redis_laws simple_redis"
proof -
  have v: "visible simple_redis t r key = map_of (simple_visible t r key)" for t r key
    by (simp add: visible_def simple_visible_def simple_redis_def split: option.split)
  have e: "map_of (simple_visible t r key) = Map.empty \<longleftrightarrow> simple_visible t r key = []" for t r key
    by simp
  show ?thesis
    unfolding redis_laws_def v e by (auto simp: simple_redis_def fun_eq_iff simp del: map_of_eq_empty_iff)
qed

definition sample_store :: redis_store where
  "sample_store = \<lparr>rsKeyPrefix = ''p:'', rsPendingTTL = second_ns, rsTerminalTTL = second_ns\<rparr>"


section \<open>The life of a provider\<close>

datatype provider_op = OpSubscribe "goerror + string" nat | OpUnsubscribe nat | OpClose "goerror option"

fun provider_step :: "cred_provider \<Rightarrow> provider_op \<Rightarrow> cred_provider \<times> res_event list" where
  "provider_step p (OpSubscribe token listener) = (snd (Subscribe token p listener), [])"
| "provider_step p (OpUnsubscribe listener) = (Unsubscribe p listener, [])"
| "provider_step p (OpClose stopped) = snd (Provider_Close stopped p)"

fun provider_run :: "cred_provider \<Rightarrow> provider_op list \<Rightarrow> cred_provider \<times> res_event list" where
  "provider_run p [] = (p, [])"
| "provider_run p (x # ops) =
     (let (p', evs) = provider_step p x; (p'', evs') = provider_run p' ops in (p'', evs @ evs'))"

fun first_close :: "provider_op list \<Rightarrow> goerror option option" where
  "first_close [] = None"
| "first_close (OpClose stopped # ops) = Some stopped"
| "first_close (x # ops) = first_close ops"

definition provider_open :: "cred_provider \<Rightarrow> bool" where
  "provider_open p \<longleftrightarrow> \<not> cpOnce p \<and> \<not> cpClosed p \<and> distinct (cpListeners p)"

definition provider_closed :: "goerror option \<Rightarrow> cred_provider \<Rightarrow> bool" where
  "provider_closed e p \<longleftrightarrow> cpOnce p \<and> cpClosed p \<and> cpListeners p = [] \<and> cpCloseErr p = e"

lemma provider_closed_run: "provider_closed e p \<Longrightarrow> provider_closed e (fst (provider_run p ops)) \<and> snd (provider_run p ops) = []"
proof (induction ops arbitrary: p)
  case (Cons x ops)
  have "provider_closed e (fst (provider_step p x))" "snd (provider_step p x) = []"
    using Cons.prems by (cases x; simp add: provider_closed_def Subscribe_def Unsubscribe_def Provider_Close_def)+
  with Cons.IH show ?case by (simp add: split_beta Let_def)
qed simp

lemma provider_open_run:
  "provider_open p \<Longrightarrow> case first_close ops of
     None \<Rightarrow> provider_open (fst (provider_run p ops)) \<and> snd (provider_run p ops) = []
   | Some e \<Rightarrow> provider_closed e (fst (provider_run p ops)) \<and> snd (provider_run p ops) = [Closed token_manager]"
proof (induction ops arbitrary: p)
  case (Cons x ops)
  show ?case
  proof (cases x)
    case (OpClose e)
    then have "provider_closed e (fst (provider_step p x))" "snd (provider_step p x) = [Closed token_manager]"
      using Cons.prems by (simp_all add: provider_open_def provider_closed_def Provider_Close_def)
    with provider_closed_run [of e "fst (provider_step p x)" ops] OpClose show ?thesis by (simp add: split_beta Let_def)
  next
    case (OpSubscribe token l)
    then have "provider_open (fst (provider_step p x))" "snd (provider_step p x) = []"
      using Cons.prems by (simp_all add: provider_open_def Subscribe_def split: sum.split)
    with Cons.IH [of "fst (provider_step p x)"] OpSubscribe show ?thesis by (simp add: split_beta Let_def split: option.splits)
  next
    case (OpUnsubscribe l)
    then have "provider_open (fst (provider_step p x))" "snd (provider_step p x) = []"
      using Cons.prems by (simp_all add: provider_open_def Unsubscribe_def)
    with Cons.IH [of "fst (provider_step p x)"] OpUnsubscribe show ?thesis by (simp add: split_beta Let_def split: option.splits)
  qed
qed simp

text \<open>
  The token manager is stopped exactly once. Whatever connections subscribe and
  unsubscribe, and however often the provider is closed, the manager is stopped by the first
  \<^verbatim>\<open>Close\<close> and never again; every later \<^verbatim>\<open>Close\<close> reports the result of that stop; nobody is
  subscribed afterwards, and new subscriptions are refused. Before that, no connection is
  subscribed twice.
\<close>

theorem token_manager_stopped_once:
  "let (p, evs) = provider_run \<lparr>cpListeners = [], cpClosed = False, cpOnce = False, cpCloseErr = None\<rparr> ops in
   case first_close ops of
     None \<Rightarrow> evs = [] \<and> distinct (cpListeners p)
   | Some err \<Rightarrow> evs = [Closed token_manager] \<and> (\<forall>stopped. Provider_Close stopped p = (err, p, []))
       \<and> (\<forall>token. OnNext p token = []) \<and> (\<forall>token l. \<exists>e. Subscribe token p l = (Inl e, p))"
  using provider_open_run [of "\<lparr>cpListeners = [], cpClosed = False, cpOnce = False, cpCloseErr = None\<rparr>" ops]
  by (auto simp: provider_open_def provider_closed_def Provider_Close_def OnNext_def Subscribe_def split: option.splits)

section \<open>Handles of the store\<close>

definition redis_handles :: "redis_store \<times> cred_provider \<Rightarrow> resource multiset" where
  "redis_handles x = {#redis_client#} + (if cpOnce (snd x) then {#} else {#token_manager#})"

definition close_store :: "redis_sdk \<Rightarrow> redis_store \<times> cred_provider \<Rightarrow> goerror option \<times> res_event list" where
  "close_store sdk x = (case RedisStore_Close sdk (snd x) of (err, p, evs) \<Rightarrow> (err, evs))"

interpretation sc: closing redis_handles "close_store sdk" for sdk
  by unfold_locales
    (simp_all add: close_store_def redis_handles_def RedisStore_Close_def Provider_Close_def Let_def)

lemma redis_constructor_owns: "owned redis_handles (NewManagedIdentityRedisStore uuid sdk opts)"
  by (simp add: owned_def NewManagedIdentityRedisStore_def newStreamingCredentialsProvider_def newOwnedCredentialsProvider_def
      Provider_Close_def RedisStore_Close_def redis_handles_def Let_def split: option.split sum.split)

end
