(* ===== verification/Go_Duration.thy ===== *)
theory Go_Duration
  imports Go_Hmac
begin

text \<open>
  \<^verbatim>\<open>strconv.ParseBool\<close>, \<^verbatim>\<open>strconv.Atoi\<close> and \<^verbatim>\<open>time.ParseDuration\<close>, as the configuration uses
  them. Of an error only its presence is used. The fraction of a duration is computed by Go in
  \<^verbatim>\<open>float64\<close>; the rounding to 53 significant bits is written out on fractions of naturals.
\<close>

definition ParseBool :: "string \<Rightarrow> bool option" where
  "ParseBool s =
     (if s \<in> set [''1'', ''t'', ''T'', ''TRUE'', ''true'', ''True''] then Some True
      else if s \<in> set [''0'', ''f'', ''F'', ''FALSE'', ''false'', ''False''] then Some False
      else None)"

definition Atoi :: "string \<Rightarrow> int option" where
  "Atoi s = ParseInt s 64"

section \<open>Floating point numbers\<close>

text \<open>
  A positive number \<open>p / q\<close>, rounded to 53 significant bits, ties to even, is again a fraction.
  The exponent is found by comparing the lengths of numerator and denominator in bits; the
  numbers that occur are far from the limits of the exponent.
\<close>

fun bit_length :: "nat \<Rightarrow> nat" where
  "bit_length n = (if n = 0 then 0 else Suc (bit_length (n div 2)))"

definition round_half_even :: "nat \<Rightarrow> nat \<Rightarrow> nat" where
  "round_half_even p q =
     (let d = p div q; r = 2 * (p mod q) in
      if r < q then d else if q < r then Suc d else if even d then d else Suc d)"

definition float64_round :: "nat \<times> nat \<Rightarrow> nat \<times> nat" where
  "float64_round = (\<lambda>(p, q).
     if p = 0 then (0, 1)
     else
       let up = 54 + bit_length q - bit_length p; down = bit_length p - (54 + bit_length q);
           (p', q') = (p * 2 ^ up, q * 2 ^ down);
           (p', q', up', down') = (if bit_length (p' div q') = 54 then (p', q' * 2, up, Suc down)
                                   else if bit_length (p' div q') = 55 then (p', q' * 4, up, down + 2)
                                   else (p', q', up, down))
       in (round_half_even p' q' * 2 ^ down', 2 ^ up'))"

definition float64_mul :: "nat \<times> nat \<Rightarrow> nat \<times> nat \<Rightarrow> nat \<times> nat" where
  "float64_mul = (\<lambda>(p, q) (p', q'). float64_round (p * p', q * q'))"

definition float64_div :: "nat \<times> nat \<Rightarrow> nat \<times> nat \<Rightarrow> nat \<times> nat" where
  "float64_div = (\<lambda>(p, q) (p', q'). float64_round (p * q', q * p'))"

definition float64_of :: "nat \<Rightarrow> nat \<times> nat" where
  "float64_of n = float64_round (n, 1)"

definition float64_trunc :: "nat \<times> nat \<Rightarrow> nat" where
  "float64_trunc = (\<lambda>(p, q). p div q)"

section \<open>Durations\<close>

definition dec_digit :: "char \<Rightarrow> bool" where
  "dec_digit c \<longleftrightarrow> 48 \<le> ord c \<and> ord c \<le> 57"

definition digit_value :: "char \<Rightarrow> nat" where
  "digit_value c = ord c - 48"

text \<open>\<^verbatim>\<open>leadingInt\<close>: an overflow is an error.\<close>

fun leadingInt :: "nat \<Rightarrow> string \<Rightarrow> (nat \<times> string) option" where
  "leadingInt x [] = Some (x, [])"
| "leadingInt x (c # s) =
     (if \<not> dec_digit c then Some (x, c # s)
      else if 2 ^ 63 div 10 < x then None
      else let x' = x * 10 + digit_value c in if 2 ^ 63 < x' then None else leadingInt x' s)"

text \<open>\<^verbatim>\<open>leadingFraction\<close>: digits that do not fit are skipped. The scale is kept in \<^verbatim>\<open>float64\<close>.\<close>

fun leadingFraction :: "nat \<Rightarrow> nat \<times> nat \<Rightarrow> bool \<Rightarrow> string \<Rightarrow> nat \<times> (nat \<times> nat) \<times> string" where
  "leadingFraction x scale overflow [] = (x, scale, [])"
| "leadingFraction x scale overflow (c # s) =
     (if \<not> dec_digit c then (x, scale, c # s)
      else if overflow then leadingFraction x scale True s
      else if (2 ^ 63 - 1) div 10 < x then leadingFraction x scale True s
      else let y = x * 10 + digit_value c in
        if 2 ^ 63 < y then leadingFraction x scale True s
        else leadingFraction y (float64_mul scale (10, 1)) False s)"

definition unitMap :: "(string \<times> nat) list" where
  "unitMap = [(''ns'', 1), (''us'', 1000), ([CHR 0xC2, CHR 0xB5] @ ''s'', 1000), ([CHR 0xCE, CHR 0xBC] @ ''s'', 1000),
     (''ms'', 1000000), (''s'', 1000000000), (''m'', 60000000000), (''h'', 3600000000000)]"

definition unit_char :: "char \<Rightarrow> bool" where
  "unit_char c \<longleftrightarrow> c \<noteq> CHR ''.'' \<and> \<not> dec_digit c"

text \<open>One number with its unit: its nanoseconds, and the rest of the text.\<close>

definition duration_part :: "string \<Rightarrow> (nat \<times> string) option" where
  "duration_part s =
     (if s = [] \<or> (hd s \<noteq> CHR ''.'' \<and> \<not> dec_digit (hd s)) then None
      else case leadingInt 0 s of
        None \<Rightarrow> None
      | Some (v, s1) \<Rightarrow>
          let pre = length s1 \<noteq> length s;
              dot = s1 \<noteq> [] \<and> hd s1 = CHR ''.'';
              (f, scale, s2) = (if dot then leadingFraction 0 (1, 1) False (tl s1) else (0, (1, 1), s1));
              post = dot \<and> length s2 \<noteq> length (tl s1);
              u = takeWhile unit_char s2
          in if \<not> pre \<and> \<not> post then None
             else if u = [] then None
             else case map_of unitMap u of
               None \<Rightarrow> None
             | Some unit \<Rightarrow>
                 if 2 ^ 63 div unit < v then None
                 else
                   let v = v * unit;
                       v = (if 0 < f then v + float64_trunc (float64_mul (float64_of f) (float64_div (unit, 1) scale)) else v)
                   in if 0 < f \<and> 2 ^ 63 < v then None else Some (v, dropWhile unit_char s2))"

text \<open>The loop, with the sum so far. Every part is longer than nothing, so the loop ends.\<close>

lemma leadingInt_length: "leadingInt x s = Some (v, s') \<Longrightarrow> length s' \<le> length s"
  by (induction x s rule: leadingInt.induct) (auto simp: Let_def split: if_splits)

lemma leadingFraction_length: "leadingFraction x scale ov s = (f, sc, s') \<Longrightarrow> length s' \<le> length s"
  by (induction x scale ov s rule: leadingFraction.induct) (auto simp: Let_def split: if_splits)

lemma duration_part_length:
  assumes "duration_part s = Some (v, s')"
  shows "length s' < length s"
proof -
  obtain x s1 where i: "leadingInt 0 s = Some (x, s1)"
    using assms by (auto simp: duration_part_def split: if_splits option.splits)
  let ?dot = "s1 \<noteq> [] \<and> hd s1 = CHR ''.''"
  obtain f sc s2 where f: "(if ?dot then leadingFraction 0 (1, 1) False (tl s1) else (0, (1, 1), s1)) = (f, sc, s2)"
    by (metis prod_cases3)
  have u: "takeWhile unit_char s2 \<noteq> []" "s' = dropWhile unit_char s2"
    using assms i f by (auto simp: duration_part_def Let_def split: if_splits option.splits)
  have "length s2 \<le> length s1"
    using f leadingFraction_length [of 0 "(1, 1)" False "tl s1" f sc s2] by (auto split: if_splits)
  moreover have "length s' < length s2"
    using u length_append [of "takeWhile unit_char s2" "dropWhile unit_char s2"] by simp
  ultimately show ?thesis using leadingInt_length [OF i] by simp
qed

function duration_sum :: "nat \<Rightarrow> string \<Rightarrow> nat option" where
  "duration_sum d s =
     (if s = [] then Some d
      else case duration_part s of
        None \<Rightarrow> None
      | Some (v, s') \<Rightarrow> if 2 ^ 63 < d + v then None else duration_sum (d + v) s')"
  by pat_completeness auto
termination
  by (relation "measure (\<lambda>(d, s). length s)") (auto dest: duration_part_length)

declare duration_sum.simps [simp del] bit_length.simps [simp del]

definition ParseDuration :: "string \<Rightarrow> duration option" where
  "ParseDuration s =
     (let neg = (s \<noteq> [] \<and> hd s = CHR ''-'');
          s = (if s \<noteq> [] \<and> (hd s = CHR ''-'' \<or> hd s = CHR ''+'') then tl s else s)
      in if s = ''0'' then Some 0
         else if s = [] then None
         else case duration_sum 0 s of
           None \<Rightarrow> None
         | Some d \<Rightarrow> if neg then Some (- int d) else if 2 ^ 63 - 1 < d then None else Some (int d))"

lemma duration_sum_bound: "duration_sum d s = Some n \<Longrightarrow> d \<le> 2 ^ 63 \<Longrightarrow> n \<le> 2 ^ 63"
proof (induction d s rule: duration_sum.induct)
  case (1 d s)
  then show ?case
    by (auto simp: duration_sum.simps [of d s] split: if_splits option.splits)
qed

lemma ParseDuration_range:
  assumes "ParseDuration s = Some d" shows "minDuration \<le> d \<and> d \<le> maxDuration"
proof -
  consider "d = 0" | t n where "duration_sum 0 t = Some n" "d = - int n"
    | t n where "duration_sum 0 t = Some n" "d = int n" "\<not> 2 ^ 63 - 1 < n"
    using assms by (auto simp: ParseDuration_def Let_def split: if_splits option.splits)
  then show ?thesis
  proof cases
    case (2 t n)
    then have "n \<le> 2 ^ 63" using duration_sum_bound [of 0 t n] by simp
    with 2 show ?thesis by (simp add: minDuration_def maxDuration_def)
  qed (simp_all add: minDuration_def maxDuration_def)
qed

end
