(* ===== verification/Config.thy ===== *)
theory Config
  imports Rate_Limit Redis_Store Hmac Go_Duration
begin

text \<open>
  Package \<^verbatim>\<open>internal/config\<close> (\<^verbatim>\<open>config.go\<close>): the configuration read from the environment and
  its validation. The environment is a function, which gives the empty string for a variable
  that is not set. \<open>uuid\<close> stands for \<^verbatim>\<open>uuid.Validate\<close>.
\<close>

section \<open>The configuration\<close>

definition SecretsSourceEnv :: string where "SecretsSourceEnv = ''env''"
definition SecretsSourceKeyVault :: string where "SecretsSourceKeyVault = ''keyvault''"
definition ServiceBusAuthConnectionString :: string where "ServiceBusAuthConnectionString = ''connection_string''"
definition ServiceBusAuthManagedIdentity :: string where "ServiceBusAuthManagedIdentity = ''managed_identity''"
definition ObservabilityExporterNone :: string where "ObservabilityExporterNone = ''none''"
definition ObservabilityExporterAzureMonitor :: string where "ObservabilityExporterAzureMonitor = ''azure_monitor''"
definition SyncStatusStoreMemory :: string where "SyncStatusStoreMemory = ''memory''"
definition SyncStatusStoreRedis :: string where "SyncStatusStoreRedis = ''redis''"

lemmas config_names = SecretsSourceEnv_def SecretsSourceKeyVault_def ServiceBusAuthConnectionString_def
  ServiceBusAuthManagedIdentity_def ObservabilityExporterNone_def ObservabilityExporterAzureMonitor_def
  SyncStatusStoreMemory_def SyncStatusStoreRedis_def

record key_vault_secret_names =
  kvHMACSecret :: string
  kvServiceBusConnectionString :: string
  kvGraphClientSecret :: string
  kvPasswordEncryptionKey :: string

record config =
  cfSecretsSource :: string
  cfKeyVaultURL :: string
  cfKeyVaultSecretNames :: key_vault_secret_names
  cfHTTPAddr :: string
  cfHMACSecret :: string
  cfEntraPrimaryDomain :: string
  cfEntraFallbackDomain :: string
  cfProblemBaseURL :: string
  cfHMACClockSkew :: duration
  cfNonceTTL :: duration
  cfPortalAllowedCIDRs :: "string list"
  cfTrustedProxyCIDRs :: "string list"
  cfDirectClientMode :: bool
  cfRateLimitPerIP :: int
  cfRateLimitWindow :: duration
  cfHookMaxBodyBytes :: int
  cfServiceBusAuthMode :: string
  cfServiceBusNamespaceFQDN :: string
  cfServiceBusConnectionString :: string
  cfServiceBusQueueName :: string
  cfServiceBusDeadLetterQueueName :: string
  cfPasswordMessageTTL :: duration
  cfSyncStatusStore :: string
  cfRedisHost :: string
  cfRedisPort :: int
  cfRedisKeyPrefix :: string
  cfSyncStatusTerminalTTL :: duration
  cfAzureClientID :: string
  cfPasswordEncryptionKeyB64 :: string
  cfPasswordEncryptionKeyID :: string
  cfGraphTenantID :: string
  cfGraphClientID :: string
  cfGraphClientSecret :: string
  cfObservabilityExporter :: string
  cfOTLPExporterEndpoint :: string
  cfAzureMonitorMetricResourceID :: string
  cfAzureMonitorMetricRegion :: string
  cfAzureMonitorMetricNamespace :: string
  cfDirectClientModeErr :: "goerror option"
  cfRedisPortErr :: "goerror option"
  cfPasswordMessageTTLErr :: "goerror option"
  cfSyncStatusTerminalTTLErr :: "goerror option"

section \<open>Reading the environment\<close>

type_synonym environment = "string \<Rightarrow> string"

definition env :: "environment \<Rightarrow> string \<Rightarrow> string \<Rightarrow> string" where
  "env getenv key fallback = (let v = TrimSpace (getenv key) in if v = [] then fallback else v)"

definition boolEnv :: "environment \<Rightarrow> string \<Rightarrow> bool \<times> goerror option" where
  "boolEnv getenv key =
     (let raw = TrimSpace (getenv key) in
      if raw = [] then (False, None)
      else case ParseBool raw of
        None \<Rightarrow> (False, Some (ErrorString (key @ '' must be a boolean'')))
      | Some v \<Rightarrow> (v, None))"

definition strictIntEnv :: "environment \<Rightarrow> string \<Rightarrow> int \<times> goerror option" where
  "strictIntEnv getenv key =
     (let raw = TrimSpace (getenv key) in
      if raw = [] then (0, None)
      else case Atoi raw of
        None \<Rightarrow> (0, Some (ErrorString (key @ '' must be an integer'')))
      | Some v \<Rightarrow> (v, None))"

definition strictDurationEnv :: "environment \<Rightarrow> string \<Rightarrow> duration \<Rightarrow> duration \<times> goerror option" where
  "strictDurationEnv getenv key fallback =
     (let raw = TrimSpace (getenv key) in
      if raw = [] then (fallback, None)
      else case ParseDuration raw of
        None \<Rightarrow> (0, Some (ErrorString (key @ '' must be a valid duration'')))
      | Some v \<Rightarrow> (v, None))"

definition csvEnv :: "environment \<Rightarrow> string \<Rightarrow> string list" where
  "csvEnv getenv key =
     (let raw = TrimSpace (getenv key) in
      if raw = [] then []
      else filter (\<lambda>v. v \<noteq> []) (map TrimSpace (SplitChar CHR '','' raw)))"

definition intEnv :: "environment \<Rightarrow> string \<Rightarrow> int \<Rightarrow> int" where
  "intEnv getenv key fallback =
     (let raw = TrimSpace (getenv key) in
      if raw = [] then fallback else case Atoi raw of None \<Rightarrow> fallback | Some v \<Rightarrow> v)"

definition int64Env :: "environment \<Rightarrow> string \<Rightarrow> int \<Rightarrow> int" where
  "int64Env getenv key fallback =
     (let raw = TrimSpace (getenv key) in
      if raw = [] then fallback else case ParseInt raw 64 of None \<Rightarrow> fallback | Some v \<Rightarrow> v)"

definition durationEnv :: "environment \<Rightarrow> string \<Rightarrow> duration \<Rightarrow> duration" where
  "durationEnv getenv key fallback =
     (let raw = TrimSpace (getenv key) in
      if raw = [] then fallback else case ParseDuration raw of None \<Rightarrow> fallback | Some v \<Rightarrow> v)"

definition Load :: "environment \<Rightarrow> config" where
  "Load getenv =
     (let (directClientMode, directClientModeErr) = boolEnv getenv ''DIRECT_CLIENT_MODE'';
          (redisPort, redisPortErr) = strictIntEnv getenv ''REDIS_PORT'';
          (passwordMessageTTL, passwordMessageTTLErr) = strictDurationEnv getenv ''PASSWORD_MESSAGE_TTL'' (300 * second_ns);
          (syncStatusTerminalTTL, syncStatusTerminalTTLErr) =
            strictDurationEnv getenv ''SYNC_STATUS_TERMINAL_TTL'' (90 * 24 * 3600 * second_ns)
      in \<lparr>cfSecretsSource = TrimSpace (getenv ''SECRETS_SOURCE''),
          cfKeyVaultURL = TrimSpace (getenv ''KEY_VAULT_URL''),
          cfKeyVaultSecretNames =
            \<lparr>kvHMACSecret = env getenv ''KEY_VAULT_HMAC_SECRET_NAME'' ''hook-hmac-secret'',
             kvServiceBusConnectionString = env getenv ''KEY_VAULT_SERVICEBUS_CONNECTION_STRING_NAME'' ''servicebus-conn-str'',
             kvGraphClientSecret = env getenv ''KEY_VAULT_GRAPH_CLIENT_SECRET_NAME'' ''graph-client-secret'',
             kvPasswordEncryptionKey = env getenv ''KEY_VAULT_PASSWORD_ENCRYPTION_KEY_NAME'' ''password-payload-encryption-key''\<rparr>,
          cfHTTPAddr = env getenv ''HTTP_ADDR'' '':8080'',
          cfHMACSecret = getenv ''HOOK_HMAC_SECRET'',
          cfEntraPrimaryDomain = env getenv ''ENTRA_PRIMARY_DOMAIN'' ''nycu.edu.tw'',
          cfEntraFallbackDomain = TrimSpace (getenv ''ENTRA_FALLBACK_DOMAIN''),
          cfProblemBaseURL = TrimRightChar CHR ''/'' (env getenv ''PROBLEM_BASE_URL'' ''https://nycu.edu.tw/problems''),
          cfHMACClockSkew = 30 * second_ns,
          cfNonceTTL = 60 * second_ns,
          cfPortalAllowedCIDRs = csvEnv getenv ''PORTAL_ALLOWED_CIDRS'',
          cfTrustedProxyCIDRs = csvEnv getenv ''TRUSTED_PROXY_CIDRS'',
          cfDirectClientMode = directClientMode,
          cfRateLimitPerIP = intEnv getenv ''RATE_LIMIT_PER_IP'' 500,
          cfRateLimitWindow = durationEnv getenv ''RATE_LIMIT_WINDOW'' second_ns,
          cfHookMaxBodyBytes = int64Env getenv ''HOOK_MAX_BODY_BYTES'' (64 * 1024),
          cfServiceBusAuthMode = env getenv ''SERVICEBUS_AUTH_MODE'' ServiceBusAuthConnectionString,
          cfServiceBusNamespaceFQDN = TrimSpace (getenv ''SERVICEBUS_NAMESPACE_FQDN''),
          cfServiceBusConnectionString = TrimSpace (getenv ''SERVICEBUS_CONNECTION_STRING''),
          cfServiceBusQueueName = env getenv ''SERVICEBUS_QUEUE_NAME'' ''password-sync'',
          cfServiceBusDeadLetterQueueName = env getenv ''SERVICEBUS_DEADLETTER_QUEUE_NAME'' ''password-sync-dlq'',
          cfPasswordMessageTTL = passwordMessageTTL,
          cfSyncStatusStore = TrimSpace (getenv ''SYNC_STATUS_STORE''),
          cfRedisHost = TrimSpace (getenv ''REDIS_HOST''),
          cfRedisPort = redisPort,
          cfRedisKeyPrefix = env getenv ''REDIS_KEY_PREFIX'' ''password-hook:sync-status:'',
          cfSyncStatusTerminalTTL = syncStatusTerminalTTL,
          cfAzureClientID = TrimSpace (getenv ''AZURE_CLIENT_ID''),
          cfPasswordEncryptionKeyB64 = TrimSpace (getenv ''PASSWORD_ENCRYPTION_KEY_B64''),
          cfPasswordEncryptionKeyID = env getenv ''PASSWORD_ENCRYPTION_KEY_ID'' ''password-payload-key-v1'',
          cfGraphTenantID = TrimSpace (getenv ''GRAPH_TENANT_ID''),
          cfGraphClientID = TrimSpace (getenv ''GRAPH_CLIENT_ID''),
          cfGraphClientSecret = TrimSpace (getenv ''GRAPH_CLIENT_SECRET''),
          cfObservabilityExporter = env getenv ''OBSERVABILITY_EXPORTER'' ObservabilityExporterNone,
          cfOTLPExporterEndpoint = TrimSpace (getenv ''OTEL_EXPORTER_OTLP_ENDPOINT''),
          cfAzureMonitorMetricResourceID = TrimSpace (getenv ''AZURE_MONITOR_METRIC_RESOURCE_ID''),
          cfAzureMonitorMetricRegion = TrimSpace (getenv ''AZURE_MONITOR_METRIC_REGION''),
          cfAzureMonitorMetricNamespace = env getenv ''AZURE_MONITOR_METRIC_NAMESPACE'' ''password-hook-service'',
          cfDirectClientModeErr = directClientModeErr,
          cfRedisPortErr = redisPortErr,
          cfPasswordMessageTTLErr = passwordMessageTTLErr,
          cfSyncStatusTerminalTTLErr = syncStatusTerminalTTLErr\<rparr>)"

section \<open>Validation\<close>

definition hasNonBlank :: "string list \<Rightarrow> bool" where
  "hasNonBlank values = list_ex (\<lambda>v. TrimSpace v \<noteq> []) values"

fun validateCIDRs :: "string \<Rightarrow> string list \<Rightarrow> goerror option" where
  "validateCIDRs envName [] = None"
| "validateCIDRs envName (v # values) =
     (if TrimSpace v = [] then validateCIDRs envName values
      else if ParseCIDR (TrimSpace v) = None
      then Some (QuotedError (envName @ '' contains invalid CIDR '') (TrimSpace v))
      else validateCIDRs envName values)"

text \<open>The inner loop of \<^verbatim>\<open>rejectOverlappingCIDRs\<close>, for one trusted block.\<close>

fun reject_overlap_with :: "string \<Rightarrow> ip_net \<Rightarrow> string list \<Rightarrow> goerror option" where
  "reject_overlap_with t trustedNet [] = None"
| "reject_overlap_with t trustedNet (p # portal) =
     (if TrimSpace p = [] then reject_overlap_with t trustedNet portal
      else case ParseCIDR (TrimSpace p) of
        None \<Rightarrow> Some (QuotedError ''PORTAL_ALLOWED_CIDRS contains invalid CIDR '' (TrimSpace p))
      | Some portalNet \<Rightarrow>
          if net_Contains trustedNet (netIP portalNet) \<or> net_Contains portalNet (netIP trustedNet)
          then Some (QuotedPairError ''TRUSTED_PROXY_CIDRS '' t '' must not overlap PORTAL_ALLOWED_CIDRS '' (TrimSpace p))
          else reject_overlap_with t trustedNet portal)"

fun rejectOverlappingCIDRs :: "string list \<Rightarrow> string list \<Rightarrow> goerror option" where
  "rejectOverlappingCIDRs [] portal = None"
| "rejectOverlappingCIDRs (t # trusted) portal =
     (if TrimSpace t = [] then rejectOverlappingCIDRs trusted portal
      else case ParseCIDR (TrimSpace t) of
        None \<Rightarrow> Some (QuotedError ''TRUSTED_PROXY_CIDRS contains invalid CIDR '' (TrimSpace t))
      | Some trustedNet \<Rightarrow>
          (case reject_overlap_with (TrimSpace t) trustedNet portal of
             Some err \<Rightarrow> Some err
           | None \<Rightarrow> rejectOverlappingCIDRs trusted portal))"

text \<open>\<^verbatim>\<open>IPMask.Size\<close>: the leading ones, and 0 for a mask that is not ones followed by zeros.\<close>

definition mask_Size :: "byte list \<Rightarrow> nat" where
  "mask_Size m =
     (let bits = ip_bits m; ones = length (takeWhile id bits) in
      if list_all Not (drop ones bits) then ones else 0)"

fun rejectUnrestrictedCIDRs :: "string \<Rightarrow> string list \<Rightarrow> goerror option" where
  "rejectUnrestrictedCIDRs envName [] = None"
| "rejectUnrestrictedCIDRs envName (v # values) =
     (if TrimSpace v = [] then rejectUnrestrictedCIDRs envName values
      else case ParseCIDR (TrimSpace v) of
        None \<Rightarrow> Some (QuotedError (envName @ '' contains invalid CIDR '') (TrimSpace v))
      | Some network \<Rightarrow>
          if mask_Size (netMask network) = 0
          then Some (QuotedError (envName @ '' must not contain unrestricted CIDR '') (TrimSpace v))
          else rejectUnrestrictedCIDRs envName values)"

definition ValidateSecretLoadingInputs :: "config \<Rightarrow> goerror option" where
  "ValidateSecretLoadingInputs c =
     (if cfSecretsSource c = [] then Some (ErrorString ''SECRETS_SOURCE is required (env or keyvault)'')
      else if cfSecretsSource c = SecretsSourceEnv then None
      else if cfSecretsSource c = SecretsSourceKeyVault then
        let names = cfKeyVaultSecretNames c in
        if TrimSpace (cfKeyVaultURL c) = [] then Some (ErrorString ''KEY_VAULT_URL is required when SECRETS_SOURCE=keyvault'')
        else if \<not> HasPrefix (cfKeyVaultURL c) ''https://'' then Some (ErrorString ''KEY_VAULT_URL must start with https://'')
        else if TrimSpace (kvHMACSecret names) = []
        then Some (ErrorString ''KEY_VAULT_HMAC_SECRET_NAME is required when SECRETS_SOURCE=keyvault'')
        else if cfServiceBusAuthMode c \<noteq> ServiceBusAuthManagedIdentity \<and> TrimSpace (kvServiceBusConnectionString names) = []
        then Some (ErrorString ''KEY_VAULT_SERVICEBUS_CONNECTION_STRING_NAME is required when SECRETS_SOURCE=keyvault'')
        else if TrimSpace (kvGraphClientSecret names) = []
        then Some (ErrorString ''KEY_VAULT_GRAPH_CLIENT_SECRET_NAME is required when SECRETS_SOURCE=keyvault'')
        else if TrimSpace (kvPasswordEncryptionKey names) = []
        then Some (ErrorString ''KEY_VAULT_PASSWORD_ENCRYPTION_KEY_NAME is required when SECRETS_SOURCE=keyvault'')
        else None
      else Some (ErrorString ''SECRETS_SOURCE must be env or keyvault''))"

text \<open>The first error of a sequence of checks, each made only if those before it passed.\<close>

fun first_error :: "goerror option list \<Rightarrow> goerror option" where
  "first_error [] = None"
| "first_error (e # es) = (case e of Some err \<Rightarrow> Some err | None \<Rightarrow> first_error es)"

definition ValidateHTTP :: "config \<Rightarrow> goerror option" where
  "ValidateHTTP c =
     (if cfDirectClientModeErr c \<noteq> None then cfDirectClientModeErr c
      else if TrimSpace (cfHTTPAddr c) = [] then Some (ErrorString ''HTTP_ADDR is required'')
      else if TrimSpace (cfHMACSecret c) = [] then Some (ErrorString ''HOOK_HMAC_SECRET is required'')
      else if TrimSpace (cfEntraPrimaryDomain c) = [] then Some (ErrorString ''ENTRA_PRIMARY_DOMAIN is required'')
      else if Contains (cfEntraPrimaryDomain c) ''@''
      then Some (QuotedError ''ENTRA_PRIMARY_DOMAIN must be a domain, got '' (cfEntraPrimaryDomain c))
      else if Contains (cfEntraFallbackDomain c) ''@''
      then Some (QuotedError ''ENTRA_FALLBACK_DOMAIN must be a domain, got '' (cfEntraFallbackDomain c))
      else if \<not> HasPrefix (cfProblemBaseURL c) ''https://''
      then Some (ErrorString ''PROBLEM_BASE_URL must start with https://'')
      else if cfHMACClockSkew c \<le> 0 then Some (ErrorString ''HMACClockSkew must be positive'')
      else if cfNonceTTL c \<le> 0 then Some (ErrorString ''NonceTTL must be positive'')
      else if \<not> hasNonBlank (cfPortalAllowedCIDRs c) then Some (ErrorString ''PORTAL_ALLOWED_CIDRS is required'')
      else if cfDirectClientMode c \<and> hasNonBlank (cfTrustedProxyCIDRs c)
      then Some (ErrorString ''TRUSTED_PROXY_CIDRS must be empty when DIRECT_CLIENT_MODE=true'')
      else if \<not> cfDirectClientMode c \<and> \<not> hasNonBlank (cfTrustedProxyCIDRs c)
      then Some (ErrorString ''TRUSTED_PROXY_CIDRS is required when DIRECT_CLIENT_MODE=false'')
      else if cfRateLimitPerIP c \<le> 0 then Some (ErrorString ''RateLimitPerIP must be positive'')
      else if cfRateLimitWindow c \<le> 0 then Some (ErrorString ''RateLimitWindow must be positive'')
      else if cfHookMaxBodyBytes c \<le> 0 then Some (ErrorString ''HookMaxBodyBytes must be positive'')
      else first_error
        [validateCIDRs ''PORTAL_ALLOWED_CIDRS'' (cfPortalAllowedCIDRs c),
         validateCIDRs ''TRUSTED_PROXY_CIDRS'' (cfTrustedProxyCIDRs c),
         rejectUnrestrictedCIDRs ''TRUSTED_PROXY_CIDRS'' (cfTrustedProxyCIDRs c),
         rejectOverlappingCIDRs (cfTrustedProxyCIDRs c) (cfPortalAllowedCIDRs c)])"

definition validateServiceBus :: "unicode_tables \<Rightarrow> config \<Rightarrow> goerror option" where
  "validateServiceBus U c =
     (if cfPasswordMessageTTLErr c \<noteq> None then cfPasswordMessageTTLErr c
      else
        let auth =
          (if cfServiceBusAuthMode c = [] \<or> cfServiceBusAuthMode c = ServiceBusAuthConnectionString then
             if TrimSpace (cfServiceBusConnectionString c) = [] then Some (ErrorString ''SERVICEBUS_CONNECTION_STRING is required'')
             else None
           else if cfServiceBusAuthMode c = ServiceBusAuthManagedIdentity then
             let namespaceFQDN = ToLower U (TrimSpace (cfServiceBusNamespaceFQDN c)) in
             if namespaceFQDN = []
             then Some (ErrorString ''SERVICEBUS_NAMESPACE_FQDN is required when SERVICEBUS_AUTH_MODE=managed_identity'')
             else if Contains namespaceFQDN ''://'' \<or> \<not> HasSuffix namespaceFQDN ''.servicebus.windows.net''
             then Some (ErrorString ''SERVICEBUS_NAMESPACE_FQDN must be a Service Bus namespace host name'')
             else None
           else Some (ErrorString ''SERVICEBUS_AUTH_MODE must be connection_string or managed_identity''))
        in if auth \<noteq> None then auth
           else if TrimSpace (cfServiceBusQueueName c) = [] then Some (ErrorString ''SERVICEBUS_QUEUE_NAME is required'')
           else if TrimSpace (cfServiceBusDeadLetterQueueName c) = []
           then Some (ErrorString ''SERVICEBUS_DEADLETTER_QUEUE_NAME is required'')
           else if cfPasswordMessageTTL c \<le> 0 then Some (ErrorString ''PasswordMessageTTL must be positive'')
           else None)"

definition validateSyncStatus :: "(string \<Rightarrow> bool) \<Rightarrow> config \<Rightarrow> goerror option" where
  "validateSyncStatus uuid c =
     (if cfRedisPortErr c \<noteq> None then cfRedisPortErr c
      else if cfSyncStatusTerminalTTLErr c \<noteq> None then cfSyncStatusTerminalTTLErr c
      else if cfSyncStatusStore c = SyncStatusStoreMemory then None
      else if cfSyncStatusStore c = SyncStatusStoreRedis then
        if TrimSpace (cfRedisHost c) = [] then Some (ErrorString ''REDIS_HOST is required when SYNC_STATUS_STORE=redis'')
        else if Contains (cfRedisHost c) ''://'' \<or> ContainsAny (cfRedisHost c) ''/@:''
        then Some (ErrorString ''REDIS_HOST must be a host name without a scheme, path, or port'')
        else if cfRedisPort c \<le> 0 \<or> cfRedisPort c > 65535
        then Some (ErrorString ''REDIS_PORT must be between 1 and 65535 when SYNC_STATUS_STORE=redis'')
        else if TrimSpace (cfRedisKeyPrefix c) = []
        then Some (ErrorString ''REDIS_KEY_PREFIX is required when SYNC_STATUS_STORE=redis'')
        else if cfPasswordMessageTTL c < millisecond_ns
        then Some (ErrorString ''PASSWORD_MESSAGE_TTL must be at least 1ms when SYNC_STATUS_STORE=redis'')
        else if cfSyncStatusTerminalTTL c < millisecond_ns
        then Some (ErrorString ''SYNC_STATUS_TERMINAL_TTL must be at least 1ms when SYNC_STATUS_STORE=redis'')
        else if TrimSpace (cfAzureClientID c) = []
        then Some (ErrorString ''AZURE_CLIENT_ID is required when SYNC_STATUS_STORE=redis'')
        else if \<not> uuid (cfAzureClientID c)
        then Some (ErrorString ''AZURE_CLIENT_ID must be a valid UUID when SYNC_STATUS_STORE=redis'')
        else None
      else Some (ErrorString ''SYNC_STATUS_STORE must be memory or redis''))"

definition validateObservability :: "config \<Rightarrow> goerror option" where
  "validateObservability c =
     (if cfObservabilityExporter c = [] \<or> cfObservabilityExporter c = ObservabilityExporterNone then None
      else if cfObservabilityExporter c = ObservabilityExporterAzureMonitor then
        if TrimSpace (cfOTLPExporterEndpoint c) = []
        then Some (ErrorString ''OTEL_EXPORTER_OTLP_ENDPOINT is required when OBSERVABILITY_EXPORTER=azure_monitor'')
        else if TrimSpace (cfAzureMonitorMetricResourceID c) = []
        then Some (ErrorString ''AZURE_MONITOR_METRIC_RESOURCE_ID is required when OBSERVABILITY_EXPORTER=azure_monitor'')
        else if TrimSpace (cfAzureMonitorMetricRegion c) = []
        then Some (ErrorString ''AZURE_MONITOR_METRIC_REGION is required when OBSERVABILITY_EXPORTER=azure_monitor'')
        else if TrimSpace (cfAzureMonitorMetricNamespace c) = []
        then Some (ErrorString ''AZURE_MONITOR_METRIC_NAMESPACE is required when OBSERVABILITY_EXPORTER=azure_monitor'')
        else None
      else Some (ErrorString ''OBSERVABILITY_EXPORTER must be none or azure_monitor''))"

definition Validate :: "unicode_tables \<Rightarrow> (string \<Rightarrow> bool) \<Rightarrow> config \<Rightarrow> goerror option" where
  "Validate U uuid c =
     (case first_error [ValidateSecretLoadingInputs c, ValidateHTTP c, validateServiceBus U c, validateSyncStatus uuid c,
                        validateObservability c] of
        Some err \<Rightarrow> Some err
      | None \<Rightarrow>
          if TrimSpace (cfPasswordEncryptionKeyB64 c) = [] then Some (ErrorString ''PASSWORD_ENCRYPTION_KEY_B64 is required'')
          else if TrimSpace (cfPasswordEncryptionKeyID c) = [] then Some (ErrorString ''PASSWORD_ENCRYPTION_KEY_ID is required'')
          else if TrimSpace (cfGraphTenantID c) = [] then Some (ErrorString ''GRAPH_TENANT_ID is required'')
          else if TrimSpace (cfGraphClientID c) = [] then Some (ErrorString ''GRAPH_CLIENT_ID is required'')
          else if TrimSpace (cfGraphClientSecret c) = [] then Some (ErrorString ''GRAPH_CLIENT_SECRET is required'')
          else None)"

section \<open>Trusted and allowed networks are disjoint\<close>

lemma first_error_None: "first_error es = None \<longleftrightarrow> set es \<subseteq> {None}"
  by (induction es) (auto split: option.splits)

lemma drop_CIDRMask: "drop 12 (CIDRMask n 16) = CIDRMask (n - 96) 4"
  by (rule nth_equalityI) (simp_all add: CIDRMask_def)

text \<open>What a parsed block is, for its membership test: a masked address and its prefix length.\<close>

lemma parsed_network:
  assumes "ParseCIDR s = Some net"
  obtains x k where "networkNumberAndMask net = (and_bytes x (CIDRMask k (length x)), CIDRMask k (length x))"
    "and_bytes x (CIDRMask k (length x)) = (case To4 (netIP net) of Some b \<Rightarrow> b | None \<Rightarrow> netIP net)"
proof -
  obtain x k where net: "net = \<lparr>netIP = and_bytes x (CIDRMask k (length x)), netMask = CIDRMask k (length x)\<rparr>"
    using assms by (auto simp: ParseCIDR_def Let_def split: prod.splits if_splits option.splits)
  have len: "length x = 4 \<or> length x = 16"
    using ParseCIDR_length [OF assms] by (simp add: net)
  show thesis
  proof (cases "plain_ip (netIP net)")
    case True
    then have plain: "plain_ip (and_bytes x (CIDRMask k (length x)))" by (simp add: net)
    have "networkNumberAndMask net = (and_bytes x (CIDRMask k (length x)), CIDRMask k (length x))"
      unfolding net by (rule network_plain [OF plain]) simp
    moreover have "and_bytes x (CIDRMask k (length x)) = (case To4 (netIP net) of Some b \<Rightarrow> b | None \<Rightarrow> netIP net)"
      unfolding net ip_net.simps by (rule To4_plain [OF plain, symmetric])
    ultimately show thesis by (rule that)
  next
    case False
    then have "length x = 16" "take 12 (and_bytes x (CIDRMask k 16)) = v4InV6Prefix"
      using len by (auto simp: net plain_ip_def)
    moreover from this have "drop 12 (and_bytes x (CIDRMask k 16)) = and_bytes (drop 12 x) (CIDRMask (k - 96) 4)"
      by (simp add: and_bytes_def drop_map drop_zip drop_CIDRMask)
    ultimately show thesis
      by (intro that [of "drop 12 x" "k - 96"]) (simp_all add: net networkNumberAndMask_def To4_def drop_CIDRMask)
  qed
qed

lemma contained_prefix:
  assumes "networkNumberAndMask net = (and_bytes x (CIDRMask k (length x)), CIDRMask k (length x))"
  shows "net_Contains net ip \<longleftrightarrow>
    (let y = (case To4 ip of Some b \<Rightarrow> b | None \<Rightarrow> ip) in
     length y = length x \<and> take k (ip_bits y) = take k (ip_bits x))"
  using masked_prefix [of x "case To4 ip of Some b \<Rightarrow> b | None \<Rightarrow> ip" k]
  by (auto simp: net_Contains_def assms Let_def and_bytes_idem)

text \<open>Two blocks that share an address are nested: one contains the base address of the other.\<close>

lemma shared_address_nests:
  assumes "ParseCIDR s = Some m" and "ParseCIDR t = Some n" and "net_Contains m ip" and "net_Contains n ip"
  shows "net_Contains m (netIP n) \<or> net_Contains n (netIP m)"
proof -
  obtain x j where m: "networkNumberAndMask m = (and_bytes x (CIDRMask j (length x)), CIDRMask j (length x))"
    and mx: "(case To4 (netIP m) of Some b \<Rightarrow> b | None \<Rightarrow> netIP m) = and_bytes x (CIDRMask j (length x))"
    using parsed_network [OF assms(1)] by metis
  obtain y k where n: "networkNumberAndMask n = (and_bytes y (CIDRMask k (length y)), CIDRMask k (length y))"
    and ny: "(case To4 (netIP n) of Some b \<Rightarrow> b | None \<Rightarrow> netIP n) = and_bytes y (CIDRMask k (length y))"
    using parsed_network [OF assms(2)] by metis
  have own: "take i (ip_bits (and_bytes z (CIDRMask i (length z)))) = take i (ip_bits z)" for i z
    using masked_prefix [of "and_bytes z (CIDRMask i (length z))" z i] by (simp add: and_bytes_idem)
  have shorter: "take i u = take i v" if "take l u = take l v" "i \<le> l" for i l and u v :: "bool list"
    using that by (metis min.absorb1 take_take)
  obtain w where w: "length w = length x" "length w = length y"
      "take j (ip_bits w) = take j (ip_bits x)" "take k (ip_bits w) = take k (ip_bits y)"
    using assms(3,4) unfolding contained_prefix [OF m] contained_prefix [OF n] Let_def by metis
  show ?thesis
  proof (cases "j \<le> k")
    case True
    then have "take j (ip_bits (and_bytes y (CIDRMask k (length y)))) = take j (ip_bits x)"
      using shorter [OF own True] shorter [OF w(4) True] w(3) by simp
    then show ?thesis using w by (simp add: contained_prefix [OF m] ny Let_def)
  next
    case False
    then have "take k (ip_bits (and_bytes x (CIDRMask j (length x)))) = take k (ip_bits y)"
      using shorter [OF own, of k j x] shorter [OF w(3), of k] w(4) by simp
    then show ?thesis using w by (simp add: contained_prefix [OF n] mx Let_def)
  qed
qed

lemma blank_not_cidr: "ParseCIDR [] = None"
  by (simp add: ParseCIDR_def)

lemma no_overlap_with:
  "reject_overlap_with t net portal = None \<Longrightarrow> p \<in> set portal \<Longrightarrow> ParseCIDR (TrimSpace p) = Some n \<Longrightarrow>
   \<not> net_Contains net (netIP n) \<and> \<not> net_Contains n (netIP net)"
  by (induction t net portal rule: reject_overlap_with.induct)
     (auto simp: blank_not_cidr split: if_splits option.splits)

lemma no_overlap:
  "rejectOverlappingCIDRs trusted portal = None \<Longrightarrow> t \<in> set trusted \<Longrightarrow> p \<in> set portal \<Longrightarrow>
   ParseCIDR (TrimSpace t) = Some m \<Longrightarrow> ParseCIDR (TrimSpace p) = Some n \<Longrightarrow>
   \<not> net_Contains m (netIP n) \<and> \<not> net_Contains n (netIP m)"
  by (induction trusted portal rule: rejectOverlappingCIDRs.induct)
     (auto simp: blank_not_cidr dest: no_overlap_with split: if_splits option.splits)

lemma containsIP_parsed:
  "containsIP (parseCIDRs vs) ip \<longleftrightarrow> (\<exists>v \<in> set vs. \<exists>n. ParseCIDR (TrimSpace v) = Some n \<and> net_Contains n ip)"
  by (induction vs) (auto simp: parseCIDRs_def List.map_filter_def)

lemma disjoint_networks:
  assumes "rejectOverlappingCIDRs trusted portal = None" and "containsIP (parseCIDRs portal) ip"
  shows "\<not> containsIP (parseCIDRs trusted) ip"
  using assms shared_address_nests no_overlap unfolding containsIP_parsed by metis

end
