(* ===== verification/Secret_Loader.thy ===== *)
theory Secret_Loader
  imports Config
begin

text \<open>
  Package \<^verbatim>\<open>internal/secretloader\<close> (\<^verbatim>\<open>loader.go\<close>): the secrets of the configuration come from the
  environment or from Azure Key Vault. A getter answers the calls of one run: it gets the number
  of the call and the name of the secret, and gives the answer together with \<^verbatim>\<open>ctx.Err()\<close> after
  the call. The Azure SDK is the record \<open>key_vault_sdk\<close>.
\<close>

section \<open>Errors of the vault\<close>

text \<open>\<^verbatim>\<open>http.StatusText\<close>.\<close>

definition status_texts :: "(int \<times> string) list" where
  "status_texts =
     [(100, ''Continue''), (101, ''Switching Protocols''), (102, ''Processing''), (103, ''Early Hints''),
      (200, ''OK''), (201, ''Created''), (202, ''Accepted''), (203, ''Non-Authoritative Information''),
      (204, ''No Content''), (205, ''Reset Content''), (206, ''Partial Content''), (207, ''Multi-Status''),
      (208, ''Already Reported''), (226, ''IM Used''),
      (300, ''Multiple Choices''), (301, ''Moved Permanently''), (302, ''Found''), (303, ''See Other''),
      (304, ''Not Modified''), (305, ''Use Proxy''), (307, ''Temporary Redirect''), (308, ''Permanent Redirect''),
      (400, ''Bad Request''), (401, ''Unauthorized''), (402, ''Payment Required''), (403, ''Forbidden''),
      (404, ''Not Found''), (405, ''Method Not Allowed''), (406, ''Not Acceptable''),
      (407, ''Proxy Authentication Required''), (408, ''Request Timeout''), (409, ''Conflict''), (410, ''Gone''),
      (411, ''Length Required''), (412, ''Precondition Failed''), (413, ''Request Entity Too Large''),
      (414, ''Request URI Too Long''), (415, ''Unsupported Media Type''),
      (416, ''Requested Range Not Satisfiable''), (417, ''Expectation Failed''), (418, ''I'' @ [CHR 0x27] @ ''m a teapot''),
      (421, ''Misdirected Request''), (422, ''Unprocessable Entity''), (423, ''Locked''), (424, ''Failed Dependency''),
      (425, ''Too Early''), (426, ''Upgrade Required''), (428, ''Precondition Required''), (429, ''Too Many Requests''),
      (431, ''Request Header Fields Too Large''), (451, ''Unavailable For Legal Reasons''),
      (500, ''Internal Server Error''), (501, ''Not Implemented''), (502, ''Bad Gateway''), (503, ''Service Unavailable''),
      (504, ''Gateway Timeout''), (505, ''HTTP Version Not Supported''), (506, ''Variant Also Negotiates''),
      (507, ''Insufficient Storage''), (508, ''Loop Detected''), (510, ''Not Extended''),
      (511, ''Network Authentication Required'')]"

definition StatusText :: "int \<Rightarrow> string" where
  "StatusText code = (case map_of status_texts code of Some t \<Rightarrow> t | None \<Rightarrow> [])"

fun is_response_error :: "goerror \<Rightarrow> bool" where
  "is_response_error (AzureResponseError status code message) = True"
| "is_response_error _ = False"

definition sanitizeSecretError :: "goerror option \<Rightarrow> goerror option" where
  "sanitizeSecretError err =
     (case err of
        None \<Rightarrow> None
      | Some e \<Rightarrow>
          (case errors_find is_response_error e of
             Some (AzureResponseError statusCode errorCode message) \<Rightarrow>
               let statusText = StatusText statusCode;
                   statusText = (if statusText = [] then ''unknown status'' else statusText)
               in if errorCode \<noteq> []
                  then Some (ErrorString (''secret read failed: status '' @ decimal_int statusCode @ '' '' @ statusText
                                          @ '': code '' @ errorCode))
                  else Some (ErrorString (''secret read failed: status '' @ decimal_int statusCode @ '' '' @ statusText))
           | _ \<Rightarrow> Some (ErrorString (''secret read failed: '' @ error_type e))))"

section \<open>Reading secrets\<close>

type_synonym getter = "nat \<Rightarrow> string \<Rightarrow> (goerror + string) \<times> goerror option"

record key_vault_sdk =
  kvCredential :: "goerror option"
  kvNewClient :: "string \<Rightarrow> goerror option"
  kvGetSecret :: "nat \<Rightarrow> string \<Rightarrow> (goerror + string option) \<times> goerror option"

definition keyVaultGetter_GetSecret :: "key_vault_sdk \<Rightarrow> getter" where
  "keyVaultGetter_GetSecret sdk k name =
     (case kvGetSecret sdk k name of
        (Inl err, ctxErr) \<Rightarrow> (Inl err, ctxErr)
      | (Inr None, ctxErr) \<Rightarrow> (Inl (ErrorString (''Key Vault secret '' @ name @ '' has nil value'')), ctxErr)
      | (Inr (Some v), ctxErr) \<Rightarrow> (Inr v, ctxErr))"

definition NewKeyVaultGetter :: "key_vault_sdk \<Rightarrow> string \<Rightarrow> goerror + getter" where
  "NewKeyVaultGetter sdk vaultURL =
     (case kvCredential sdk of
        Some err \<Rightarrow> Inl (Wrapped ''create Azure credential: '' err)
      | None \<Rightarrow>
          (case kvNewClient sdk vaultURL of
             Some err \<Rightarrow> Inl (Wrapped ''create Key Vault secrets client: '' err)
           | None \<Rightarrow> Inr (keyVaultGetter_GetSecret sdk)))"

definition getRequiredSecret :: "getter \<Rightarrow> nat \<Rightarrow> string \<Rightarrow> goerror + string" where
  "getRequiredSecret getter k name =
     (case getter k name of
        (Inl err, Some ctxErr) \<Rightarrow> Inl ctxErr
      | (Inl err, None) \<Rightarrow> Inl (Wrapped (''load Key Vault secret '' @ name @ '': '') (the (sanitizeSecretError (Some err))))
      | (Inr v, ctxErr) \<Rightarrow>
          (let v = TrimSpace v in
           if v = [] then Inl (ErrorString (''load Key Vault secret '' @ name @ '': secret value is empty'')) else Inr v))"

definition resolveKeyVault :: "config \<Rightarrow> getter \<Rightarrow> goerror + config" where
  "resolveKeyVault cfg getter =
     (let names = cfKeyVaultSecretNames cfg in
      case getRequiredSecret getter 0 (kvHMACSecret names) of
        Inl err \<Rightarrow> Inl err
      | Inr hmacSecret \<Rightarrow>
          (case (if cfServiceBusAuthMode cfg \<noteq> ServiceBusAuthManagedIdentity then
                   (case getRequiredSecret getter 1 (kvServiceBusConnectionString names) of
                      Inl err \<Rightarrow> Inl err
                    | Inr s \<Rightarrow> Inr (cfg\<lparr>cfServiceBusConnectionString := s\<rparr>, 2))
                 else Inr (cfg, 1)) of
             Inl err \<Rightarrow> Inl err
           | Inr (cfg, k) \<Rightarrow>
               (case getRequiredSecret getter k (kvGraphClientSecret names) of
                  Inl err \<Rightarrow> Inl err
                | Inr graphClientSecret \<Rightarrow>
                    (case getRequiredSecret getter (k + 1) (kvPasswordEncryptionKey names) of
                       Inl err \<Rightarrow> Inl err
                     | Inr passwordEncryptionKey \<Rightarrow>
                         Inr (cfg\<lparr>cfHMACSecret := hmacSecret, cfGraphClientSecret := graphClientSecret,
                                  cfPasswordEncryptionKeyB64 := passwordEncryptionKey\<rparr>)))))"

definition Resolve :: "key_vault_sdk \<Rightarrow> config \<Rightarrow> getter option \<Rightarrow> goerror + config" where
  "Resolve sdk cfg getter =
     (case ValidateSecretLoadingInputs cfg of
        Some err \<Rightarrow> Inl err
      | None \<Rightarrow>
          if cfSecretsSource cfg = SecretsSourceEnv then Inr cfg
          else if cfSecretsSource cfg = SecretsSourceKeyVault then
            (case getter of
               Some g \<Rightarrow> resolveKeyVault cfg g
             | None \<Rightarrow>
                 (case NewKeyVaultGetter sdk (cfKeyVaultURL cfg) of
                    Inl err \<Rightarrow> Inl err
                  | Inr g \<Rightarrow> resolveKeyVault cfg g))
          else Inl (ErrorString ''SECRETS_SOURCE must be env or keyvault''))"

section \<open>The loaded configuration\<close>

lemma getRequiredSecret_Inr:
  "getRequiredSecret g k name = Inr v \<Longrightarrow> \<exists>raw. fst (g k name) = Inr raw \<and> v = TrimSpace raw \<and> v \<noteq> []"
  by (auto simp: getRequiredSecret_def Let_def split: prod.splits sum.splits option.splits if_splits)

text \<open>
  A configuration resolved from the vault has the trimmed secrets the vault gave, none of them
  blank, and is otherwise unchanged; the connection string is not read for a managed identity.
\<close>

lemma resolveKeyVault_Inr:
  assumes "resolveKeyVault cfg g = Inr cfg'"
  shows "\<exists>h q c e. cfg' = cfg\<lparr>cfServiceBusConnectionString := q, cfHMACSecret := h, cfGraphClientSecret := c,
           cfPasswordEncryptionKeyB64 := e\<rparr> \<and> h \<noteq> [] \<and> c \<noteq> [] \<and> e \<noteq> []
         \<and> (if cfServiceBusAuthMode cfg = ServiceBusAuthManagedIdentity then q = cfServiceBusConnectionString cfg else q \<noteq> [])"
proof -
  let ?names = "cfKeyVaultSecretNames cfg"
  let ?managed = "cfServiceBusAuthMode cfg = ServiceBusAuthManagedIdentity"
  obtain h where h: "getRequiredSecret g 0 (kvHMACSecret ?names) = Inr h"
    using assms by (auto simp: resolveKeyVault_def Let_def split: sum.splits)
  obtain q and k :: nat where q: "if ?managed then q = cfServiceBusConnectionString cfg \<and> k = 1
      else getRequiredSecret g 1 (kvServiceBusConnectionString ?names) = Inr q \<and> k = 2"
    using assms h by (cases ?managed) (auto simp: resolveKeyVault_def Let_def split: sum.splits)
  obtain c where c: "getRequiredSecret g k (kvGraphClientSecret ?names) = Inr c"
    using assms h q by (cases ?managed) (auto simp: resolveKeyVault_def Let_def split: sum.splits)
  obtain e where e: "getRequiredSecret g (k + 1) (kvPasswordEncryptionKey ?names) = Inr e"
    using assms h q c by (cases ?managed) (auto simp: resolveKeyVault_def Let_def split: sum.splits)
  have "cfg' = cfg\<lparr>cfServiceBusConnectionString := q, cfHMACSecret := h, cfGraphClientSecret := c,
      cfPasswordEncryptionKeyB64 := e\<rparr>"
    using assms h q c e by (cases ?managed) (simp_all add: resolveKeyVault_def Let_def)
  moreover have "if ?managed then q = cfServiceBusConnectionString cfg else q \<noteq> []"
    using q getRequiredSecret_Inr [of g 1 _ q] by (cases ?managed) auto
  ultimately show ?thesis
    using getRequiredSecret_Inr [OF h] getRequiredSecret_Inr [OF c] getRequiredSecret_Inr [OF e] by blast
qed

section \<open>Secrets do not reach errors\<close>

text \<open>What of an error the loader may repeat: status and code of the vault's answer, or the type.\<close>

definition public_part :: "goerror \<Rightarrow> (int \<times> string) + string" where
  "public_part e =
     (case errors_find is_response_error e of
        Some (AzureResponseError status code message) \<Rightarrow> Inl (status, code)
      | _ \<Rightarrow> Inr (error_type e))"

text \<open>
  Two answers are alike when both are a secret that is not blank, or both a blank one, or both
  an error with the same public part.
\<close>

definition alike :: "(goerror + string) \<times> goerror option \<Rightarrow> (goerror + string) \<times> goerror option \<Rightarrow> bool" where
  "alike a b \<longleftrightarrow> snd a = snd b \<and>
     (case (fst a, fst b) of
        (Inl e, Inl e') \<Rightarrow> public_part e = public_part e'
      | (Inr v, Inr v') \<Rightarrow> (TrimSpace v = []) = (TrimSpace v' = [])
      | _ \<Rightarrow> False)"

text \<open>Two results with the same error, or two configurations.\<close>

definition same_error :: "goerror + 'a \<Rightarrow> goerror + 'a \<Rightarrow> bool" where
  "same_error x y = (case (x, y) of (Inl e, Inl e') \<Rightarrow> e = e' | (Inr _, Inr _) \<Rightarrow> True | _ \<Rightarrow> False)"

lemma first_some_map: "first_some (map f xs) = Some x \<Longrightarrow> \<exists>y \<in> set xs. f y = Some x"
proof (induction xs)
  case (Cons y ys)
  then show ?case by (cases "f y") auto
qed simp

lemma errors_find_holds: "errors_find P e = Some x \<Longrightarrow> P x"
  by (induction P e rule: errors_find.induct) (auto dest: first_some_map split: if_splits)

lemmas find_response = errors_find_holds [of is_response_error]

lemma sanitize_public: "public_part e = public_part e' \<Longrightarrow> sanitizeSecretError (Some e) = sanitizeSecretError (Some e')"
  using find_response [of e] find_response [of e']
  by (auto simp: public_part_def sanitizeSecretError_def Let_def elim!: is_response_error.elims split: option.splits)

lemma getRequiredSecret_alike:
  "alike (g k name) (g' k name) \<Longrightarrow> same_error (getRequiredSecret g k name) (getRequiredSecret g' k name)"
  by (auto simp: alike_def getRequiredSecret_def same_error_def Let_def
      dest: sanitize_public split: prod.splits sum.splits option.splits)

lemma resolveKeyVault_alike:
  assumes "\<And>k name. alike (g k name) (g' k name)"
  shows "same_error (resolveKeyVault cfg g) (resolveKeyVault cfg g')"
proof -
  have "same_error (getRequiredSecret g k name) (getRequiredSecret g' k name)" for k name
    using assms by (rule getRequiredSecret_alike)
  note call = this [unfolded same_error_def]
  show ?thesis
    using call [of 0 "kvHMACSecret (cfKeyVaultSecretNames cfg)"]
      call [of 1 "kvServiceBusConnectionString (cfKeyVaultSecretNames cfg)"]
      call [of 1 "kvGraphClientSecret (cfKeyVaultSecretNames cfg)"]
      call [of 2 "kvGraphClientSecret (cfKeyVaultSecretNames cfg)"]
      call [of 2 "kvPasswordEncryptionKey (cfKeyVaultSecretNames cfg)"]
      call [of 3 "kvPasswordEncryptionKey (cfKeyVaultSecretNames cfg)"]
    by (cases "cfServiceBusAuthMode cfg = ServiceBusAuthManagedIdentity")
       (simp_all add: resolveKeyVault_def same_error_def Let_def numeral_2_eq_2 numeral_3_eq_3 split: sum.splits)
qed

text \<open>
  C35: errors of secret loading do not reveal secrets. Two vaults whose answers differ only in
  the values of the secrets and in the texts of their errors, with the same status, code and
  type, make \<^verbatim>\<open>Resolve\<close> fail with the same error, or not at all.
\<close>

theorem secret_errors_reveal_nothing:
  assumes "\<And>k name. alike (g k name) (g' k name)"
  shows "same_error (Resolve sdk cfg (Some g)) (Resolve sdk cfg (Some g'))"
  using resolveKeyVault_alike [OF assms, of cfg]
  by (simp add: Resolve_def same_error_def split: option.splits)

text \<open>A vault that leaks a secret in the text of an error.\<close>

definition sample_getter :: "string \<Rightarrow> getter" where
  "sample_getter secret k name =
     (if k = 0 then (Inr secret, None)
      else (Inl (Wrapped (''reading '' @ secret) (AzureResponseError 403 ''Forbidden'' secret)), None))"

definition sample_environment :: environment where
  "sample_environment name =
     (if name = ''SECRETS_SOURCE'' then ''keyvault'' else if name = ''KEY_VAULT_URL'' then ''https://vault'' else [])"

definition sample_vault :: key_vault_sdk where
  "sample_vault = \<lparr>kvCredential = None, kvNewClient = (\<lambda>url. None), kvGetSecret = (\<lambda>k name. (Inr None, None))\<rparr>"

theorem secret_errors_reveal_nothing_witness:
  "same_error (Resolve sample_vault (Load sample_environment) (Some (sample_getter ''one'')))
              (Resolve sample_vault (Load sample_environment) (Some (sample_getter ''two'')))
   \<and> Resolve sample_vault (Load sample_environment) (Some (sample_getter ''one''))
     = Inl (Wrapped ''load Key Vault secret servicebus-conn-str: ''
              (ErrorString ''secret read failed: status 403 Forbidden: code Forbidden''))"
proof -
  have trim: "TrimSpace ''one'' \<noteq> []" "TrimSpace ''two'' \<noteq> []" by code_simp+
  have "alike (sample_getter ''one'' k name) (sample_getter ''two'' k name)" for k name
    using trim by (simp add: alike_def sample_getter_def public_part_def)
  moreover have "Resolve sample_vault (Load sample_environment) (Some (sample_getter ''one''))
     = Inl (Wrapped ''load Key Vault secret servicebus-conn-str: ''
              (ErrorString ''secret read failed: status 403 Forbidden: code Forbidden''))"
    by code_simp
  ultimately show ?thesis
    using secret_errors_reveal_nothing [of "sample_getter ''one''" "sample_getter ''two''" sample_vault "Load sample_environment"]
    by simp
qed

end
