(* ===== verification/Logger.thy ===== *)
theory Logger
  imports Go_Utf8
begin

text \<open>
  Package \<^verbatim>\<open>pkg/logger\<close> (\<^verbatim>\<open>logger.go\<close>): a log handler that masks the values of attributes with
  sensitive keys, in groups as well. Of package \<^verbatim>\<open>log/slog\<close> the attribute values, their
  resolution and the construction of groups and records are modelled. A value that is a
  \<^verbatim>\<open>LogValuer\<close> has the value its method returns, or none when the method panics; the type
  \<open>'a\<close> holds the values of all other kinds. The wrapped handler is a record of its methods.
\<close>

section \<open>Attributes\<close>

datatype 'a slog_value =
    StringValue string
  | AnyValue 'a
  | ResolveError string
  | GroupOf "(string \<times> 'a slog_value) list"
  | LogValuer "'a slog_value option"

type_synonym 'a slog_attr = "string \<times> 'a slog_value"

definition maxLogValues :: nat where "maxLogValues = 100"

text \<open>\<^verbatim>\<open>Value.Resolve\<close>: the loop calls \<^verbatim>\<open>LogValue\<close> as long as the value is a \<^verbatim>\<open>LogValuer\<close>.\<close>

fun resolve_loop :: "nat \<Rightarrow> 'a slog_value \<Rightarrow> 'a slog_value" where
  "resolve_loop n (LogValuer (Some v)) =
     (if n = 0 then ResolveError ''LogValue called too many times'' else resolve_loop (n - 1) v)"
| "resolve_loop n (LogValuer None) =
     (if n = 0 then ResolveError ''LogValue called too many times'' else ResolveError ''LogValue panicked'')"
| "resolve_loop n v = (if n = 0 then ResolveError ''LogValue called too many times'' else v)"

definition Value_Resolve :: "'a slog_value \<Rightarrow> 'a slog_value" where
  "Value_Resolve v = resolve_loop maxLogValues v"

fun isEmptyGroup :: "'a slog_value \<Rightarrow> bool" where
  "isEmptyGroup (GroupOf as) = (as = [])"
| "isEmptyGroup _ = False"

definition GroupValue :: "'a slog_attr list \<Rightarrow> 'a slog_value" where
  "GroupValue as = GroupOf (filter (\<lambda>a. \<not> isEmptyGroup (snd a)) as)"

section \<open>Masking\<close>

definition keyNormalizer_Replace :: "string \<Rightarrow> string" where
  "keyNormalizer_Replace s = filter (\<lambda>c. c \<noteq> CHR ''_'' \<and> c \<noteq> CHR ''-'' \<and> c \<noteq> CHR ''.'') s"

definition isSensitiveKey :: "unicode_tables \<Rightarrow> string \<Rightarrow> bool" where
  "isSensitiveKey U key =
     (let normalized = keyNormalizer_Replace (ToLower U key) in
      Contains normalized ''password'' \<or> Contains normalized ''passwd'' \<or> Contains normalized ''secret''
      \<or> Contains normalized ''token'')"

lemma resolve_group_size:
  "resolve_loop n v = GroupOf as \<Longrightarrow> (k, w) \<in> set as \<Longrightarrow> size w < size v"
proof -
  have group: "(k, w) \<in> set bs \<Longrightarrow> size w < Suc (size_list (size_prod (\<lambda>x. 0) size) bs)" for bs
    by (induction bs) auto
  show "resolve_loop n v = GroupOf as \<Longrightarrow> (k, w) \<in> set as \<Longrightarrow> size w < size v"
    by (induction n v rule: resolve_loop.induct) (auto dest: group split: if_splits)
qed

function maskAttr :: "unicode_tables \<Rightarrow> 'a slog_attr \<Rightarrow> 'a slog_attr" where
  "maskAttr U (key, v) =
     (if isSensitiveKey U key then (key, StringValue ''****'')
      else case Value_Resolve v of
        GroupOf as \<Rightarrow> (key, GroupValue (map (maskAttr U) as))
      | w \<Rightarrow> (key, w))"
  by pat_completeness auto
termination
  by (relation "measure (\<lambda>(U, a). size (snd a))") (auto simp: Value_Resolve_def dest: resolve_group_size)

declare maskAttr.simps [simp del]

definition MaskAttrs :: "unicode_tables \<Rightarrow> 'a slog_attr list \<Rightarrow> 'a slog_attr list" where
  "MaskAttrs U attrs = map (maskAttr U) attrs"

section \<open>The handler\<close>

record 'a slog_record =
  srTime :: instant
  srLevel :: int
  srMessage :: string
  srPC :: nat
  srAttrs :: "'a slog_attr list"

definition NewRecord :: "instant \<Rightarrow> int \<Rightarrow> string \<Rightarrow> nat \<Rightarrow> 'a slog_record" where
  "NewRecord t level message pc = \<lparr>srTime = t, srLevel = level, srMessage = message, srPC = pc, srAttrs = []\<rparr>"

text \<open>\<^verbatim>\<open>Record.AddAttrs\<close> leaves out empty groups.\<close>

definition AddAttrs :: "'a slog_record \<Rightarrow> 'a slog_attr list \<Rightarrow> 'a slog_record" where
  "AddAttrs r as = r\<lparr>srAttrs := srAttrs r @ filter (\<lambda>a. \<not> isEmptyGroup (snd a)) as\<rparr>"

text \<open>
  The methods of a \<^verbatim>\<open>slog.Handler\<close> with values of type \<open>'h\<close>; what it wrote so far is of type \<open>'o\<close>.
\<close>

record ('h, 'a, 'o) slog_handler =
  hEnabled :: "'h \<Rightarrow> int \<Rightarrow> bool"
  hHandle :: "'h \<Rightarrow> 'a slog_record \<Rightarrow> 'o \<Rightarrow> goerror option \<times> 'o"
  hWithAttrs :: "'h \<Rightarrow> 'a slog_attr list \<Rightarrow> 'h"
  hWithGroup :: "'h \<Rightarrow> string \<Rightarrow> 'h"

definition MaskingHandler_Enabled :: "('h, 'a, 'o) slog_handler \<Rightarrow> 'h \<Rightarrow> int \<Rightarrow> bool" where
  "MaskingHandler_Enabled next h level = hEnabled next h level"

definition masked_record :: "unicode_tables \<Rightarrow> 'a slog_record \<Rightarrow> 'a slog_record" where
  "masked_record U r =
     foldl (\<lambda>masked attr. AddAttrs masked [maskAttr U attr])
       (NewRecord (srTime r) (srLevel r) (srMessage r) (srPC r)) (srAttrs r)"

definition MaskingHandler_Handle ::
  "unicode_tables \<Rightarrow> ('h, 'a, 'o) slog_handler \<Rightarrow> 'h \<Rightarrow> 'a slog_record \<Rightarrow> 'o \<Rightarrow> goerror option \<times> 'o" where
  "MaskingHandler_Handle U next h r = hHandle next h (masked_record U r)"

definition MaskingHandler_WithAttrs ::
  "unicode_tables \<Rightarrow> ('h, 'a, 'o) slog_handler \<Rightarrow> 'h \<Rightarrow> 'a slog_attr list \<Rightarrow> 'h" where
  "MaskingHandler_WithAttrs U next h attrs = hWithAttrs next h (MaskAttrs U attrs)"

definition MaskingHandler_WithGroup :: "('h, 'a, 'o) slog_handler \<Rightarrow> 'h \<Rightarrow> string \<Rightarrow> 'h" where
  "MaskingHandler_WithGroup next h name = hWithGroup next h name"

definition NewMaskingHandler :: "unicode_tables \<Rightarrow> ('h, 'a, 'o) slog_handler \<Rightarrow> ('h, 'a, 'o) slog_handler" where
  "NewMaskingHandler U next =
     \<lparr>hEnabled = MaskingHandler_Enabled next, hHandle = MaskingHandler_Handle U next,
      hWithAttrs = MaskingHandler_WithAttrs U next, hWithGroup = MaskingHandler_WithGroup next\<rparr>"

section \<open>Sensitive values do not pass\<close>

text \<open>
  Attributes that agree in everything but values under sensitive keys, at any depth of groups.
\<close>

inductive public_eq :: "unicode_tables \<Rightarrow> 'a slog_attr \<Rightarrow> 'a slog_attr \<Rightarrow> bool" for U where
  sensitive: "isSensitiveKey U key \<Longrightarrow> public_eq U (key, v) (key, w)"
| plain: "Value_Resolve v = Value_Resolve w \<Longrightarrow> public_eq U (key, v) (key, w)"
| grouped: "Value_Resolve v = GroupOf as \<Longrightarrow> Value_Resolve w = GroupOf bs \<Longrightarrow> list_all2 (public_eq U) as bs \<Longrightarrow>
    public_eq U (key, v) (key, w)"

text \<open>All values under sensitive keys are masked, at any depth, and no value is left to be computed.\<close>

function masked :: "unicode_tables \<Rightarrow> 'a slog_attr \<Rightarrow> bool" where
  "masked U (key, v) \<longleftrightarrow>
     (if isSensitiveKey U key then v = StringValue ''****''
      else case v of GroupOf as \<Rightarrow> list_all (masked U) as | LogValuer w \<Rightarrow> False | _ \<Rightarrow> True)"
  by pat_completeness auto
termination
proof (relation "measure (\<lambda>(U, a). size (snd a))", goal_cases)
  case (2 U key v as a)
  then have "size (snd a) < size (GroupOf as)"
    using resolve_group_size [of 1 "GroupOf as" as "fst a" "snd a"] by simp
  with 2 show ?case by simp
qed simp

declare masked.simps [simp del]

lemma resolved: "Value_Resolve v \<noteq> LogValuer w"
proof -
  have "resolve_loop n v \<noteq> LogValuer w" for n
    by (induction n v rule: resolve_loop.induct) simp_all
  then show ?thesis by (simp add: Value_Resolve_def)
qed

lemma maskAttr_masked: "masked U (maskAttr U a)"
proof (induction U a rule: maskAttr.induct)
  case (1 U key v)
  show ?case
  proof (cases "isSensitiveKey U key")
    case False
    with 1 show ?thesis
      using resolved [of v]
      by (cases "Value_Resolve v")
         (auto simp: maskAttr.simps [of U key] masked.simps [of U key] GroupValue_def list_all_iff)
  qed (simp add: maskAttr.simps masked.simps)
qed

lemma public_eq_masked: "public_eq U a b \<Longrightarrow> maskAttr U a = maskAttr U b"
proof (induction rule: public_eq.induct)
  case (grouped v as w bs key)
  have "map (maskAttr U) as = map (maskAttr U) bs"
    using grouped(3) by (induction rule: list_all2_induct) simp_all
  with grouped(1,2) show ?case by (simp add: maskAttr.simps)
qed (simp_all add: maskAttr.simps)

lemma masked_record_eq:
  "masked_record U r = r\<lparr>srAttrs := filter (\<lambda>a. \<not> isEmptyGroup (snd a)) (MaskAttrs U (srAttrs r))\<rparr>"
proof -
  have "foldl (\<lambda>masked attr. AddAttrs masked [maskAttr U attr]) m as
      = m\<lparr>srAttrs := srAttrs m @ filter (\<lambda>a. \<not> isEmptyGroup (snd a)) (MaskAttrs U as)\<rparr>" for as and m :: "'a slog_record"
    by (induction as arbitrary: m) (simp_all add: AddAttrs_def MaskAttrs_def)
  then show ?thesis by (simp add: masked_record_def NewRecord_def)
qed

lemma MaskAttrs_public: "list_all2 (public_eq U) as bs \<Longrightarrow> MaskAttrs U as = MaskAttrs U bs"
  unfolding MaskAttrs_def by (induction rule: list_all2_induct) (simp_all add: public_eq_masked)


definition sample_log_record :: "string \<Rightarrow> nat slog_record" where
  "sample_log_record secret =
     \<lparr>srTime = 0, srLevel = 0, srMessage = ''m'', srPC = 0,
      srAttrs = [(''user'', LogValuer (Some (GroupOf [(''New_Pass-word'', StringValue secret), (''cn'', StringValue ''x'')])))]\<rparr>"

definition collecting_handler :: "(unit, nat, nat slog_record list) slog_handler" where
  "collecting_handler =
     \<lparr>hEnabled = (\<lambda>h level. True), hHandle = (\<lambda>h r out. (None, out @ [r])), hWithAttrs = (\<lambda>h as. h),
      hWithGroup = (\<lambda>h name. h)\<rparr>"


end
