(* ===== verification/Metrics.thy ===== *)
theory Metrics
  imports Complex_Main Observability Graph_Client Go_Duration Go_Time
    "HOL-Library.AList" "HOL-Library.Char_ord" "HOL-Library.List_Lexorder" "HOL-Library.Multiset"
begin

text \<open>
  File \<^verbatim>\<open>internal/azuremonitor/metrics.go\<close>: the recorder that aggregates observations per metric
  and label set and posts them to Azure Monitor. Every method runs under the mutex, so a call
  is one step. A map is the list of its entries, with distinct keys; the order in which the code
  iterates over it is an argument. A \<^verbatim>\<open>float64\<close> is a rational number, rounded after every
  operation; the values that occur are finite. A request to the service is a value with the
  payload in it: \<^verbatim>\<open>json.Marshal\<close> cannot fail on it, as its numbers are finite.
\<close>

section \<open>Numbers\<close>

type_synonym float64 = rat

definition round64 :: "rat \<Rightarrow> float64" where
  "round64 x =
     (let (p, q) = quotient_of x; (n, d) = float64_round (nat \<bar>p\<bar>, nat q)
      in (if p < 0 then - 1 else 1) * (of_nat n / of_nat d))"

definition float64_add :: "float64 \<Rightarrow> float64 \<Rightarrow> float64" where
  "float64_add x y = round64 (x + y)"

text \<open>\<^verbatim>\<open>Duration.Seconds\<close>: quotient and remainder are truncated toward zero.\<close>

definition duration_Seconds :: "duration \<Rightarrow> float64" where
  "duration_Seconds d =
     (let s = (if d < 0 then - 1 else 1); sec = \<bar>d\<bar> div second_ns; nsec = \<bar>d\<bar> mod second_ns
      in float64_add (round64 (of_int (s * sec))) (round64 (of_int (s * nsec) / of_int second_ns)))"

section \<open>Labels\<close>

text \<open>The entries of the map that the assignments of a label list build.\<close>

definition label_map :: "labels \<Rightarrow> labels" where
  "label_map l = fold (\<lambda>(k, v). AList.update k v) l []"

definition allowed_label_names :: "string list" where
  "allowed_label_names =
     [''attempts'', ''eventType'', ''identityType'', ''kind'', ''middleware'', ''outcome'', ''queue'', ''reason'', ''status'']"

fun allowed_loop :: "labels \<Rightarrow> labels \<Rightarrow> labels" where
  "allowed_loop out [] = out"
| "allowed_loop out ((key, v) # rest) =
     (if key \<notin> set allowed_label_names then allowed_loop out rest
      else let v = TrimSpace v in
        if v = [] then allowed_loop out rest
        else let out = AList.update key v out in
          if length out = 9 then out else allowed_loop out rest)"

definition allowedLabels :: "labels \<Rightarrow> labels" where
  "allowedLabels labels = allowed_loop [] labels"

definition sortedLabelNames :: "labels \<Rightarrow> string list" where
  "sortedLabelNames labels = sort (map fst labels)"

definition label :: "labels \<Rightarrow> string \<Rightarrow> string" where
  "label labels key = (case map_of labels key of Some v \<Rightarrow> v | None \<Rightarrow> [])"

definition nul :: string where "nul = [CHR 0x00]"

definition metricKey :: "string \<Rightarrow> labels \<Rightarrow> string" where
  "metricKey name labels =
     Join (name # concat (map (\<lambda>key. [key, label labels key]) (sortedLabelNames labels))) nul"

definition copyLabels :: "labels \<Rightarrow> labels" where
  "copyLabels labels = fold (\<lambda>(k, v). AList.update k v) labels []"

section \<open>The recorder\<close>

record metric_point =
  mpName :: string
  mpLabels :: labels
  mpMin :: float64
  mpMax :: float64
  mpSum :: float64
  mpCount :: int
  mpObserved :: bool

definition zeroPoint :: metric_point where
  "zeroPoint = \<lparr>mpName = [], mpLabels = [], mpMin = 0, mpMax = 0, mpSum = 0, mpCount = 0, mpObserved = False\<rparr>"

record metric_options =
  moEndpointBaseURL :: string
  moResourceID :: string
  moRegion :: string
  moNamespace :: string
  moTokenSource :: bool

record metric_recorder =
  mrOptions :: metric_options
  mrPoints :: "(string \<times> metric_point) list"

definition NewMetricRecorder :: "metric_options \<Rightarrow> metric_recorder" where
  "NewMetricRecorder options =
     \<lparr>mrOptions = options\<lparr>moEndpointBaseURL := TrimSpace (moEndpointBaseURL options), moResourceID := TrimSpace (moResourceID options),
                         moRegion := TrimSpace (moRegion options), moNamespace := TrimSpace (moNamespace options)\<rparr>,
      mrPoints = []\<rparr>"

definition Recorder_add :: "metric_recorder \<Rightarrow> string \<Rightarrow> labels \<Rightarrow> float64 \<Rightarrow> metric_recorder" where
  "Recorder_add r name labels v =
     (let name = TrimSpace name in
      if name = [] then r
      else
        let labels = allowedLabels labels;
            key = metricKey name labels;
            point = (case map_of (mrPoints r) key of Some p \<Rightarrow> p | None \<Rightarrow> zeroPoint);
            point = (if \<not> mpObserved point
                     then zeroPoint\<lparr>mpName := name, mpLabels := copyLabels labels, mpMin := v, mpMax := v, mpObserved := True\<rparr>
                     else point);
            point = (if v < mpMin point then point\<lparr>mpMin := v\<rparr> else point);
            point = (if v > mpMax point then point\<lparr>mpMax := v\<rparr> else point);
            point = point\<lparr>mpSum := float64_add (mpSum point) v, mpCount := wrap64 (mpCount point + 1)\<rparr>
        in r\<lparr>mrPoints := AList.update key point (mrPoints r)\<rparr>)"

definition Recorder_Inc :: "metric_recorder \<Rightarrow> string \<Rightarrow> labels \<Rightarrow> metric_recorder" where
  "Recorder_Inc r name labels = Recorder_add r name labels 1"

definition Recorder_ObserveDuration :: "metric_recorder \<Rightarrow> string \<Rightarrow> duration \<Rightarrow> labels \<Rightarrow> metric_recorder" where
  "Recorder_ObserveDuration r name d labels = Recorder_add r name labels (duration_Seconds d)"

definition Recorder_SetGauge :: "metric_recorder \<Rightarrow> string \<Rightarrow> int \<Rightarrow> labels \<Rightarrow> metric_recorder" where
  "Recorder_SetGauge r name v labels = Recorder_add r name labels (round64 (of_int v))"

section \<open>Payloads\<close>

record azure_series =
  seDimValues :: "string list"
  seMin :: float64
  seMax :: float64
  seSum :: float64
  seCount :: int

record azure_payload =
  paTime :: string
  paMetric :: string
  paNamespace :: string
  paDimNames :: "string list"
  paSeries :: "azure_series list"

definition Format_RFC3339 :: "instant \<Rightarrow> string" where
  "Format_RFC3339 t = format_datetime t @ ''Z''"

definition point_series :: "string list \<Rightarrow> metric_point \<Rightarrow> azure_series" where
  "point_series dimNames p =
     \<lparr>seDimValues = map (label (mpLabels p)) dimNames, seMin = mpMin p, seMax = mpMax p, seSum = mpSum p, seCount = mpCount p\<rparr>"

definition azureMonitorPayload :: "metric_options \<Rightarrow> instant \<Rightarrow> metric_point list \<Rightarrow> azure_payload" where
  "azureMonitorPayload options now points =
     (let dimNames = sortedLabelNames (mpLabels (hd points)) in
      \<lparr>paTime = Format_RFC3339 now, paMetric = mpName (hd points), paNamespace = moNamespace options,
       paDimNames = dimNames, paSeries = map (point_series dimNames) points\<rparr>)"

definition group_key :: "metric_point \<Rightarrow> string" where
  "group_key p = mpName p @ nul @ Join (sortedLabelNames (mpLabels p)) nul"

definition point_key :: "metric_point \<Rightarrow> string" where
  "point_key p = metricKey (mpName p) (mpLabels p)"

text \<open>The groups, each in the order of its keys; \<^verbatim>\<open>Now\<close> is called once per payload.\<close>

definition point_groups :: "metric_point list \<Rightarrow> metric_point list list" where
  "point_groups points =
     map (\<lambda>key. sort_key point_key (filter (\<lambda>p. group_key p = key) points)) (sort (remdups (map group_key points)))"

definition azureMonitorPayloads :: "metric_options \<Rightarrow> (nat \<Rightarrow> instant) \<Rightarrow> metric_point list \<Rightarrow> azure_payload list" where
  "azureMonitorPayloads options now points =
     map (\<lambda>(i, group). azureMonitorPayload options (now i) group) (enumerate 0 (point_groups points))"

section \<open>Sending\<close>

record metric_request =
  mqURL :: string
  mqHeaders :: "(string \<times> string) list"
  mqPayload :: azure_payload

text \<open>What the clock, the token source and the HTTP client answer; requests are numbered.\<close>

record metric_env =
  meNow :: "nat \<Rightarrow> instant"
  meToken :: "goerror + string"
  meNewRequest :: "string \<Rightarrow> goerror option"
  meDo :: "nat \<Rightarrow> metric_request \<Rightarrow> goerror + int"

definition postPayload ::
  "metric_options \<Rightarrow> metric_env \<Rightarrow> string \<Rightarrow> nat \<Rightarrow> azure_payload \<Rightarrow> goerror option \<times> metric_request list" where
  "postPayload options me token k payload =
     (let endpoint = TrimRightChar CHR ''/'' (moEndpointBaseURL options) @ ''/'' @ PathEscape (moResourceID options) @ ''/metrics''
      in case meNewRequest me endpoint of
           Some err \<Rightarrow> (Some err, [])
         | None \<Rightarrow>
             let req = \<lparr>mqURL = endpoint,
                        mqHeaders = [(''Authorization'', ''Bearer '' @ token), (''Content-Type'', ''application/json'')],
                        mqPayload = payload\<rparr>
             in case meDo me k req of
                  Inl err \<Rightarrow> (Some (Wrapped ''send azure monitor metrics: '' err), [req])
                | Inr status \<Rightarrow>
                    if status < 200 \<or> 300 \<le> status
                    then (Some (ErrorString (''send azure monitor metrics: status '' @ decimal_int status)), [req])
                    else (None, [req]))"

fun post_all ::
  "metric_options \<Rightarrow> metric_env \<Rightarrow> string \<Rightarrow> nat \<Rightarrow> azure_payload list \<Rightarrow> goerror option \<times> metric_request list" where
  "post_all options me token k [] = (None, [])"
| "post_all options me token k (p # ps) =
     (case postPayload options me token k p of
        (Some err, sent) \<Rightarrow> (Some err, sent)
      | (None, sent) \<Rightarrow> (case post_all options me token (Suc k) ps of (e, sent') \<Rightarrow> (e, sent @ sent')))"

text \<open>The argument \<open>iter\<close> is the order of the iteration over the map of points.\<close>

definition Recorder_Flush ::
  "(metric_point list \<Rightarrow> metric_point list) \<Rightarrow> metric_env \<Rightarrow> metric_recorder
     \<Rightarrow> goerror option \<times> metric_recorder \<times> metric_request list" where
  "Recorder_Flush iter me r =
     (let points = iter (map snd (mrPoints r)); r' = r\<lparr>mrPoints := []\<rparr> in
      if points = [] then (None, r', [])
      else if \<not> moTokenSource (mrOptions r) then (Some (ErrorString ''azure monitor token source is required''), r', [])
      else case meToken me of
        Inl err \<Rightarrow> (Some (Wrapped ''get azure monitor token: '' err), r', [])
      | Inr token \<Rightarrow>
          (case post_all (mrOptions r) me token 0 (azureMonitorPayloads (mrOptions r) (meNow me) points) of
             (e, sent) \<Rightarrow> (e, r', sent)))"

definition Recorder_Close where
  "Recorder_Close iter me r = Recorder_Flush iter me r"

text \<open>\<^verbatim>\<open>credentialTokenSource.Token\<close>; the second argument is \<^verbatim>\<open>GetToken\<close> for a scope.\<close>

definition NewCredentialTokenSource :: "bool \<Rightarrow> string \<Rightarrow> bool \<times> string" where
  "NewCredentialTokenSource credential scope = (credential, TrimSpace scope)"

definition credentialTokenSource_Token :: "bool \<times> string \<Rightarrow> (string \<Rightarrow> goerror + string) \<Rightarrow> goerror + string" where
  "credentialTokenSource_Token s getToken =
     (if \<not> fst s then Inl (ErrorString ''azure credential is required'')
      else case getToken (snd s) of Inl err \<Rightarrow> Inl err | Inr token \<Rightarrow> Inr token)"

section \<open>Keys\<close>

lemma Join_split:
  "ps \<noteq> [] \<Longrightarrow> (\<And>p. p \<in> set ps \<Longrightarrow> c \<notin> set p) \<Longrightarrow> SplitChar c (Join ps [c]) = ps"
proof (induction ps "[c]" rule: Join.induct)
  case (2 s)
  then have "c \<notin> set s" by simp
  then show ?case by (induction s) auto
next
  case (3 s t ss)
  then have "c \<notin> set s" by simp
  then have "SplitChar c (s @ c # u) = s # SplitChar c u" for u
    by (induction s) (auto split: list.splits)
  with 3 show ?case by simp
qed simp

lemma Join_inj:
  assumes "Join ps [c] = Join qs [c]" and "ps \<noteq> []" and "qs \<noteq> []" and "\<And>p. p \<in> set ps \<union> set qs \<Longrightarrow> c \<notin> set p"
  shows "ps = qs"
  using assms Join_split [of ps c] Join_split [of qs c] by (metis UnI1 UnI2)

definition clean :: "string \<Rightarrow> bool" where "clean s \<longleftrightarrow> CHR 0x00 \<notin> set s"

definition clean_labels :: "labels \<Rightarrow> bool" where
  "clean_labels l \<longleftrightarrow> distinct (map fst l) \<and> (\<forall>(k, v) \<in> set l. clean k \<and> clean v)"

lemma set_sortedLabelNames [simp]: "set (sortedLabelNames l) = fst ` set l"
  by (simp add: sortedLabelNames_def)

lemma label_of: "distinct (map fst l) \<Longrightarrow> (k, v) \<in> set l \<Longrightarrow> label l k = v"
  by (simp add: label_def map_of_is_SomeI)

lemma label_map_of: "map_of l = map_of l' \<Longrightarrow> label l = label l'"
  by (simp add: fun_eq_iff label_def)

lemma sortedLabelNames_map_of:
  assumes "distinct (map fst l)" "distinct (map fst l')" "map_of l = map_of l'"
  shows "sortedLabelNames l = sortedLabelNames l'"
proof -
  have "set (map fst l) = set (map fst l')" using assms(3) by (metis dom_map_of_conv_image_fst set_map)
  then show ?thesis
    using assms(1,2) unfolding sortedLabelNames_def by (metis sorted_distinct_set_unique distinct_sort set_sort sorted_sort)
qed

lemma pairs_inj:
  "concat (map (\<lambda>k. [k, f k]) ks) = concat (map (\<lambda>k. [k, g k]) ls) \<Longrightarrow> ks = ls \<and> (\<forall>k \<in> set ks. f k = g k)"
proof (induction ks arbitrary: ls)
  case Nil
  then show ?case by (cases ls) auto
next
  case (Cons k ks)
  then show ?case by (cases ls) auto
qed

lemma map_of_labels:
  assumes "distinct (map fst l)"
  shows "map_of l k = (if k \<in> set (sortedLabelNames l) then Some (label l k) else None)"
proof (cases "k \<in> fst ` set l")
  case True
  then obtain v where "(k, v) \<in> set l" by auto
  with assms True show ?thesis by (simp add: label_def)
qed (simp add: map_of_eq_None_iff)

lemma metricKey_inj:
  assumes "clean n" "clean n'" "clean_labels l" "clean_labels l'"
  shows "metricKey n l = metricKey n' l' \<longleftrightarrow> n = n' \<and> map_of l = map_of l'"
proof
  let ?parts = "\<lambda>n l. n # concat (map (\<lambda>key. [key, label l key]) (sortedLabelNames l))"
  assume eq: "metricKey n l = metricKey n' l'"
  have clean: "CHR 0x00 \<notin> set p" if "p \<in> set (?parts m a)" "clean m" "clean_labels a" for p m a
    using that by (auto simp: clean_def clean_labels_def label_of)
  have "?parts n l = ?parts n' l'"
    using eq clean [OF _ assms(1,3)] clean [OF _ assms(2,4)] unfolding metricKey_def nul_def
    by (intro Join_inj) blast+
  then have "n = n'" and "sortedLabelNames l = sortedLabelNames l'" and "\<forall>k \<in> set (sortedLabelNames l). label l k = label l' k"
    using pairs_inj [of "label l" "sortedLabelNames l" "label l'" "sortedLabelNames l'"]
    by (simp_all del: set_sortedLabelNames)
  then show "n = n' \<and> map_of l = map_of l'"
    using assms(3,4) by (auto simp: fun_eq_iff clean_labels_def map_of_labels simp del: set_sortedLabelNames)
next
  assume "n = n' \<and> map_of l = map_of l'"
  then show "metricKey n l = metricKey n' l'"
    using assms(3,4) sortedLabelNames_map_of [of l l'] label_map_of [of l l'] by (simp add: metricKey_def clean_labels_def)
qed

lemma distinct_updates: "distinct (map fst acc) \<Longrightarrow> distinct (map fst (fold (\<lambda>(k, v). AList.update k v) l acc))"
  by (induction l arbitrary: acc) (auto simp: distinct_update split: prod.splits)

lemma copyLabels_map_of:
  assumes "distinct (map fst l)"
  shows "map_of (copyLabels l) = map_of l" and "distinct (map fst (copyLabels l))"
proof -
  have "map_of (fold (\<lambda>(k, v). AList.update k v) l acc) = map_of acc ++ map_of l" if "distinct (map fst l)" for acc and l :: labels
    using that
  proof (induction l arbitrary: acc)
    case (Cons a l)
    obtain k v where a: "a = (k, v)" by force
    then have "map_of l k = None" using Cons.prems by (simp add: map_of_eq_None_iff)
    with a Cons show ?case by (auto simp: fun_eq_iff update_conv' map_add_def split: option.splits)
  qed simp
  then show "map_of (copyLabels l) = map_of l" using assms by (simp add: copyLabels_def)
  show "distinct (map fst (copyLabels l))" unfolding copyLabels_def by (rule distinct_updates) simp
qed

lemma metricKey_copy: "distinct (map fst l) \<Longrightarrow> metricKey n (copyLabels l) = metricKey n l"
  using sortedLabelNames_map_of [of "copyLabels l" l] label_map_of [of "copyLabels l" l]
  by (simp add: metricKey_def copyLabels_map_of)

lemma allowed_loop_inv:
  "distinct (map fst out) \<Longrightarrow> fst ` set out \<subseteq> set allowed_label_names \<Longrightarrow>
   distinct (map fst (allowed_loop out l)) \<and> fst ` set (allowed_loop out l) \<subseteq> set allowed_label_names"
proof (induction out l rule: allowed_loop.induct)
  case (2 out key v rest)
  have "fst ` set (AList.update key w out) = insert key (fst ` set out)" for w
    using dom_update [of key w out] by (simp add: dom_map_of_conv_image_fst)
  with 2 show ?case by (auto simp: Let_def distinct_update)
qed simp

lemma allowedLabels_inv:
  "distinct (map fst (allowedLabels l))" "fst ` set (allowedLabels l) \<subseteq> set allowed_label_names"
  using allowed_loop_inv [of "[]" l] by (simp_all add: allowedLabels_def)

section \<open>Aggregation\<close>

text \<open>A call of the recorder, and what it contributes: name, labels and value.\<close>

fun record_obs :: "metric_recorder \<Rightarrow> obs \<Rightarrow> metric_recorder" where
  "record_obs r (Inc name l) = Recorder_Inc r name (label_map l)"
| "record_obs r (ObserveDuration name d l) = Recorder_ObserveDuration r name d (label_map l)"
| "record_obs r (SetGauge name v l) = Recorder_SetGauge r name v (label_map l)"
| "record_obs r (LogAttrs action attrs) = r"

type_synonym contribution = "string \<times> labels \<times> float64"

definition contribution :: "string \<Rightarrow> labels \<Rightarrow> float64 \<Rightarrow> contribution list" where
  "contribution name l v = (if TrimSpace name = [] then [] else [(TrimSpace name, allowedLabels (label_map l), v)])"

fun contributes :: "obs \<Rightarrow> contribution list" where
  "contributes (Inc name l) = contribution name l 1"
| "contributes (ObserveDuration name d l) = contribution name l (duration_Seconds d)"
| "contributes (SetGauge name v l) = contribution name l (round64 (of_int v))"
| "contributes (LogAttrs action attrs) = []"

definition contributions :: "obs list \<Rightarrow> contribution list" where
  "contributions os = concat (map contributes os)"

text \<open>The point that stands for some contributions: the reference for the running aggregation.\<close>

definition summary :: "string \<Rightarrow> labels \<Rightarrow> float64 list \<Rightarrow> metric_point" where
  "summary name l vs =
     \<lparr>mpName = name, mpLabels = copyLabels l, mpMin = Min (set vs), mpMax = Max (set vs), mpSum = foldl float64_add 0 vs,
      mpCount = int (length vs), mpObserved = True\<rparr>"

definition contribution_key :: "contribution \<Rightarrow> string" where
  "contribution_key c = metricKey (fst c) (fst (snd c))"

definition add_contribution :: "metric_recorder \<Rightarrow> contribution \<Rightarrow> metric_recorder" where
  "add_contribution r c =
     (let point = (case map_of (mrPoints r) (contribution_key c) of Some p \<Rightarrow> p | None \<Rightarrow> zeroPoint); v = snd (snd c);
          point = (if mpObserved point then point
                   else zeroPoint\<lparr>mpName := fst c, mpLabels := copyLabels (fst (snd c)), mpMin := v, mpMax := v, mpObserved := True\<rparr>);
          point = point\<lparr>mpMin := min v (mpMin point), mpMax := max v (mpMax point), mpSum := float64_add (mpSum point) v,
                        mpCount := wrap64 (mpCount point + 1)\<rparr>
      in r\<lparr>mrPoints := AList.update (contribution_key c) point (mrPoints r)\<rparr>)"

lemma Recorder_add_contribution:
  "Recorder_add r name (label_map l) v = foldl add_contribution r (contribution name l v)"
  by (auto simp: Recorder_add_def add_contribution_def contribution_def contribution_key_def Let_def min_def max_def
      intro!: arg_cong [of _ _ "\<lambda>p. r\<lparr>mrPoints := AList.update _ p _\<rparr>"])

lemma record_obs_contributes: "record_obs r ob = foldl add_contribution r (contributes ob)"
  by (cases ob) (simp_all add: Recorder_Inc_def Recorder_ObserveDuration_def Recorder_SetGauge_def Recorder_add_contribution)

lemma record_all: "foldl record_obs r os = foldl add_contribution r (contributions os)"
  by (induction os arbitrary: r) (simp_all add: contributions_def record_obs_contributes)

definition matching :: "contribution list \<Rightarrow> string \<Rightarrow> contribution list" where
  "matching cs key = filter (\<lambda>c. contribution_key c = key) cs"

text \<open>What the recorder holds under a key: the summary of what was contributed under that key.\<close>

definition aggregated :: "contribution list \<Rightarrow> string \<Rightarrow> metric_point option" where
  "aggregated cs key =
     (case matching cs key of
        [] \<Rightarrow> None
      | c # _ \<Rightarrow> Some (summary (fst c) (fst (snd c)) (map (\<lambda>c. snd (snd c)) (matching cs key))))"

lemma summary_snoc:
  assumes "vs \<noteq> []" and "int (length vs) + 1 < 2 ^ 63"
  shows "summary n l (vs @ [v]) = (summary n l vs)\<lparr>mpMin := min v (mpMin (summary n l vs)), mpMax := max v (mpMax (summary n l vs)),
    mpSum := float64_add (mpSum (summary n l vs)) v, mpCount := wrap64 (mpCount (summary n l vs) + 1)\<rparr>"
  using assms by (simp add: summary_def wrap64_def)

lemma points_aggregated:
  "int (length cs) < 2 ^ 63 \<Longrightarrow> mrPoints r = [] \<Longrightarrow> map_of (mrPoints (foldl add_contribution r cs)) = aggregated cs"
proof (induction cs rule: rev_induct)
  case Nil
  then show ?case by (simp add: fun_eq_iff aggregated_def matching_def)
next
  case (snoc c cs)
  let ?r = "foldl add_contribution r cs" and ?k = "contribution_key c"
  have IH: "map_of (mrPoints ?r) = aggregated cs" using snoc by simp
  have len: "int (length (map (\<lambda>c. snd (snd c)) (matching cs ?k))) + 1 < 2 ^ 63"
    using snoc.prems(1) by (simp add: matching_def) (meson le_less_trans length_filter_le)
  have "key \<noteq> ?k \<Longrightarrow> matching (cs @ [c]) key = matching cs key" for key by (simp add: matching_def)
  then have other: "key \<noteq> ?k \<Longrightarrow> aggregated (cs @ [c]) key = aggregated cs key" for key
    by (simp add: aggregated_def split: list.split)
  have snoc_k: "matching (cs @ [c]) ?k = matching cs ?k @ [c]" by (simp add: matching_def)
  have "map_of (mrPoints (add_contribution ?r c)) ?k = aggregated (cs @ [c]) ?k"
  proof (cases "matching cs ?k")
    case Nil
    then show ?thesis
      by (simp add: add_contribution_def IH aggregated_def snoc_k Let_def update_conv' zeroPoint_def summary_def wrap64_def)
  next
    case (Cons d ds)
    let ?s = "summary (fst d) (fst (snd d)) (map (\<lambda>c. snd (snd c)) (matching cs ?k))"
    have "aggregated cs ?k = Some ?s" using Cons by (simp add: aggregated_def)
    moreover have "mpObserved ?s" by (simp add: summary_def)
    moreover have "aggregated (cs @ [c]) ?k
        = Some (summary (fst d) (fst (snd d)) (map (\<lambda>c. snd (snd c)) (matching cs ?k) @ [snd (snd c)]))"
      using Cons by (simp add: aggregated_def snoc_k)
    ultimately show ?thesis
      using Cons summary_snoc [OF _ len, of "fst d" "fst (snd d)" "snd (snd c)"]
      by (simp add: add_contribution_def IH Let_def update_conv')
  qed
  moreover have "key \<noteq> ?k \<Longrightarrow> map_of (mrPoints (add_contribution ?r c)) key = aggregated (cs @ [c]) key" for key
    by (simp add: add_contribution_def IH Let_def update_conv' other)
  ultimately have "map_of (mrPoints (add_contribution ?r c)) key = aggregated (cs @ [c]) key" for key
    by (cases "key = ?k") simp_all
  then show ?case by (simp add: fun_eq_iff)
qed

text \<open>
  C32: the running aggregation is right. After any sequence of calls, the recorder holds for
  a metric and a label set exactly the summary of the calls made for them, in number, sum,
  least and greatest value, provided names and labels have no NUL byte, which separates the
  parts of the key.
\<close>

theorem metrics_aggregate:
  assumes "\<forall>(n', l', v') \<in> set (contributions os). clean n' \<and> clean_labels l'"
    and "clean n" and "clean_labels l" and "int (length (contributions os)) < 2 ^ 63"
  shows "map_of (mrPoints (foldl record_obs (NewMetricRecorder options) os)) (metricKey n l)
       = (case filter (\<lambda>(n', l', v). n' = n \<and> map_of l' = map_of l) (contributions os) of
            [] \<Rightarrow> None
          | c # cs \<Rightarrow> Some (summary (fst c) (fst (snd c)) (map (\<lambda>c. snd (snd c)) (c # cs))))"
proof -
  have "contribution_key c = metricKey n l \<longleftrightarrow> (case c of (n', l', v) \<Rightarrow> n' = n \<and> map_of l' = map_of l)"
    if "c \<in> set (contributions os)" for c
    using assms(1) that metricKey_inj [OF _ assms(2) _ assms(3)] by (auto simp: contribution_key_def)
  then have "matching (contributions os) (metricKey n l)
      = filter (\<lambda>(n', l', v). n' = n \<and> map_of l' = map_of l) (contributions os)"
    unfolding matching_def by (intro filter_cong) auto
  then show ?thesis
    using points_aggregated [OF assms(4), of "NewMetricRecorder options"]
    by (simp add: record_all NewMetricRecorder_def aggregated_def split: list.split)
qed

definition sample_observations :: "obs list" where
  "sample_observations =
     [Inc ''c'' [(''kind'', ''a'')], Inc ''c'' [(''kind'', '' a ''), (''upn'', ''a@b'')], Inc ''c'' [(''kind'', ''b'')]]"

definition sample_metric_options :: metric_options where
  "sample_metric_options = \<lparr>moEndpointBaseURL = ''https://m/'', moResourceID = ''/r'', moRegion = ''r'', moNamespace = ''n'',
     moTokenSource = True\<rparr>"

lemma sample_contributions:
  "contributions sample_observations =
     [(''c'', [(''kind'', ''a'')], 1), (''c'', [(''kind'', ''a'')], 1), (''c'', [(''kind'', ''b'')], 1)]"
  by code_simp

theorem metrics_aggregate_witness:
  "map_of (mrPoints (foldl record_obs (NewMetricRecorder sample_metric_options) sample_observations))
     (metricKey ''c'' [(''kind'', ''a'')])
   = Some \<lparr>mpName = ''c'', mpLabels = [(''kind'', ''a'')], mpMin = 1, mpMax = 1, mpSum = float64_add (float64_add 0 1) 1,
           mpCount = 2, mpObserved = True\<rparr>"
proof -
  have "map_of [(''kind'', ''b'')] \<noteq> map_of [(''kind'', ''a'')]" by (simp add: fun_eq_iff)
  then show ?thesis
    using metrics_aggregate [of sample_observations "''c''" "[(''kind'', ''a'')]" sample_metric_options]
    by (simp add: sample_contributions clean_def clean_labels_def summary_def copyLabels_def)
qed

section \<open>Flushing\<close>

lemma sum_matching:
  "finite K \<Longrightarrow> contribution_key ` set cs \<subseteq> K \<Longrightarrow> (\<Sum>k \<in> K. length (matching cs k)) = length cs"
proof (induction cs)
  case (Cons c cs)
  have "length (matching (c # cs) k) = (if contribution_key c = k then 1 else 0) + length (matching cs k)" for k
    by (simp add: matching_def)
  with Cons show ?case by (simp add: sum.distrib)
qed (simp add: matching_def)

lemma contributed_labels: "(n, l, v) \<in> set (contributions os) \<Longrightarrow> \<exists>l'. l = allowedLabels l'"
proof -
  have "(n, l, v) \<in> set (contributes ob) \<Longrightarrow> \<exists>l'. l = allowedLabels l'" for ob
    by (cases ob) (auto simp: contribution_def split: if_splits)
  then show "(n, l, v) \<in> set (contributions os) \<Longrightarrow> \<exists>l'. l = allowedLabels l'" by (auto simp: contributions_def)
qed

lemma distinct_points: "distinct (map fst (mrPoints r)) \<Longrightarrow> distinct (map fst (mrPoints (foldl add_contribution r cs)))"
  by (induction cs arbitrary: r) (simp_all add: add_contribution_def Let_def distinct_update)

text \<open>The points of a recorder after a sequence of calls.\<close>

definition good_points :: "contribution list \<Rightarrow> (string \<times> metric_point) list \<Rightarrow> bool" where
  "good_points cs ps \<longleftrightarrow> distinct (map fst ps)
     \<and> (\<forall>(k, p) \<in> set ps. point_key p = k \<and> fst ` set (mpLabels p) \<subseteq> set allowed_label_names)
     \<and> (\<Sum>(k, p) \<leftarrow> ps. mpCount p) = int (length cs)"

lemma recorded_points:
  assumes "int (length (contributions os)) < 2 ^ 63"
  shows "good_points (contributions os) (mrPoints (foldl record_obs (NewMetricRecorder options) os))"
proof -
  let ?cs = "contributions os" and ?ps = "mrPoints (foldl record_obs (NewMetricRecorder options) os)"
  have start: "mrPoints (NewMetricRecorder options) = []" by (simp add: NewMetricRecorder_def)
  have distinct: "distinct (map fst ?ps)" by (simp add: record_all distinct_points start)
  have map_of: "map_of ?ps = aggregated ?cs" using points_aggregated [OF assms start] by (simp add: record_all)
  have point: "\<exists>c \<in> set ?cs. contribution_key c = k \<and> mpName p = fst c \<and> mpLabels p = copyLabels (fst (snd c))
      \<and> mpCount p = int (length (matching ?cs k))" if "(k, p) \<in> set ?ps" for k p
  proof -
    have "aggregated ?cs k = Some p" using that distinct map_of by (metis map_of_is_SomeI)
    then obtain c ds where m: "matching ?cs k = c # ds" and p: "p = summary (fst c) (fst (snd c)) (map (\<lambda>c. snd (snd c)) (matching ?cs k))"
      by (auto simp: aggregated_def split: list.splits)
    then have "c \<in> set (matching ?cs k)" by simp
    then have "c \<in> set ?cs \<and> contribution_key c = k" by (simp add: matching_def)
    with p show ?thesis by (auto simp: summary_def)
  qed
  have keys: "point_key p = k \<and> fst ` set (mpLabels p) \<subseteq> set allowed_label_names" if kp: "(k, p) \<in> set ?ps" for k p
  proof -
    obtain n l v where c: "(n, l, v) \<in> set ?cs" "metricKey n l = k" "mpName p = n" "mpLabels p = copyLabels l"
      using point [OF kp] by (auto simp: contribution_key_def)
    obtain l' where "l = allowedLabels l'" using contributed_labels [OF c(1)] by auto
    then have l: "distinct (map fst l)" "fst ` set l \<subseteq> set allowed_label_names" using allowedLabels_inv by auto
    have "fst ` set (copyLabels l) = fst ` set l" using copyLabels_map_of(1) [OF l(1)] by (metis dom_map_of_conv_image_fst)
    with c l show ?thesis by (simp add: point_key_def metricKey_copy)
  qed
  have "(\<Sum>(k, p) \<leftarrow> ?ps. mpCount p) = (\<Sum>(k, p) \<leftarrow> ?ps. int (length (matching ?cs k)))"
    using point by (intro arg_cong [of _ _ sum_list] map_cong) auto
  also have "\<dots> = (\<Sum>k \<leftarrow> map fst ?ps. int (length (matching ?cs k)))" by (simp add: comp_def case_prod_beta')
  also have "\<dots> = (\<Sum>k \<in> set (map fst ?ps). int (length (matching ?cs k)))" using distinct by (rule sum_list_distinct_conv_sum_set)
  also have "\<dots> = int (length ?cs)"
  proof -
    have "aggregated ?cs (contribution_key c) \<noteq> None" if "c \<in> set ?cs" for c
      using that by (auto simp: aggregated_def matching_def filter_empty_conv split: list.splits)
    then have "contribution_key ` set ?cs \<subseteq> set (map fst ?ps)"
      unfolding map_of [symmetric] by (auto simp: map_of_eq_None_iff)
    then show ?thesis using sum_matching [of "set (map fst ?ps)" ?cs] by (simp flip: of_nat_sum)
  qed
  finally show ?thesis using distinct keys by (auto simp: good_points_def)
qed

lemma mset_groups: "mset (concat (point_groups ps)) = mset ps"
proof -
  have "mset (concat (map (\<lambda>k. sort_key point_key (filter (\<lambda>p. group_key p = k) ps)) ks))
      = filter_mset (\<lambda>p. group_key p \<in> set ks) (mset ps)" if "distinct ks" for ks
    using that
  proof (induction ks)
    case (Cons k ks)
    then have k: "k \<notin> set ks" by simp
    have "filter_mset (\<lambda>p. group_key p = k \<or> group_key p \<in> set ks) (mset ps)
        = filter_mset (\<lambda>p. group_key p = k) (mset ps) + filter_mset (\<lambda>p. group_key p \<in> set ks) (mset ps)"
      using k by (induction ps) auto
    with Cons show ?case by simp
  qed simp
  from this [of "sort (remdups (map group_key ps))"]
  have "mset (concat (point_groups ps)) = filter_mset (\<lambda>p. group_key p \<in> group_key ` set ps) (mset ps)"
    by (simp add: point_groups_def del: mset_concat)
  also have "\<dots> = filter_mset (\<lambda>p. True) (mset ps)" by (rule filter_mset_cong) auto
  finally show ?thesis by simp
qed

lemma point_groups_order:
  assumes "mset ps = mset qs" and "inj_on point_key (set ps)"
  shows "point_groups ps = point_groups qs"
proof -
  have sets: "set ps = set qs" using assms(1) by (metis set_mset_mset)
  then have "sort (remdups (map group_key ps)) = sort (remdups (map group_key qs))"
    by (simp flip: sorted_list_of_set_sort_remdups)
  moreover have "sort_key point_key (filter P ps) = sort_key point_key (filter P qs)" for P
    using assms by (intro sort_key_eq_sort_key) (auto simp: inj_on_def)
  ultimately show ?thesis by (simp add: point_groups_def)
qed

lemma posted:
  "post_all options me token k ps = (None, sent) \<Longrightarrow> map mqPayload sent = ps"
  by (induction options me token k ps arbitrary: sent rule: post_all.induct)
     (auto simp: postPayload_def Let_def split: prod.splits option.splits sum.splits if_splits)

lemma payload_counts:
  "(\<Sum>p \<leftarrow> azureMonitorPayloads options now ps. \<Sum>s \<leftarrow> paSeries p. seCount s) = (\<Sum>p \<leftarrow> ps. mpCount p)"
proof -
  have "(\<Sum>p \<leftarrow> map (\<lambda>(i, group). azureMonitorPayload options (now i) group) (enumerate k gs). \<Sum>s \<leftarrow> paSeries p. seCount s)
      = (\<Sum>p \<leftarrow> concat gs. mpCount p)" for k gs
    by (induction gs arbitrary: k)
       (simp_all add: azureMonitorPayload_def Let_def point_series_def comp_def)
  moreover have "(\<Sum>p \<leftarrow> concat (point_groups ps). mpCount p) = (\<Sum>p \<leftarrow> ps. mpCount p)"
    using mset_groups [of ps] by (metis mset_map sum_mset_sum_list)
  ultimately show ?thesis by (simp add: azureMonitorPayloads_def)
qed

lemma payload_dims:
  assumes "\<And>p. p \<in> set ps \<Longrightarrow> fst ` set (mpLabels p) \<subseteq> A" and "q \<in> set (azureMonitorPayloads options now ps)"
  shows "set (paDimNames q) \<subseteq> A"
proof -
  obtain i g where g: "(i, g) \<in> set (enumerate 0 (point_groups ps))" "q = azureMonitorPayload options (now i) g"
    using assms(2) by (auto simp: azureMonitorPayloads_def)
  then have "g \<in> set (point_groups ps)" by (auto simp: enumerate_eq_zip dest: set_zip_rightD)
  then obtain key where key: "key \<in> group_key ` set ps" "g = sort_key point_key (filter (\<lambda>p. group_key p = key) ps)"
    by (auto simp: point_groups_def)
  then have "set g = {p \<in> set ps. group_key p = key}" "set g \<noteq> {}" by auto
  then have "hd g \<in> set ps" by (metis (no_types, lifting) hd_in_set mem_Collect_eq set_empty)
  then show ?thesis using assms(1) [of "hd g"] by (simp add: g(2) azureMonitorPayload_def Let_def)
qed


definition sample_metric_env :: metric_env where
  "sample_metric_env = \<lparr>meNow = (\<lambda>i. 0), meToken = Inr ''t'', meNewRequest = (\<lambda>url. None), meDo = (\<lambda>k req. Inr 200)\<rparr>"

lemma record_obs_options: "mrOptions (foldl record_obs r os) = mrOptions r"
proof -
  have "mrOptions (foldl add_contribution r cs) = mrOptions r" for r cs
    by (induction cs arbitrary: r) (simp_all add: add_contribution_def Let_def)
  then show ?thesis by (simp add: record_all)
qed

lemma sample_flush_succeeds: "fst (Recorder_Flush iter sample_metric_env (foldl record_obs (NewMetricRecorder sample_metric_options) os)) = None"
proof -
  have "fst (post_all options sample_metric_env token k ps) = None" for options token k ps
    by (induction options sample_metric_env token k ps rule: post_all.induct)
       (auto simp: postPayload_def sample_metric_env_def split: prod.splits)
  moreover have "moTokenSource (mrOptions (foldl record_obs (NewMetricRecorder sample_metric_options) os))"
    by (simp add: record_obs_options NewMetricRecorder_def sample_metric_options_def)
  moreover have "meToken sample_metric_env = Inr ''t''" by (simp add: sample_metric_env_def)
  ultimately show ?thesis by (simp add: Recorder_Flush_def Let_def split: prod.splits) (metis fst_conv)
qed


end
