(* ===== verification/Server.thy ===== *)
theory Server
  imports Http Graph_Client
begin

text \<open>
  Packages \<^verbatim>\<open>internal/httpserver\<close> (\<^verbatim>\<open>server.go\<close>) and \<^verbatim>\<open>internal/buildinfo\<close>: the routes, and the
  life of the server. Of \<^verbatim>\<open>http.ServeMux\<close> the matching of methods and paths, the cleaning of
  paths and the answers for unknown paths and methods are modelled, for patterns without
  wildcards. The escaped path of the request is an argument of the handler. The status of the
  redirect to a cleaned path, which differs between releases of Go, is an argument too, and so
  is the text of its target, which contains the query.
\<close>

section \<open>Build information\<close>

record build_info =
  biVersion :: string
  biCommit :: string
  biBuildTime :: string

text \<open>The three variables are set by the linker.\<close>

definition Current :: "string \<Rightarrow> string \<Rightarrow> string \<Rightarrow> build_info" where
  "Current version commit buildTime = \<lparr>biVersion = version, biCommit = commit, biBuildTime = buildTime\<rparr>"

section \<open>Paths\<close>

text \<open>\<^verbatim>\<open>path.Clean\<close> of a rooted path: the elements that are left.\<close>

fun clean_elements :: "string list \<Rightarrow> string list \<Rightarrow> string list" where
  "clean_elements acc [] = rev acc"
| "clean_elements acc (e # es) =
     (if e = [] \<or> e = ''.'' then clean_elements acc es
      else if e = ''..'' then clean_elements (tl acc) es
      else clean_elements (e # acc) es)"

definition path_Clean :: "string \<Rightarrow> string" where
  "path_Clean p = ''/'' @ Join (clean_elements [] (SplitChar CHR ''/'' (tl p))) ''/''"

definition cleanPath :: "string \<Rightarrow> string" where
  "cleanPath p =
     (if p = [] then ''/''
      else
        let p = (if hd p \<noteq> CHR ''/'' then CHR ''/'' # p else p); np = path_Clean p
        in if last p = CHR ''/'' \<and> np \<noteq> ''/'' then np @ ''/'' else np)"

definition pathUnescape :: "string \<Rightarrow> string" where
  "pathUnescape s = (case PathUnescape s of Some u \<Rightarrow> u | None \<Rightarrow> s)"

definition path_segments :: "string \<Rightarrow> string list" where
  "path_segments p = map pathUnescape (SplitChar CHR ''/'' (tl p))"

section \<open>Routes\<close>

datatype route = RouteHealth | RouteVersion | RouteHook

definition hook_segments :: "string list" where
  "hook_segments = [''api'', ''v1'', ''hook'', ''password'']"

text \<open>The registered patterns: method, path and handler.\<close>

definition mux_patterns :: "bool \<Rightarrow> (string \<times> string list \<times> route) list" where
  "mux_patterns hook =
     [(''GET'', [''healthz''], RouteHealth), (''GET'', [''version''], RouteVersion)]
     @ (if hook then [(''POST'', hook_segments, RouteHook)] else [])"

definition method_matches :: "string \<Rightarrow> string \<Rightarrow> bool" where
  "method_matches pattern method \<longleftrightarrow> method = pattern \<or> pattern = ''GET'' \<and> method = ''HEAD''"

definition mux_find :: "bool \<Rightarrow> string \<Rightarrow> string list \<Rightarrow> route option" where
  "mux_find hook method segments =
     map_option (\<lambda>(m, s, route). route)
       (find (\<lambda>(m, s, route). method_matches m method \<and> s = segments) (mux_patterns hook))"

definition matchingMethods :: "bool \<Rightarrow> string list \<Rightarrow> string list" where
  "matchingMethods hook segments =
     concat (map (\<lambda>(m, s, route). if s = segments then (if m = ''GET'' then [''GET'', ''HEAD''] else [m]) else [])
       (mux_patterns hook))"

text \<open>\<^verbatim>\<open>http.Error\<close>: the text is followed by a newline.\<close>

definition http_Error :: "string \<Rightarrow> int \<Rightarrow> rw list" where
  "http_Error message code =
     [SetHeader ''Content-Type'' ''text/plain; charset=utf-8'', SetHeader ''X-Content-Type-Options'' ''nosniff'',
      WriteHeader code, WriteText (message @ [CHR 0x0A])]"

definition html_escape :: "string \<Rightarrow> string" where
  "html_escape s = concat (map (\<lambda>c.
     if c = CHR ''&'' then ''&amp;'' else if c = CHR ''<'' then ''&lt;'' else if c = CHR ''>'' then ''&gt;''
     else if c = CHR 0x22 then ''&#34;'' else if c = CHR 0x27 then ''&#39;'' else [c]) s)"

definition http_Redirect :: "string \<Rightarrow> int \<Rightarrow> string \<Rightarrow> string \<Rightarrow> rw list" where
  "http_Redirect method code statusText target =
     [SetHeader ''Location'' target]
     @ (if method = ''GET'' \<or> method = ''HEAD'' then [SetHeader ''Content-Type'' ''text/html; charset=utf-8''] else [])
     @ [WriteHeader code]
     @ (if method = ''GET''
        then [WriteText (''<a href='' @ [CHR 0x22] @ html_escape target @ [CHR 0x22] @ ''>'' @ statusText @ ''</a>.''
                         @ [CHR 0x0A, CHR 0x0A])]
        else [])"

text \<open>A reply that only writes.\<close>

definition answer :: "rw list \<Rightarrow> 's \<Rightarrow> 's reply" where
  "answer ws s = \<lparr>rpResult = Returned (), rpWrites = ws, rpObs = [], rpBuffers = [], rpState = s\<rparr>"

definition serve_health :: "'s handler" where
  "serve_health env r s =
     answer [SetHeader ''Content-Type'' ''application/json'', WriteBody [(''status'', JString ''ok'')]] s"

definition serve_version :: "build_info \<Rightarrow> 's handler" where
  "serve_version info env r s =
     answer [SetHeader ''Content-Type'' ''application/json'',
             WriteBody [(''version'', JString (biVersion info)), (''commit'', JString (biCommit info)),
                        (''buildTime'', JString (biBuildTime info))]] s"

definition route_handler :: "'s handler option \<Rightarrow> build_info \<Rightarrow> route \<Rightarrow> 's handler" where
  "route_handler hook info route =
     (case route of RouteHealth \<Rightarrow> serve_health | RouteVersion \<Rightarrow> serve_version info | RouteHook \<Rightarrow> the hook)"

record mux_env =
  muRedirectStatus :: int
  muRedirectText :: string
  muTarget :: "string \<Rightarrow> string"

definition NewMux :: "'s handler option \<Rightarrow> build_info \<Rightarrow> mux_env \<Rightarrow> string \<Rightarrow> 's handler" where
  "NewMux hook info mu escapedPath env r s =
     (if escapedPath = ''*'' then answer [SetHeader ''Connection'' ''close'', WriteHeader 400] s
      else
        let path = (if rqMethod r = ''CONNECT'' then escapedPath else cleanPath escapedPath);
            segments = path_segments path
        in if path \<noteq> escapedPath
           then answer (http_Redirect (rqMethod r) (muRedirectStatus mu) (muRedirectText mu) (muTarget mu path)) s
           else case mux_find (hook \<noteq> None) (rqMethod r) segments of
             Some route \<Rightarrow> route_handler hook info route env r s
           | None \<Rightarrow>
               (case matchingMethods (hook \<noteq> None) segments of
                  [] \<Rightarrow> answer (http_Error ''404 page not found'' 404) s
                | methods \<Rightarrow> answer (SetHeader ''Allow'' (Join methods '', '') # http_Error ''Method Not Allowed'' 405) s))"

section \<open>The server\<close>

record 's server =
  svAddr :: string
  svHandler :: "mux_env \<Rightarrow> string \<Rightarrow> 's handler"
  svReadHeaderTimeout :: duration

definition NewServer :: "string \<Rightarrow> 's handler option \<Rightarrow> build_info \<Rightarrow> 's server" where
  "NewServer addr hook info =
     \<lparr>svAddr = addr, svHandler = NewMux hook info, svReadHeaderTimeout = 10 * second_ns\<rparr>"

definition Server_ServeHTTP :: "'s server \<Rightarrow> mux_env \<Rightarrow> string \<Rightarrow> 's handler" where
  "Server_ServeHTTP sv = svHandler sv"

text \<open>
  \<^verbatim>\<open>Run\<close>. What \<^verbatim>\<open>ListenAndServe\<close> and \<^verbatim>\<open>Shutdown\<close> return are arguments, and so is the branch of
  the \<^verbatim>\<open>select\<close>: whether the context was done first. The sentinel \<^verbatim>\<open>http.ErrServerClosed\<close> has a
  type of its own in the model, so that no other error equals it.
\<close>

definition ErrServerClosed :: goerror where
  "ErrServerClosed = ForeignError ''*http.ErrServerClosed'' ''http: Server closed''"

definition Server_Run :: "bool \<Rightarrow> goerror option \<Rightarrow> goerror option \<Rightarrow> goerror option" where
  "Server_Run ctxDone listenErr shutdownErr =
     (let served = (case listenErr of Some e \<Rightarrow> if errors_Is e ErrServerClosed then None else Some e | None \<Rightarrow> None) in
      if ctxDone then (if shutdownErr \<noteq> None then shutdownErr else served)
      else served)"

section \<open>Who reaches the hook\<close>

definition reaches_hook :: "string \<Rightarrow> string \<Rightarrow> bool" where
  "reaches_hook method escapedPath \<longleftrightarrow>
     method = ''POST'' \<and> cleanPath escapedPath = escapedPath \<and> path_segments escapedPath = hook_segments"

lemma answer_simps [simp]:
  "rpResult (answer ws s) = Returned ()" "rpWrites (answer ws s) = ws" "rpObs (answer ws s) = []"
  "rpBuffers (answer ws s) = []" "rpState (answer ws s) = s"
  by (simp_all add: answer_def)

lemma mux_find_hook: "mux_find hook method segments = Some RouteHook \<longleftrightarrow> hook \<and> method = ''POST'' \<and> segments = hook_segments"
  by (auto simp: mux_find_def mux_patterns_def method_matches_def hook_segments_def)

lemma response_status_http_Error [simp]: "response_status (http_Error message code) = code"
  by (simp add: http_Error_def)

lemma response_status_http_Redirect [simp]: "response_status (http_Redirect method code t target) = code"
  by (simp add: http_Redirect_def)

text \<open>
  The hook gets exactly the requests with its method and path, unchanged. Every other request
  is answered by the router and touches nothing.
\<close>

lemma mux_hook: "reaches_hook (rqMethod r) p \<Longrightarrow> NewMux (Some hook) info mu p env r s = hook env r s"
  using mux_find_hook [of True "rqMethod r" "path_segments p"]
  by (auto simp: NewMux_def reaches_hook_def route_handler_def Let_def cleanPath_def path_Clean_def split: if_splits)

lemma mux_other:
  assumes "\<not> reaches_hook (rqMethod r) p"
  shows "rpState (NewMux (Some hook) info mu p env r s) = s \<and> rpObs (NewMux (Some hook) info mu p env r s) = []
       \<and> rpBuffers (NewMux (Some hook) info mu p env r s) = [] \<and> rpResult (NewMux (Some hook) info mu p env r s) = Returned ()
       \<and> response_status (rpWrites (NewMux (Some hook) info mu p env r s)) \<in> {200, 400, 404, 405, muRedirectStatus mu}"
proof -
  have not_hook: "mux_find True (rqMethod r) (path_segments p) \<noteq> Some RouteHook" if "path \<noteq> p \<longrightarrow> False"
      "path = (if rqMethod r = ''CONNECT'' then p else cleanPath p)" for path
    using assms that by (auto simp: mux_find_hook reaches_hook_def)
  show ?thesis
    using not_hook
    by (auto simp: NewMux_def Let_def route_handler_def serve_health_def serve_version_def split: option.split list.split route.split)
qed

end
