(* ===== verification/App.thy ===== *)
theory App
  imports Metrics Server Config Service_Bus Hook Graph_Processor
begin

text \<open>
  Files \<^verbatim>\<open>internal/app/app.go\<close> and \<^verbatim>\<open>internal/azuremonitor/otel.go\<close>: the parts of the service are
  constructed from the configuration, wired together, and closed again, also when a later
  construction fails. Constructors report the handles they open and close. What the Azure and
  OpenTelemetry packages answer is in the record \<open>app_sdk\<close>; how the constructed queue, codec
  and status store behave as interfaces is in the record \<open>wiring\<close>. A goroutine that the
  application starts is a handle too.
\<close>

section \<open>Parts\<close>

definition queueCloseTimeout :: duration where "queueCloseTimeout = 5 * second_ns"
definition redisPingTimeout :: duration where "redisPingTimeout = 5 * second_ns"
definition azureMonitorMetricFlushInterval :: duration where "azureMonitorMetricFlushInterval = 60 * second_ns"
definition azureMonitorMetricFlushTimeout :: duration where "azureMonitorMetricFlushTimeout = 5 * second_ns"

record app_sdk =
  asUnicode :: unicode_tables
  asUUID :: "string \<Rightarrow> bool"
  asQuote :: "string \<Rightarrow> string"
  asNewExporter :: "string \<Rightarrow> goerror option"
  asShutdown :: "goerror option"
  asFinalFlush :: "goerror option"
  asMetricCredential :: "goerror option"
  asBusCredential :: "goerror option"
  asClientSecretCredential :: "string \<Rightarrow> string \<Rightarrow> string \<Rightarrow> goerror option"
  asBus :: sb_sdk
  asRedis :: redis_sdk
  asURLParse :: "string \<Rightarrow> goerror + parsed_url"
  asGCM :: "byte list \<Rightarrow> goerror + aead"

datatype store_choice = MemoryStoreChoice | RedisStoreChoice redis_store

record ('s, 'q) wiring =
  wiEnqueue :: "sb_queue \<Rightarrow> 'q enqueue_op"
  wiEncrypt :: "codec \<Rightarrow> encrypt_op"
  wiStatus :: "store_choice \<Rightarrow> 's status_ops"

text \<open>The things an application closes: the fields are what each of them was constructed with.\<close>

datatype app_closer =
    CloseTracing "resource option"
  | CloseFlusher resource
  | CloseQueue sb_queue
  | CloseReceiver sb_receiver
  | CloseDeadLetters sb_dlq
  | CloseStore "redis_store \<times> cred_provider"

section \<open>Tracing and metrics\<close>

definition tracer_provider :: resource where "tracer_provider = (''otel'', ''tracer provider'')"
definition flusher_goroutine :: resource where "flusher_goroutine = (''app'', ''metric flusher'')"

text \<open>\<^verbatim>\<open>SetupOTel\<close> gives the shutdown function: that of a provider, or one that does nothing.\<close>

definition SetupOTel :: "app_sdk \<Rightarrow> string \<Rightarrow> string \<Rightarrow> (goerror + resource option) \<times> res_event list" where
  "SetupOTel sdk optServiceName optEndpoint =
     (let endpoint = TrimSpace optEndpoint in
      if endpoint = [] then (Inr None, [])
      else
        let serviceName = TrimSpace optServiceName in
        if serviceName = [] then (Inl (ErrorString ''otel service name is required''), [])
        else case asNewExporter sdk endpoint of
          Some err \<Rightarrow> (Inl err, [])
        | None \<Rightarrow> (Inr (Some tracer_provider), [Opened tracer_provider]))"

definition otel_shutdown :: "app_sdk \<Rightarrow> resource option \<Rightarrow> goerror option \<times> res_event list" where
  "otel_shutdown sdk provider = (case provider of None \<Rightarrow> (None, []) | Some p \<Rightarrow> (asShutdown sdk, [Closed p]))"

text \<open>\<^verbatim>\<open>newPeriodicMetricFlusher\<close>: the period, and the goroutine it starts.\<close>

definition newPeriodicMetricFlusher :: "duration \<Rightarrow> duration \<times> resource \<times> res_event list" where
  "newPeriodicMetricFlusher period =
     (if period \<le> 0 then azureMonitorMetricFlushInterval else period, flusher_goroutine, [Opened flusher_goroutine])"

definition periodicMetricFlusher_Close :: "app_sdk \<Rightarrow> resource \<Rightarrow> goerror option \<times> res_event list" where
  "periodicMetricFlusher_Close sdk goroutine = (asFinalFlush sdk, [Closed goroutine])"

section \<open>Closing\<close>

fun closer_Close :: "app_sdk \<Rightarrow> app_closer \<Rightarrow> goerror option \<times> res_event list" where
  "closer_Close sdk (CloseTracing p) = otel_shutdown sdk p"
| "closer_Close sdk (CloseFlusher g) = periodicMetricFlusher_Close sdk g"
| "closer_Close sdk (CloseQueue q) = Queue_Close (asBus sdk) q"
| "closer_Close sdk (CloseReceiver r) = Receiver_Close (asBus sdk) r"
| "closer_Close sdk (CloseDeadLetters d) = DeadLetterQueue_Close (asBus sdk) d"
| "closer_Close sdk (CloseStore s) = close_store (asRedis sdk) s"

text \<open>A nil closer is skipped; every other one is closed, whatever those before it reported.\<close>

fun close_loop :: "app_sdk \<Rightarrow> app_closer option list \<Rightarrow> goerror option list \<times> res_event list" where
  "close_loop sdk [] = ([], [])"
| "close_loop sdk (None # closers) = close_loop sdk closers"
| "close_loop sdk (Some c # closers) =
     (let (err, evs) = closer_Close sdk c; (errs, evs') = close_loop sdk closers in (err # errs, evs @ evs'))"

definition closeAppResources :: "app_sdk \<Rightarrow> app_closer option list \<Rightarrow> goerror option \<times> res_event list" where
  "closeAppResources sdk closers =
     (if closers = [] then (None, [])
      else case close_loop sdk closers of (errs, evs) \<Rightarrow> (errors_Join errs, evs))"

definition closeAfterWiringError :: "app_sdk \<Rightarrow> goerror \<Rightarrow> app_closer list \<Rightarrow> goerror \<times> res_event list" where
  "closeAfterWiringError sdk err closers =
     (case closeAppResources sdk (map Some closers) of (closeErr, evs) \<Rightarrow> (the (errors_Join [Some err, closeErr]), evs))"

section \<open>Runtimes\<close>

record service_bus_runtime =
  brQueue :: sb_queue
  brReceiver :: sb_receiver
  brDeadLetters :: sb_dlq
  brClosers :: "app_closer list"

definition newConnectionStringServiceBusRuntime ::
  "app_sdk \<Rightarrow> config \<Rightarrow> (goerror + service_bus_runtime) \<times> res_event list" where
  "newConnectionStringServiceBusRuntime sdk cfg =
     (case NewFromConnectionString (asBus sdk) (cfServiceBusConnectionString cfg) (cfServiceBusQueueName cfg) (cfPasswordMessageTTL cfg) of
        (Inl err, evs) \<Rightarrow> (Inl err, evs)
      | (Inr queue, evs) \<Rightarrow>
          (case NewReceiverFromConnectionString (asBus sdk) (cfServiceBusConnectionString cfg) (cfServiceBusQueueName cfg) of
             (Inl err, evs') \<Rightarrow>
               (let (err', evs'') = closeAfterWiringError sdk err [CloseQueue queue] in (Inl err', evs @ evs' @ evs''))
           | (Inr receiver, evs') \<Rightarrow>
               (case NewDeadLetterQueueFromConnectionString (asBus sdk) (cfServiceBusConnectionString cfg)
                       (cfServiceBusDeadLetterQueueName cfg) of
                  (Inl err, evs'') \<Rightarrow>
                    (let (err', evs3) = closeAfterWiringError sdk err [CloseQueue queue, CloseReceiver receiver]
                     in (Inl err', evs @ evs' @ evs'' @ evs3))
                | (Inr dlq, evs'') \<Rightarrow>
                    (Inr \<lparr>brQueue = queue, brReceiver = receiver, brDeadLetters = dlq,
                          brClosers = [CloseQueue queue, CloseReceiver receiver, CloseDeadLetters dlq]\<rparr>, evs @ evs' @ evs''))))"

definition newManagedIdentityServiceBusRuntime ::
  "app_sdk \<Rightarrow> config \<Rightarrow> (goerror + service_bus_runtime) \<times> res_event list" where
  "newManagedIdentityServiceBusRuntime sdk cfg =
     (case asBusCredential sdk of
        Some err \<Rightarrow> (Inl (Wrapped ''create Azure credential: '' err), [])
      | None \<Rightarrow>
          (case NewFromNamespace (asBus sdk) (cfServiceBusNamespaceFQDN cfg) True (cfServiceBusQueueName cfg) (cfPasswordMessageTTL cfg) of
             (Inl err, evs) \<Rightarrow> (Inl err, evs)
           | (Inr queue, evs) \<Rightarrow>
               (case NewReceiverFromNamespace (asBus sdk) (cfServiceBusNamespaceFQDN cfg) True (cfServiceBusQueueName cfg) of
                  (Inl err, evs') \<Rightarrow>
                    (let (err', evs'') = closeAfterWiringError sdk err [CloseQueue queue] in (Inl err', evs @ evs' @ evs''))
                | (Inr receiver, evs') \<Rightarrow>
                    (case NewDeadLetterQueueFromNamespace (asBus sdk) (cfServiceBusNamespaceFQDN cfg) True
                            (cfServiceBusDeadLetterQueueName cfg) of
                       (Inl err, evs'') \<Rightarrow>
                         (let (err', evs3) = closeAfterWiringError sdk err [CloseQueue queue, CloseReceiver receiver]
                          in (Inl err', evs @ evs' @ evs'' @ evs3))
                     | (Inr dlq, evs'') \<Rightarrow>
                         (Inr \<lparr>brQueue = queue, brReceiver = receiver, brDeadLetters = dlq,
                               brClosers = [CloseQueue queue, CloseReceiver receiver, CloseDeadLetters dlq]\<rparr>,
                          evs @ evs' @ evs'')))))"

definition newServiceBusRuntime :: "app_sdk \<Rightarrow> config \<Rightarrow> (goerror + service_bus_runtime) \<times> res_event list" where
  "newServiceBusRuntime sdk cfg =
     (if cfServiceBusAuthMode cfg = [] \<or> cfServiceBusAuthMode cfg = ServiceBusAuthConnectionString
      then newConnectionStringServiceBusRuntime sdk cfg
      else if cfServiceBusAuthMode cfg = ServiceBusAuthManagedIdentity then newManagedIdentityServiceBusRuntime sdk cfg
      else (Inl (ErrorString ''SERVICEBUS_AUTH_MODE must be connection_string or managed_identity''), []))"

definition redis_options_of :: "config \<Rightarrow> redis_options" where
  "redis_options_of cfg =
     \<lparr>roHost = cfRedisHost cfg, roPort = cfRedisPort cfg, roKeyPrefix = cfRedisKeyPrefix cfg,
      roPendingTTL = cfPasswordMessageTTL cfg, roTerminalTTL = cfSyncStatusTerminalTTL cfg,
      roManagedIdentityClientID = cfAzureClientID cfg, roPingTimeout = redisPingTimeout\<rparr>"

definition newSyncStatusRuntime ::
  "app_sdk \<Rightarrow> config \<Rightarrow> (goerror + store_choice \<times> app_closer option) \<times> res_event list" where
  "newSyncStatusRuntime sdk cfg =
     (if cfSyncStatusStore cfg = SyncStatusStoreMemory then (Inr (MemoryStoreChoice, None), [])
      else if cfSyncStatusStore cfg = SyncStatusStoreRedis then
        (case NewManagedIdentityRedisStore (asUUID sdk) (asRedis sdk) (redis_options_of cfg) of
           (Inl err, evs) \<Rightarrow> (Inl err, evs)
         | (Inr (store, provider), evs) \<Rightarrow> (Inr (RedisStoreChoice store, Some (CloseStore (store, provider))), evs))
      else (Inl (QuotedError ''unsupported sync status store '' (cfSyncStatusStore cfg)), []))"

text \<open>The recorder of metrics, if there is one, and what has to be closed.\<close>

definition metric_options_of :: "config \<Rightarrow> metric_options" where
  "metric_options_of cfg =
     \<lparr>moEndpointBaseURL = ''https://'' @ cfAzureMonitorMetricRegion cfg @ ''.monitoring.azure.com'',
      moResourceID = cfAzureMonitorMetricResourceID cfg, moRegion = cfAzureMonitorMetricRegion cfg,
      moNamespace = cfAzureMonitorMetricNamespace cfg, moTokenSource = True\<rparr>"

definition newObservabilityRuntime ::
  "app_sdk \<Rightarrow> config \<Rightarrow> (goerror + metric_recorder option \<times> app_closer list) \<times> res_event list" where
  "newObservabilityRuntime sdk cfg =
     (if cfObservabilityExporter cfg \<noteq> ObservabilityExporterAzureMonitor then (Inr (None, []), [])
      else case SetupOTel sdk ''password-hook-service'' (cfOTLPExporterEndpoint cfg) of
        (Inl err, evs) \<Rightarrow> (Inl err, evs)
      | (Inr provider, evs) \<Rightarrow>
          (case asMetricCredential sdk of
             Some err \<Rightarrow>
               (let (shutdownErr, evs') = otel_shutdown sdk provider
                in (Inl (the (errors_Join [Some err, shutdownErr])), evs @ evs'))
           | None \<Rightarrow>
               (let (period, goroutine, evs') = newPeriodicMetricFlusher azureMonitorMetricFlushInterval
                in (Inr (Some (NewMetricRecorder (metric_options_of cfg)), [CloseTracing provider, CloseFlusher goroutine]),
                    evs @ evs'))))"

section \<open>Wiring\<close>

text \<open>
  The joint state of the handlers: the counters of the rate limiter, the nonces, the status
  store and the queue.
\<close>

type_synonym ('s, 'q) handler_state = "counts \<times> memory_nonce_store \<times> 's \<times> 'q"

record ('s, 'q) app =
  apServer :: "('s, 'q) handler_state server"
  apNonces :: memory_nonce_store
  apWorker :: "worker option"
  apClosers :: "app_closer option list"

definition rate_limit_config_of :: "config \<Rightarrow> rate_limit_config" where
  "rate_limit_config_of cfg =
     \<lparr>rcAllowedCIDRs = cfPortalAllowedCIDRs cfg, rcTrustedProxyCIDRs = cfTrustedProxyCIDRs cfg,
      rcLimitPerIP = cfRateLimitPerIP cfg, rcWindow = cfRateLimitWindow cfg, rcProblemBase = cfProblemBaseURL cfg\<rparr>"

definition hook_chain ::
  "app_sdk \<Rightarrow> config \<Rightarrow> ('s, 'q) hook \<Rightarrow> memory_nonce_store hmac \<Rightarrow> ('s, 'q) handler_state handler" where
  "hook_chain sdk cfg hook hmacMiddleware =
     (let hookHandler = hmac_Wrap hmacMiddleware (Hook_ServeHTTP (asUnicode sdk) (asQuote sdk) hook);
          hookHandler = rate_limit_Wrap (NewRateLimiter (rate_limit_config_of cfg)) hookHandler;
          hookHandler = RecoveryWithOptions (cfProblemBaseURL cfg) hookHandler;
          hookHandler = AccessLog True hookHandler
      in requestid_Middleware hookHandler)"

definition closing_error :: "app_sdk \<Rightarrow> goerror \<Rightarrow> app_closer option list \<Rightarrow> goerror \<times> res_event list" where
  "closing_error sdk err closers =
     (case closeAppResources sdk closers of (closeErr, evs) \<Rightarrow> (the (errors_Join [Some err, closeErr]), evs))"

text \<open>\<^verbatim>\<open>migration.NewService\<close> does not panic when it is given one value of \<^verbatim>\<open>ServiceOptions\<close>.\<close>

definition newWithQueueWithRecorder ::
  "app_sdk \<Rightarrow> build_info \<Rightarrow> config \<Rightarrow> 'q enqueue_op option \<Rightarrow> encrypt_op option \<Rightarrow> 's status_ops option
     \<Rightarrow> app_closer option list \<Rightarrow> (goerror + ('s, 'q) app) \<times> res_event list" where
  "newWithQueueWithRecorder sdk info cfg queue passwordEncrypter syncStatusStore closers =
     (if passwordEncrypter = None then
        (let (err, evs) = closing_error sdk (ErrorString ''password encrypter is required'') closers in (Inl err, evs))
      else case NewService (cfEntraPrimaryDomain cfg) queue passwordEncrypter [(syncStatusStore, cfPasswordMessageTTL cfg)] of
        Panicked p \<Rightarrow> (Inl (ErrorString p), [])
      | Returned service \<Rightarrow>
          (let hook = NewHookWithOptions service (cfProblemBaseURL cfg); nonces = NewMemoryNonceStore (cfNonceTTL cfg) in
           case NewHMACWithOptions (cfHMACSecret cfg) (Some (memory_nonce_ops nonces)) (cfHMACClockSkew cfg)
                  (cfProblemBaseURL cfg) (cfHookMaxBodyBytes cfg) of
             Inl err \<Rightarrow> (let (err', evs) = closing_error sdk err closers in (Inl err', evs))
           | Inr hmacMiddleware \<Rightarrow>
               (Inr \<lparr>apServer = NewServer (cfHTTPAddr cfg) (Some (hook_chain sdk cfg hook hmacMiddleware)) info,
                     apNonces = nonces, apWorker = None, apClosers = closers\<rparr>, [])))"

definition newWithQueue where
  "newWithQueue sdk info cfg queue passwordEncrypter syncStatusStore closers =
     newWithQueueWithRecorder sdk info cfg queue passwordEncrypter syncStatusStore closers"

definition newPasswordCodec :: "app_sdk \<Rightarrow> config \<Rightarrow> goerror + codec" where
  "newPasswordCodec sdk cfg = NewCodecFromBase64 (asGCM sdk) (cfPasswordEncryptionKeyB64 cfg) (cfPasswordEncryptionKeyID cfg)"

definition validatePasswordEncryptionConfig :: "config \<Rightarrow> goerror option" where
  "validatePasswordEncryptionConfig cfg =
     (if cfPasswordEncryptionKeyB64 cfg = [] then Some (ErrorString ''PASSWORD_ENCRYPTION_KEY_B64 is required'')
      else if cfPasswordEncryptionKeyID cfg = [] then Some (ErrorString ''PASSWORD_ENCRYPTION_KEY_ID is required'')
      else None)"

definition NewWithQueue ::
  "app_sdk \<Rightarrow> ('s, 'q) wiring \<Rightarrow> build_info \<Rightarrow> config \<Rightarrow> 'q enqueue_op option \<Rightarrow> (goerror + ('s, 'q) app) \<times> res_event list" where
  "NewWithQueue sdk w info cfg queue =
     (case ValidateHTTP cfg of
        Some err \<Rightarrow> (Inl err, [])
      | None \<Rightarrow>
          (case validatePasswordEncryptionConfig cfg of
             Some err \<Rightarrow> (Inl err, [])
           | None \<Rightarrow>
               if queue = None then (Inl (ErrorString ''migration queue is required''), [])
               else (case newPasswordCodec sdk cfg of
                       Inl err \<Rightarrow> (Inl err, [])
                     | Inr passwordCodec \<Rightarrow>
                         newWithQueue sdk info cfg queue (Some (wiEncrypt w passwordCodec)) (Some (wiStatus w MemoryStoreChoice)) [])))"

text \<open>
  The arguments \<open>receiver\<close>, \<open>processor\<close> and \<open>deadLetterSink\<close> say whether the interface value is
  given; the worker gets its defaults otherwise.
\<close>

definition app_worker_options :: "bool \<Rightarrow> bool \<Rightarrow> bool \<Rightarrow> bool \<Rightarrow> bool \<Rightarrow> worker_options" where
  "app_worker_options receiver processor deadLetterSink decrypter recorder =
     \<lparr>optReceiver = receiver, optProcessor = processor, optDeadLetterSink = deadLetterSink, optPasswordDecrypter = decrypter,
      optSyncStatusRecorder = recorder, optMaxMessages = 0, optSettlementTimeout = 0, optEmptyReceiveDelay = 0,
      optRetryBackoffs = []\<rparr>"

definition newWithWorkerDependenciesWithSyncStatusAndRecorder ::
  "app_sdk \<Rightarrow> ('s, 'q) wiring \<Rightarrow> build_info \<Rightarrow> config \<Rightarrow> 'q enqueue_op option \<Rightarrow> bool \<Rightarrow> bool \<Rightarrow> bool \<Rightarrow> codec option
     \<Rightarrow> store_choice option \<Rightarrow> app_closer option list \<Rightarrow> (goerror + ('s, 'q) app) \<times> res_event list" where
  "newWithWorkerDependenciesWithSyncStatusAndRecorder sdk w info cfg queue receiver processor deadLetterSink passwordCodec
       syncStatusStore closers =
     (if passwordCodec = None then
        (let (err, evs) = closing_error sdk (ErrorString ''password codec is required'') closers in (Inl err, evs))
      else if syncStatusStore = None then
        (let (err, evs) = closing_error sdk (ErrorString ''sync status store is required'') closers in (Inl err, evs))
      else case newWithQueueWithRecorder sdk info cfg queue (Some (wiEncrypt w (the passwordCodec)))
                  (Some (wiStatus w (the syncStatusStore))) closers of
        (Inl err, evs) \<Rightarrow> (Inl err, evs)
      | (Inr application, evs) \<Rightarrow>
          (case NewWorker (app_worker_options receiver processor deadLetterSink (passwordCodec \<noteq> None) (syncStatusStore \<noteq> None)) of
             Inl err \<Rightarrow> (let (err', evs') = closing_error sdk err closers in (Inl err', evs @ evs'))
           | Inr passwordWorker \<Rightarrow> (Inr (application\<lparr>apWorker := Some passwordWorker\<rparr>), evs)))"

definition newWithWorkerDependenciesWithRecorder where
  "newWithWorkerDependenciesWithRecorder sdk w info cfg queue receiver processor deadLetterSink passwordCodec closers =
     newWithWorkerDependenciesWithSyncStatusAndRecorder sdk w info cfg queue receiver processor deadLetterSink passwordCodec
       (Some MemoryStoreChoice) closers"

definition newWithWorkerDependencies where
  "newWithWorkerDependencies sdk w info cfg queue receiver processor deadLetterSink passwordCodec closers =
     newWithWorkerDependenciesWithRecorder sdk w info cfg queue receiver processor deadLetterSink passwordCodec closers"

text \<open>The part of \<^verbatim>\<open>New\<close> after the handles are open: \<open>closers\<close> are those to close on an error.\<close>

definition finish_new ::
  "app_sdk \<Rightarrow> ('s, 'q) wiring \<Rightarrow> build_info \<Rightarrow> config \<Rightarrow> service_bus_runtime \<Rightarrow> store_choice \<Rightarrow> app_closer list
     \<Rightarrow> (goerror + ('s, 'q) app) \<times> res_event list" where
  "finish_new sdk w info cfg bus store closers =
     (let fail = (\<lambda>err. case closeAfterWiringError sdk err closers of (err', evs) \<Rightarrow> (Inl err', evs)) in
      case asClientSecretCredential sdk (cfGraphTenantID cfg) (cfGraphClientID cfg) (cfGraphClientSecret cfg) of
        Some err \<Rightarrow> fail err
      | None \<Rightarrow>
          (case NewHTTPClient (asURLParse sdk) True [] [] of
             Inl err \<Rightarrow> fail err
           | Inr graph \<Rightarrow>
               (case NewProcessorWithOptions True of
                  Some err \<Rightarrow> fail err
                | None \<Rightarrow>
                    (case newPasswordCodec sdk cfg of
                       Inl err \<Rightarrow> fail err
                     | Inr passwordCodec \<Rightarrow>
                         newWithWorkerDependenciesWithSyncStatusAndRecorder sdk w info cfg (Some (wiEnqueue w (brQueue bus)))
                           True True True (Some passwordCodec) (Some store) (map Some closers)))))"

definition NewApp ::
  "app_sdk \<Rightarrow> ('s, 'q) wiring \<Rightarrow> build_info \<Rightarrow> config \<Rightarrow> (goerror + ('s, 'q) app) \<times> res_event list" where
  "NewApp sdk w info cfg =
     (case Validate (asUnicode sdk) (asUUID sdk) cfg of
        Some err \<Rightarrow> (Inl err, [])
      | None \<Rightarrow>
          (case newObservabilityRuntime sdk cfg of
             (Inl err, evs) \<Rightarrow> (Inl err, evs)
           | (Inr (recorder, closers), evs) \<Rightarrow>
               (case newServiceBusRuntime sdk cfg of
                  (Inl err, evs') \<Rightarrow>
                    (let (err', evs'') = closeAfterWiringError sdk err closers in (Inl err', evs @ evs' @ evs''))
                | (Inr bus, evs') \<Rightarrow>
                    (let closers = closers @ brClosers bus in
                     case newSyncStatusRuntime sdk cfg of
                       (Inl err, evs'') \<Rightarrow>
                         (let (err', evs3) = closeAfterWiringError sdk err closers in (Inl err', evs @ evs' @ evs'' @ evs3))
                     | (Inr (store, closer), evs'') \<Rightarrow>
                         (let closers = (case closer of Some c \<Rightarrow> closers @ [c] | None \<Rightarrow> closers);
                              (res, evs3) = finish_new sdk w info cfg bus store closers
                          in (res, evs @ evs' @ evs'' @ evs3))))))"

text \<open>\<^verbatim>\<open>Run\<close>: whatever server and worker report, everything is closed.\<close>

definition App_Run :: "app_sdk \<Rightarrow> ('s, 'q) app \<Rightarrow> goerror option \<Rightarrow> goerror option \<times> res_event list" where
  "App_Run sdk a runtimeErr =
     (case closeAppResources sdk (apClosers a) of (closeErr, evs) \<Rightarrow> (errors_Join [runtimeErr, closeErr], evs))"

definition App_ServeHTTP :: "('s, 'q) app \<Rightarrow> mux_env \<Rightarrow> string \<Rightarrow> ('s, 'q) handler_state handler" where
  "App_ServeHTTP a = Server_ServeHTTP (apServer a)"

section \<open>Everything that is opened is closed\<close>

fun closer_handles :: "app_closer \<Rightarrow> resource multiset" where
  "closer_handles (CloseTracing p) = (case p of None \<Rightarrow> {#} | Some r \<Rightarrow> {#r#})"
| "closer_handles (CloseFlusher g) = {#g#}"
| "closer_handles (CloseQueue q) = queue_handles q"
| "closer_handles (CloseReceiver r) = receiver_handles r"
| "closer_handles (CloseDeadLetters d) = dlq_handles d"
| "closer_handles (CloseStore s) = redis_handles s"

interpretation ac: closing closer_handles "closer_Close sdk" for sdk
proof
  show "opened (snd (closer_Close sdk c)) = {#}" for c
    by (cases c) (simp_all add: otel_shutdown_def periodicMetricFlusher_Close_def qc.close_opens rc.close_opens dc.close_opens
        sc.close_opens split: option.split)
  show "closed (snd (closer_Close sdk c)) = closer_handles c" for c
    by (cases c) (simp_all add: otel_shutdown_def periodicMetricFlusher_Close_def qc.close_closes rc.close_closes dc.close_closes
        sc.close_closes split: option.split)
qed

definition closers_handles :: "app_closer option list \<Rightarrow> resource multiset" where
  "closers_handles closers = sum_list (map closer_handles (List.map_filter id closers))"

lemma closers_handles_simps [simp]:
  "closers_handles [] = {#}" "closers_handles (None # cs) = closers_handles cs"
  "closers_handles (Some c # cs) = closer_handles c + closers_handles cs"
  by (simp_all add: closers_handles_def map_filter_simps)

lemma closers_handles_append [simp]: "closers_handles (cs @ ds) = closers_handles cs + closers_handles ds"
  by (simp add: closers_handles_def List.map_filter_def)

lemma close_loop_each: "close_loop sdk cs = ac.close_each sdk (List.map_filter id cs)"
proof (induction cs)
  case (Cons c cs)
  then show ?case by (cases c) (simp_all add: ac.close_each_def map_filter_simps case_prod_beta Let_def)
qed (simp add: ac.close_each_def map_filter_simps)

lemma closeAppResources_events:
  "opened (snd (closeAppResources sdk cs)) = {#}" "closed (snd (closeAppResources sdk cs)) = closers_handles cs"
  by (simp_all add: closeAppResources_def close_loop_each case_prod_beta ac.close_each_events flip: closers_handles_def)

lemma closing_errors:
  "opened (snd (closing_error sdk err cs)) = {#}" "closed (snd (closing_error sdk err cs)) = closers_handles cs"
  "opened (snd (closeAfterWiringError sdk err ds)) = {#}" "closed (snd (closeAfterWiringError sdk err ds)) = closers_handles (map Some ds)"
  by (simp_all add: closing_error_def closeAfterWiringError_def case_prod_beta closeAppResources_events)

text \<open>A second constructor after a first one, which is closed when the second fails.\<close>

lemma owned_Inl: "owned own (Inl e, evs) \<longleftrightarrow> opened evs = closed evs"
  and owned_Inr: "owned own (Inr x, evs) \<longleftrightarrow> opened evs = closed evs + own x"
  by (simp_all add: owned_def)

lemmas owned_cases = owned_Inl owned_Inr

definition bus_handles :: "service_bus_runtime \<Rightarrow> resource multiset" where
  "bus_handles b = closers_handles (map Some (brClosers b))"

lemma bus_runtime_owns: "owned bus_handles (newServiceBusRuntime sdk cfg)"
proof -
  note own = constructors_own [of "asBus sdk", unfolded owned_def]
  have "owned bus_handles (newConnectionStringServiceBusRuntime sdk cfg)"
    using own(1) [of "cfServiceBusConnectionString cfg" "cfServiceBusQueueName cfg" "cfPasswordMessageTTL cfg"]
      own(3) [of "cfServiceBusConnectionString cfg" "cfServiceBusQueueName cfg"]
      own(5) [of "cfServiceBusConnectionString cfg" "cfServiceBusDeadLetterQueueName cfg"]
    by (auto simp: newConnectionStringServiceBusRuntime_def owned_cases case_prod_beta closing_errors bus_handles_def ac_simps
        split: prod.split sum.split)
  moreover have "owned bus_handles (newManagedIdentityServiceBusRuntime sdk cfg)"
    using own(2) [of "cfServiceBusNamespaceFQDN cfg" True "cfServiceBusQueueName cfg" "cfPasswordMessageTTL cfg"]
      own(4) [of "cfServiceBusNamespaceFQDN cfg" True "cfServiceBusQueueName cfg"]
      own(6) [of "cfServiceBusNamespaceFQDN cfg" True "cfServiceBusDeadLetterQueueName cfg"]
    by (auto simp: newManagedIdentityServiceBusRuntime_def owned_cases case_prod_beta closing_errors bus_handles_def ac_simps
        split: prod.split sum.split option.split)
  ultimately show ?thesis by (simp add: newServiceBusRuntime_def owned_cases)
qed

lemma status_runtime_owns: "owned (\<lambda>(store, closer). closers_handles [closer]) (newSyncStatusRuntime sdk cfg)"
  using redis_constructor_owns [of "asUUID sdk" "asRedis sdk" "redis_options_of cfg"]
  by (auto simp: newSyncStatusRuntime_def owned_def split: prod.splits sum.splits)

lemma observability_runtime_owns:
  "owned (\<lambda>(recorder, closers). closers_handles (map Some closers)) (newObservabilityRuntime sdk cfg)"
  by (auto simp: newObservabilityRuntime_def SetupOTel_def newPeriodicMetricFlusher_def otel_shutdown_def owned_def Let_def
      split: option.splits)

text \<open>Construction on top of open handles: they are closed on an error, and kept otherwise.\<close>

definition keeps :: "app_closer option list \<Rightarrow> (goerror + ('s, 'q) app) \<times> res_event list \<Rightarrow> bool" where
  "keeps closers res = (case res of
     (Inl e, evs) \<Rightarrow> opened evs = {#} \<and> closed evs = closers_handles closers
   | (Inr a, evs) \<Rightarrow> evs = [] \<and> apClosers a = closers)"

lemma queue_app_keeps: "keeps closers (newWithQueueWithRecorder sdk info cfg queue enc store closers)"
  by (auto simp: keeps_def newWithQueueWithRecorder_def NewService_def case_prod_beta closing_errors Let_def split: sum.split)

lemma worker_app_keeps:
  "keeps closers (newWithWorkerDependenciesWithSyncStatusAndRecorder sdk w info cfg queue receiver processor sink codec store closers)"
  using queue_app_keeps [of closers sdk info cfg queue "Some (wiEncrypt w (the codec))" "Some (wiStatus w (the store))"]
  by (auto simp: keeps_def newWithWorkerDependenciesWithSyncStatusAndRecorder_def case_prod_beta closing_errors Let_def
      split: sum.split prod.split)

lemma wiring_error_keeps:
  "keeps (map Some closers) (case closeAfterWiringError sdk err closers of (err', evs) \<Rightarrow> (Inl err', evs))"
  by (simp add: keeps_def case_prod_beta closing_errors)

lemma finish_keeps: "keeps (map Some closers) (finish_new sdk w info cfg bus store closers)"
  by (simp add: finish_new_def wiring_error_keeps worker_app_keeps Let_def split: sum.split option.split)

abbreviation app_handles :: "('s, 'q) app \<Rightarrow> resource multiset" where
  "app_handles a \<equiv> closers_handles (apClosers a)"

lemma keeps_owned:
  "keeps closers x \<Longrightarrow> opened evs = closed evs + closers_handles closers \<Longrightarrow> owned app_handles (fst x, evs @ snd x)"
  by (cases x) (auto simp: keeps_def owned_def split: sum.splits)

lemma app_owns: "owned app_handles (NewApp sdk w info cfg)"
proof (cases "Validate (asUnicode sdk) (asUUID sdk) cfg")
  case None
  obtain obs evs where obs: "newObservabilityRuntime sdk cfg = (obs, evs)" by force
  obtain bus evs' where bus: "newServiceBusRuntime sdk cfg = (bus, evs')" by force
  obtain status evs'' where status: "newSyncStatusRuntime sdk cfg = (status, evs'')" by force
  note owns = observability_runtime_owns [of sdk cfg, unfolded obs] bus_runtime_owns [of sdk cfg, unfolded bus]
    status_runtime_owns [of sdk cfg, unfolded status]
  show ?thesis
  proof (cases "\<exists>recorder closers b store closer. obs = Inr (recorder, closers) \<and> bus = Inr b \<and> status = Inr (store, closer)")
    case True
    then obtain recorder closers b store closer where
      ok: "obs = Inr (recorder, closers)" "bus = Inr b" "status = Inr (store, closer)" by blast
    let ?closers = "case closer of Some c \<Rightarrow> (closers @ brClosers b) @ [c] | None \<Rightarrow> closers @ brClosers b"
    have "opened (evs @ evs' @ evs'') = closed (evs @ evs' @ evs'') + closers_handles (map Some ?closers)"
      using owns by (simp add: ok owned_Inr bus_handles_def split: option.split)
    from keeps_owned [OF finish_keeps this] show ?thesis
      by (simp add: NewApp_def None obs bus status ok case_prod_beta Let_def)
  next
    case False
    with owns show ?thesis
      by (auto simp: NewApp_def None obs bus status owned_def case_prod_beta closing_errors bus_handles_def Let_def
          split: sum.splits)
  qed
qed (simp add: NewApp_def owned_def)

text \<open>
  C16: the application releases everything it opened. When construction fails, at whatever
  point, every handle and goroutine opened until then was closed exactly once; when it
  succeeds, the same holds after \<^verbatim>\<open>Run\<close>, whatever server, worker and the closed parts report.
\<close>

theorem app_releases_everything:
  "case NewApp sdk w info cfg of
     (Inl err, evs) \<Rightarrow> opened evs = closed evs
   | (Inr a, evs) \<Rightarrow> opened (evs @ snd (App_Run sdk a runtimeErr)) = closed (evs @ snd (App_Run sdk a runtimeErr))"
  using app_owns [of sdk w info cfg]
  by (auto simp: owned_def App_Run_def case_prod_beta closeAppResources_events split: sum.splits)

end
