(* ===== verification/App_Properties.thy ===== *)
theory App_Properties
  imports App
begin

text \<open>
  What the wired service guarantees: which requests act, what a validated configuration is good
  for, and that a client in an allowed network cannot pass for a proxy.
\<close>

section \<open>The handler chain\<close>

lemma NewService_one: "NewService domain queue enc [(store, ttl)] = Returned
    \<lparr>svcPrimaryDomain = domain, svcQueue = queue, svcEncrypter = enc, svcStore = store,
     svcPendingTTL = (if ttl \<le> 0 then defaultPendingTTL else ttl)\<rparr>"
  by (simp add: NewService_def)

text \<open>The parts of a constructed application.\<close>

lemma newWithQueueWithRecorder_Inr:
  assumes "newWithQueueWithRecorder sdk info cfg queue enc store closers = (Inr a, evs)"
  obtains svc m where "NewService (cfEntraPrimaryDomain cfg) queue enc [(store, cfPasswordMessageTTL cfg)] = Returned svc"
    "NewHMACWithOptions (cfHMACSecret cfg) (Some (memory_nonce_ops (NewMemoryNonceStore (cfNonceTTL cfg)))) (cfHMACClockSkew cfg)
       (cfProblemBaseURL cfg) (cfHookMaxBodyBytes cfg) = Inr m"
    "apServer a = NewServer (cfHTTPAddr cfg) (Some (hook_chain sdk cfg (NewHookWithOptions svc (cfProblemBaseURL cfg)) m)) info"
  using assms that by (auto simp: newWithQueueWithRecorder_def NewService_one Let_def split: if_splits sum.splits prod.splits)

lemma NewApp_Inr:
  assumes "NewApp sdk w info cfg = (Inr a, evs)"
  obtains queue enc store closers b where "Validate (asUnicode sdk) (asUUID sdk) cfg = None"
    "newWithQueueWithRecorder sdk info cfg queue enc store closers = (Inr b, [])" "apServer a = apServer b"
proof -
  obtain bus status closers evs' where "Validate (asUnicode sdk) (asUUID sdk) cfg = None"
    and fin: "finish_new sdk w info cfg bus status closers = (Inr a, evs')"
    using assms by (auto simp: NewApp_def case_prod_beta Let_def split: option.splits sum.splits prod.splits)
      (metis prod.collapse)+
  moreover obtain codec where
    "newWithWorkerDependenciesWithSyncStatusAndRecorder sdk w info cfg (Some (wiEnqueue w (brQueue bus))) True True True
       (Some codec) (Some status) (map Some closers) = (Inr a, evs')"
    using fin by (auto simp: finish_new_def Let_def split: option.splits sum.splits prod.splits)
  then obtain b evs'' where b: "newWithQueueWithRecorder sdk info cfg (Some (wiEnqueue w (brQueue bus))) (Some (wiEncrypt w codec))
       (Some (wiStatus w status)) (map Some closers) = (Inr b, evs'')" "apServer a = apServer b"
    by (auto simp: newWithWorkerDependenciesWithSyncStatusAndRecorder_def split: sum.splits prod.splits)
  moreover from b(1) have "evs'' = []"
    by (auto simp: newWithQueueWithRecorder_def NewService_one Let_def split: sum.splits prod.splits)
  ultimately show thesis using that by blast
qed

lemma NewHMAC_Inr:
  assumes "NewHMACWithOptions secret nonces skew base maxBody = Inr m" and "maxBody < 2 ^ 63 - 1"
  shows "0 \<le> hmMaxBodyBytes m \<and> hmMaxBodyBytes m < 2 ^ 63 - 1"
  using assms by (auto simp: NewHMACWithOptions_def defaultHMACMaxBodyBytes_def split: if_splits)

text \<open>A reply that ends a request properly: it returns, with one status and clean buffers.\<close>

definition proper :: "'s reply \<Rightarrow> bool" where
  "proper reply \<longleftrightarrow> rpResult reply = Returned () \<and> single (rpWrites reply) \<and> list_all zeroed (rpBuffers reply)"

lemma hook_proper: "proper (Hook_ServeHTTP U quote h e r (s, q))"
proof (cases "hook_body r")
  case None
  from Hook_ServeHTTP_rejects [OF this, of U quote h e "(s, q)"] show ?thesis by (simp add: proper_def Let_def)
next
  case (Some body)
  obtain bufs where b: "list_all zeroed bufs"
    "Hook_ServeHTTP U quote h e r (s, q) = submit_valid U quote h e r body bufs (s, q)"
    by (rule Hook_ServeHTTP_body [OF Some])
  obtain decision err s' q' pw where "Submit U (hookService h) (requestid_From r) (heFresh e) (heSubmit e) s q
      (submit_request body) = (decision, err, s', q', pw)"
    by (metis prod_cases5)
  from submit_valid_reply [OF b(1) this, of quote] show ?thesis by (simp add: b(2) proper_def Let_def)
qed

lemma hook_acts: "rpState (Hook_ServeHTTP U quote h e r st) \<noteq> st \<Longrightarrow> hook_body r \<noteq> None"
  using Hook_ServeHTTP_rejects [of r U quote h e st] by (auto simp: Let_def)

lemma hmac_proper:
  assumes "0 \<le> hmMaxBodyBytes m \<and> hmMaxBodyBytes m < 2 ^ 63 - 1" and "\<And>e r s. proper (inner e r s)"
  shows "proper (hmac_Wrap m inner e r (n, s))"
    and "snd (rpState (hmac_Wrap m inner e r (n, s))) \<noteq> s \<Longrightarrow> admitted m e r n
      \<and> snd (rpState (hmac_Wrap m inner e r (n, s)))
        = rpState (inner e (r\<lparr>rqBody := bytes_NewReader (stream_bytes (rqBody r))\<rparr>) s)"
  using assms(2) hmac_Wrap_cases [where m = m and inner = inner and env = e and r = r and n = n and s = s] assms(1)
  by (auto simp: proper_def rejected_def pass_on_def admitted_def split: if_splits prod.splits bool.splits)

lemma rate_limit_proper:
  assumes "\<And>e r s. proper (inner e r s)"
  shows "proper (rate_limit_Wrap l inner e r (cs, s))"
    and "snd (rpState (rate_limit_Wrap l inner e r (cs, s))) \<noteq> s \<Longrightarrow> sourceAllowed l (sourceIP l r)
      \<and> snd (rpState (rate_limit_Wrap l inner e r (cs, s))) = rpState (inner e r s)"
  using assms by (auto simp: proper_def rate_limit_Wrap_def Let_def sourceIP_def split: if_splits prod.splits bool.splits)

text \<open>The trace identifier put into the request changes nothing the checks look at.\<close>

lemma requestid_With_plain:
  "rqRemoteAddr (requestid_With r i) = rqRemoteAddr r" "rqMethod (requestid_With r i) = rqMethod r"
  "rqBody (requestid_With r i) = rqBody r"
  "header_Values (requestid_With r i) k = header_Values r k" "header_Get (requestid_With r i) k = header_Get r k"
  by (simp_all add: requestid_With_def header_Get_def header_Values_def)

lemma requestid_With_checks [simp]:
  "sourceIP l (requestid_With r i) = sourceIP l r"
  "admitted m e (requestid_With r i) n = admitted m e r n"
  "hook_body (requestid_With r i\<lparr>rqBody := b\<rparr>) = hook_body (r\<lparr>rqBody := b\<rparr>)"
  "rqBody (requestid_With r i) = rqBody r"
  unfolding sourceIP_cases admitted_def authentic_def hook_body_def requestid_With_plain
  by (simp_all add: requestid_With_plain)

text \<open>What the outer three layers make of a reply of the rate limiter.\<close>

lemma outer_layers:
  fixes inner :: "'x handler" and base :: string
  assumes "\<And>r. proper (inner e r s)"
  defines "reply r \<equiv> requestid_Middleware (AccessLog True (RecoveryWithOptions base inner)) e r s"
  obtains i where "rpState (reply r) = rpState (inner e (requestid_With r i) s)"
    "rpBuffers (reply r) = rpBuffers (inner e (requestid_With r i) s)" "rpResult (reply r) = Returned ()"
    "\<exists>attrs. last (rpObs (reply r)) = LogAttrs ''request'' attrs
       \<and> AttrInt ''status'' (response_status (rpWrites (reply r))) \<in> set attrs"
proof -
  define i where "i = (let i = TrimSpace (header_Get r requestid_Header) in if i = [] then requestid_New (heRandom e) else i)"
  let ?in = "inner e (requestid_With r i) s"
  have p: "rpResult ?in = Returned ()" "single (rpWrites ?in)" using assms(1) by (simp_all add: proper_def)
  have rec: "RecoveryWithOptions base inner e (requestid_With r i) s = ?in"
    by (simp add: RecoveryWithOptions_def p(1) Let_def)
  have eq: "reply r = (let al = AccessLog True (RecoveryWithOptions base inner) e (requestid_With r i) s
      in al\<lparr>rpWrites := SetHeader (CanonicalHeaderKey requestid_Header) i # rpWrites al\<rparr>)"
    by (simp add: reply_def requestid_Middleware_def i_def Let_def)
  have status: "statusRecorder 0 (rpWrites ?in) = response_status (rpWrites ?in)" "response_status (rpWrites ?in) \<noteq> 0"
    using p(2) statusRecorder_single [OF p(2)] by (auto simp: single_def response_status_headers)
  show thesis
  proof (rule that [of i])
    show "\<exists>attrs. last (rpObs (reply r)) = LogAttrs ''request'' attrs
       \<and> AttrInt ''status'' (response_status (rpWrites (reply r))) \<in> set attrs"
      using status by (simp add: eq AccessLog_def rec p(1) Let_def)
  qed (simp_all add: eq Let_def rec p(1))
qed

text \<open>The whole chain, from the router to the hook.\<close>

lemma chain_gate:
  fixes cfg :: config and sdk :: app_sdk and hook :: "('s, 'q) hook" and m :: "memory_nonce_store hmac" and e r cs n s q
  assumes "0 \<le> hmMaxBodyBytes m \<and> hmMaxBodyBytes m < 2 ^ 63 - 1"
  defines "l \<equiv> NewRateLimiter (rate_limit_config_of cfg)"
  defines "reply \<equiv> hook_chain sdk cfg hook m e r (cs, n, s, q)"
  shows "rpResult reply = Returned () \<and> list_all zeroed (rpBuffers reply)"
    and "snd (snd (rpState reply)) \<noteq> (s, q) \<Longrightarrow> sourceAllowed l (sourceIP l r) \<and> admitted m e r n
           \<and> hook_body (r\<lparr>rqBody := bytes_NewReader (stream_bytes (rqBody r))\<rparr>) \<noteq> None"
    and "\<exists>attrs. last (rpObs reply) = LogAttrs ''request'' attrs
           \<and> AttrInt ''status'' (response_status (rpWrites reply)) \<in> set attrs"
proof -
  let ?H = "Hook_ServeHTTP (asUnicode sdk) (asQuote sdk) hook"
  let ?M = "hmac_Wrap m ?H" and ?R = "rate_limit_Wrap l (hmac_Wrap m ?H)"
  have H: "proper (?H e r st)" for e r st by (cases st) (simp add: hook_proper)
  have M: "proper (?M e r st)" for e r st by (cases st) (simp add: hmac_proper(1) [OF assms(1) H])
  have R: "proper (?R e r st)" for e r st by (cases st) (simp add: rate_limit_proper(1) [OF M])
  have eq: "reply = requestid_Middleware (AccessLog True (RecoveryWithOptions (cfProblemBaseURL cfg) ?R)) e r (cs, n, s, q)"
    by (simp add: reply_def hook_chain_def l_def Let_def)
  obtain i where i: "rpState reply = rpState (?R e (requestid_With r i) (cs, n, s, q))"
    "rpBuffers reply = rpBuffers (?R e (requestid_With r i) (cs, n, s, q))" "rpResult reply = Returned ()"
    "\<exists>attrs. last (rpObs reply) = LogAttrs ''request'' attrs
       \<and> AttrInt ''status'' (response_status (rpWrites reply)) \<in> set attrs"
    unfolding eq by (rule outer_layers [of ?R e "(cs, n, s, q)" "cfProblemBaseURL cfg" r, OF R])
  show "rpResult reply = Returned () \<and> list_all zeroed (rpBuffers reply)" using R i(2,3) by (simp add: proper_def)
  show "\<exists>attrs. last (rpObs reply) = LogAttrs ''request'' attrs
      \<and> AttrInt ''status'' (response_status (rpWrites reply)) \<in> set attrs" by (rule i(4))
  let ?r = "requestid_With r i"
  assume acts: "snd (snd (rpState reply)) \<noteq> (s, q)"
  then have "snd (rpState (?R e ?r (cs, n, s, q))) \<noteq> (n, s, q)" using i(1) by auto
  note rl = rate_limit_proper(2) [OF M this]
  then have "snd (rpState (?M e ?r (n, s, q))) \<noteq> (s, q)" using acts i(1) by auto
  note hm = hmac_proper(2) [OF assms(1) H this]
  then have "rpState (?H e (?r\<lparr>rqBody := bytes_NewReader (stream_bytes (rqBody ?r))\<rparr>) (s, q)) \<noteq> (s, q)"
    using acts i(1) rl by auto
  from hook_acts [OF this] rl hm show "sourceAllowed l (sourceIP l r) \<and> admitted m e r n
      \<and> hook_body (r\<lparr>rqBody := bytes_NewReader (stream_bytes (rqBody r))\<rparr>) \<noteq> None" by auto
qed

text \<open>
  C2: whatever configuration the service was built from and whatever request arrives, it
  answers without a panic and leaves no request body in memory. The status store and the queue
  change only for a POST to the hook whose source address is in the allowed networks, whose
  signature, timestamp and nonce pass the HMAC check, and whose body, the signed one, is a
  valid hook request. The access log of a request to the hook reports the status that is sent.
\<close>

theorem only_authentic_requests_act:
  assumes "NewApp sdk w info cfg = (Inr a, evs)" and "cfHookMaxBodyBytes cfg < 2 ^ 63 - 1"
  shows "\<exists>m. NewHMACWithOptions (cfHMACSecret cfg) (Some (memory_nonce_ops (NewMemoryNonceStore (cfNonceTTL cfg))))
               (cfHMACClockSkew cfg) (cfProblemBaseURL cfg) (cfHookMaxBodyBytes cfg) = Inr m
    \<and> (\<forall>mu p e r cs n s q.
        let reply = App_ServeHTTP a mu p e r (cs, n, s, q); l = NewRateLimiter (rate_limit_config_of cfg) in
        rpResult reply = Returned () \<and> list_all zeroed (rpBuffers reply)
        \<and> (snd (snd (rpState reply)) \<noteq> (s, q) \<longrightarrow>
             reaches_hook (rqMethod r) p \<and> sourceAllowed l (sourceIP l r) \<and> admitted m e r n
             \<and> hook_body (r\<lparr>rqBody := bytes_NewReader (stream_bytes (rqBody r))\<rparr>) \<noteq> None)
        \<and> (reaches_hook (rqMethod r) p \<longrightarrow> (\<exists>attrs. last (rpObs reply) = LogAttrs ''request'' attrs
             \<and> AttrInt ''status'' (response_status (rpWrites reply)) \<in> set attrs)))"
proof -
  obtain queue enc store closers b where b: "newWithQueueWithRecorder sdk info cfg queue enc store closers = (Inr b, [])"
    "apServer a = apServer b"
    by (rule NewApp_Inr [OF assms(1)])
  obtain svc m where m: "NewHMACWithOptions (cfHMACSecret cfg) (Some (memory_nonce_ops (NewMemoryNonceStore (cfNonceTTL cfg))))
      (cfHMACClockSkew cfg) (cfProblemBaseURL cfg) (cfHookMaxBodyBytes cfg) = Inr m"
    and sv: "apServer b = NewServer (cfHTTPAddr cfg) (Some (hook_chain sdk cfg (NewHookWithOptions svc (cfProblemBaseURL cfg)) m)) info"
    by (rule newWithQueueWithRecorder_Inr [OF b(1)])
  let ?C = "hook_chain sdk cfg (NewHookWithOptions svc (cfProblemBaseURL cfg)) m"
  have serve: "App_ServeHTTP a = NewMux (Some ?C) info"
    by (simp add: App_ServeHTTP_def Server_ServeHTTP_def b(2) sv NewServer_def)
  note gate = chain_gate [OF NewHMAC_Inr [OF m assms(2)], where sdk = sdk and cfg = cfg
      and hook = "NewHookWithOptions svc (cfProblemBaseURL cfg)"]
  show ?thesis
  proof (rule exI [of _ m], intro conjI m allI)
    fix mu p e r cs n s q
    show "let reply = App_ServeHTTP a mu p e r (cs, n, s, q); l = NewRateLimiter (rate_limit_config_of cfg) in
        rpResult reply = Returned () \<and> list_all zeroed (rpBuffers reply)
        \<and> (snd (snd (rpState reply)) \<noteq> (s, q) \<longrightarrow>
             reaches_hook (rqMethod r) p \<and> sourceAllowed l (sourceIP l r) \<and> admitted m e r n
             \<and> hook_body (r\<lparr>rqBody := bytes_NewReader (stream_bytes (rqBody r))\<rparr>) \<noteq> None)
        \<and> (reaches_hook (rqMethod r) p \<longrightarrow> (\<exists>attrs. last (rpObs reply) = LogAttrs ''request'' attrs
             \<and> AttrInt ''status'' (response_status (rpWrites reply)) \<in> set attrs))"
      using gate mux_other [of r p ?C info mu e "(cs, n, s, q)"]
      by (cases "reaches_hook (rqMethod r) p") (simp_all add: serve mux_hook Let_def)
  qed
qed

section \<open>What a valid configuration is good for\<close>

text \<open>The services outside give no error while the application is constructed.\<close>

definition services_answer :: "app_sdk \<Rightarrow> bool" where
  "services_answer sdk \<longleftrightarrow>
     (\<forall>s. asNewExporter sdk s = None) \<and> asMetricCredential sdk = None \<and> asBusCredential sdk = None
     \<and> (\<forall>t c s. asClientSecretCredential sdk t c s = None)
     \<and> (\<forall>s. sdkClientFromConnectionString (asBus sdk) s = None \<and> sdkClientFromNamespace (asBus sdk) s = None
            \<and> sdkNewSender (asBus sdk) s = None \<and> sdkNewReceiver (asBus sdk) s = None)
     \<and> (\<forall>s. rkCredential (asRedis sdk) s = None) \<and> rkTokenManager (asRedis sdk) = None \<and> rkStart (asRedis sdk) = None
     \<and> (\<forall>a t. rkPing (asRedis sdk) a t = None)
     \<and> (case asURLParse sdk defaultBaseURL of Inl e \<Rightarrow> False | Inr u \<Rightarrow> urlScheme u \<noteq> [] \<and> urlHost u \<noteq> [])
     \<and> (\<forall>key. length key = 32 \<longrightarrow> (\<exists>a. asGCM sdk key = Inr a))"

lemma Validate_None:
  "Validate U uuid c = None \<longleftrightarrow>
     ValidateSecretLoadingInputs c = None \<and> ValidateHTTP c = None \<and> validateServiceBus U c = None
     \<and> validateSyncStatus uuid c = None \<and> validateObservability c = None
     \<and> TrimSpace (cfPasswordEncryptionKeyB64 c) \<noteq> [] \<and> TrimSpace (cfPasswordEncryptionKeyID c) \<noteq> []
     \<and> TrimSpace (cfGraphTenantID c) \<noteq> [] \<and> TrimSpace (cfGraphClientID c) \<noteq> [] \<and> TrimSpace (cfGraphClientSecret c) \<noteq> []"
  by (auto simp: Validate_def first_error_None split: option.splits)

lemma ValidateHTTP_None:
  assumes "ValidateHTTP c = None"
  shows "TrimSpace (cfHMACSecret c) \<noteq> []" "0 < cfHMACClockSkew c" "0 < cfNonceTTL c" "0 < cfHookMaxBodyBytes c"
    "0 < cfRateLimitPerIP c" "0 < cfRateLimitWindow c"
    "rejectOverlappingCIDRs (cfTrustedProxyCIDRs c) (cfPortalAllowedCIDRs c) = None"
  using assms by (auto simp: ValidateHTTP_def split: if_splits option.splits)

lemma service_name_not_blank: "TrimSpace ''password-hook-service'' \<noteq> []"
  by code_simp

lemma observability_starts: "services_answer sdk \<Longrightarrow> \<exists>r evs. newObservabilityRuntime sdk cfg = (Inr r, evs)"
  using service_name_not_blank
  by (auto simp: newObservabilityRuntime_def SetupOTel_def services_answer_def Let_def newPeriodicMetricFlusher_def)

lemma ToLower_Nil [simp]: "ToLower U [] = []"
  by (simp add: ToLower_def is_ascii_def)

lemma service_bus_starts:
  "services_answer sdk \<Longrightarrow> validateServiceBus U cfg = None \<Longrightarrow> \<exists>r evs. newServiceBusRuntime sdk cfg = (Inr r, evs)"
  by (auto simp: validateServiceBus_def newServiceBusRuntime_def services_answer_def Let_def newConnectionStringServiceBusRuntime_def
      newManagedIdentityServiceBusRuntime_def NewFromConnectionString_def NewFromNamespace_def NewReceiverFromConnectionString_def
      NewReceiverFromNamespace_def NewDeadLetterQueueFromConnectionString_def NewDeadLetterQueueFromNamespace_def
      newClientFromConnectionString_def newClientFromNamespace_def open_on_client_def NewQueueWithClient_def
      NewDeadLetterQueueWithClient_def split: if_splits)

lemma sync_status_starts:
  assumes "services_answer sdk" and "validateSyncStatus (asUUID sdk) cfg = None"
    and "TrimSpace (cfAzureClientID cfg) = cfAzureClientID cfg"
  shows "\<exists>r evs. newSyncStatusRuntime sdk cfg = (Inr r, evs)"
  using assms
  by (auto simp: validateSyncStatus_def newSyncStatusRuntime_def services_answer_def Let_def NewManagedIdentityRedisStore_def
      validateRedisOptions_def validateRedisStoreOptions_def redis_options_of_def newStreamingCredentialsProvider_def
      newOwnedCredentialsProvider_def NewRedisStore_def redisPingTimeout_def second_ns_def split: if_splits)

text \<open>The steps after the handles are open need a key of 32 bytes, and nothing else.\<close>

lemma finish_starts:
  assumes "services_answer sdk" and "ValidateHTTP cfg = None" and "TrimSpace (cfPasswordEncryptionKeyID cfg) \<noteq> []"
  shows "(\<exists>a evs. finish_new sdk w info cfg bus store closers = (Inr a, evs) \<and> apWorker a \<noteq> None) \<longleftrightarrow>
    (\<exists>key. base64_DecodeString (cfPasswordEncryptionKeyB64 cfg) = Inr key \<and> length key = 32)"
proof -
  obtain u where u: "asURLParse sdk defaultBaseURL = Inr u" "urlScheme u \<noteq> []" "urlHost u \<noteq> []"
    using assms(1) by (auto simp: services_answer_def split: sum.splits)
  have kid: "cfPasswordEncryptionKeyID cfg \<noteq> []" using assms(3) by auto
  have secret: "asClientSecretCredential sdk t c s = None" for t c s using assms(1) by (simp add: services_answer_def)
  have gcm: "\<exists>a. asGCM sdk key = Inr a" if "length key = 32" for key using assms(1) that by (simp add: services_answer_def)
  have skew: "\<not> cfHMACClockSkew cfg \<le> 0" "\<not> cfHookMaxBodyBytes cfg < 0" using ValidateHTTP_None [OF assms(2)] by simp_all
  have wiring: "\<exists>a. newWithWorkerDependenciesWithSyncStatusAndRecorder sdk w info cfg (Some queue) True True True (Some codec)
      (Some store) cs = (Inr a, []) \<and> apWorker a \<noteq> None" for queue codec cs
    by (simp add: newWithWorkerDependenciesWithSyncStatusAndRecorder_def newWithQueueWithRecorder_def NewService_one
        NewHMACWithOptions_def ValidateHTTP_None [OF assms(2)] skew NewWorker_def app_worker_options_def Let_def)
  have codec: "isl (newPasswordCodec sdk cfg) \<longleftrightarrow>
      \<not> (\<exists>key. base64_DecodeString (cfPasswordEncryptionKeyB64 cfg) = Inr key \<and> length key = 32)"
    using gcm by (fastforce simp: newPasswordCodec_def NewCodecFromBase64_def kid split: sum.splits)
  show ?thesis
    using codec wiring [of "wiEnqueue w (brQueue bus)" _ "map Some closers"]
    by (cases "newPasswordCodec sdk cfg")
       (auto simp: finish_new_def secret NewHTTPClient_def u NewProcessorWithOptions_def Let_def split: prod.splits, metis)
qed

lemma starts_iff:
  assumes "services_answer sdk" and "TrimSpace (cfAzureClientID cfg) = cfAzureClientID cfg"
  shows "(\<exists>a evs. NewApp sdk w info cfg = (Inr a, evs) \<and> apWorker a \<noteq> None) \<longleftrightarrow>
     Validate (asUnicode sdk) (asUUID sdk) cfg = None
     \<and> (\<exists>key. base64_DecodeString (cfPasswordEncryptionKeyB64 cfg) = Inr key \<and> length key = 32)"
proof (cases "Validate (asUnicode sdk) (asUUID sdk) cfg")
  case (Some err)
  then show ?thesis by (simp add: NewApp_def)
next
  case None
  then have v: "ValidateHTTP cfg = None" "validateServiceBus (asUnicode sdk) cfg = None" "validateSyncStatus (asUUID sdk) cfg = None"
    "TrimSpace (cfPasswordEncryptionKeyID cfg) \<noteq> []" by (simp_all add: Validate_None)
  obtain rec cl evs1 where obs: "newObservabilityRuntime sdk cfg = (Inr (rec, cl), evs1)"
    using observability_starts [OF assms(1), of cfg] by auto
  obtain bus evs2 where bus: "newServiceBusRuntime sdk cfg = (Inr bus, evs2)"
    using service_bus_starts [OF assms(1) v(2)] by auto
  obtain store closer evs3 where store: "newSyncStatusRuntime sdk cfg = (Inr (store, closer), evs3)"
    using sync_status_starts [OF assms(1) v(3) assms(2)] by auto
  obtain closers where new: "NewApp sdk w info cfg =
      (case finish_new sdk w info cfg bus store closers of (res, evs4) \<Rightarrow> (res, evs1 @ evs2 @ evs3 @ evs4))"
    by (simp add: NewApp_def None obs bus store Let_def)
  show ?thesis
    unfolding new finish_starts [OF assms(1) v(1,4), of w info bus store closers, symmetric] None
    by (cases "finish_new sdk w info cfg bus store closers") simp
qed


text \<open>
  C13: with a validated configuration no address is both a trusted proxy and an allowed client.
  A peer in the allowed networks is therefore taken for itself, whatever forwarding headers it
  sends, and no request is ever attributed to the address of a proxy and let through.
\<close>

theorem allowed_peer_cannot_forge:
  assumes "Validate (asUnicode sdk) (asUUID sdk) cfg = None"
  defines "l \<equiv> NewRateLimiter (rate_limit_config_of cfg)"
  shows "(\<forall>peer. parseIPWithOptionalPort (rqRemoteAddr r) = Some peer \<and> sourceAllowed l peer \<longrightarrow> sourceIP l r = peer)
    \<and> (sourceAllowed l (sourceIP l r) \<longrightarrow> \<not> containsIP (rlTrustedProxyCIDRs l) (sourceIP l r))"
proof -
  have "rejectOverlappingCIDRs (cfTrustedProxyCIDRs cfg) (cfPortalAllowedCIDRs cfg) = None"
    using assms(1) by (simp add: Validate_None ValidateHTTP_None)
  note disj = disjoint_networks [OF this]
  show ?thesis
    by (auto simp: sourceIP_cases l_def NewRateLimiter_def rate_limit_config_of_def sourceAllowed_def dest: disj)
qed

section \<open>A deployment\<close>

text \<open>An environment with managed identity, Redis and a trusted proxy, and services that answer.\<close>

definition sample_env :: environment where
  "sample_env k = (case map_of
     [(''SECRETS_SOURCE'', ''env''), (''HOOK_HMAC_SECRET'', ''secret''), (''PORTAL_ALLOWED_CIDRS'', ''10.1.0.0/16''),
      (''TRUSTED_PROXY_CIDRS'', ''10.2.0.0/24''), (''DIRECT_CLIENT_MODE'', ''false''),
      (''SERVICEBUS_AUTH_MODE'', ''managed_identity''), (''SERVICEBUS_NAMESPACE_FQDN'', ''hook.servicebus.windows.net''),
      (''SYNC_STATUS_STORE'', ''redis''), (''REDIS_HOST'', ''hook.redis.azure.net''), (''REDIS_PORT'', ''10000''),
      (''AZURE_CLIENT_ID'', ''id''), (''PASSWORD_ENCRYPTION_KEY_B64'', ''AAAAAAAAAAAAAAAAAAAAAAAAAAAAAAAAAAAAAAAAAAA=''),
      (''GRAPH_TENANT_ID'', ''t''), (''GRAPH_CLIENT_ID'', ''c''), (''GRAPH_CLIENT_SECRET'', ''s'')] k of
     Some v \<Rightarrow> v | None \<Rightarrow> [])"

definition sample_sdk :: app_sdk where
  "sample_sdk =
     \<lparr>asUnicode = ascii_tables, asUUID = (\<lambda>s. s = ''id''), asQuote = (\<lambda>s. s), asNewExporter = (\<lambda>_. None), asShutdown = None,
      asFinalFlush = None, asMetricCredential = None, asBusCredential = None, asClientSecretCredential = (\<lambda>_ _ _. None),
      asBus = \<lparr>sdkClientFromConnectionString = (\<lambda>_. None), sdkClientFromNamespace = (\<lambda>_. None), sdkNewSender = (\<lambda>_. None),
               sdkNewReceiver = (\<lambda>_. None), sdkClose = (\<lambda>_. None)\<rparr>,
      asRedis = \<lparr>rkCredential = (\<lambda>_. None), rkTokenManager = None, rkStart = None, rkPing = (\<lambda>_ _. None), rkClose = (\<lambda>_. None)\<rparr>,
      asURLParse = (\<lambda>s. Inr \<lparr>urlScheme = ''https'', urlHost = ''graph.microsoft.com'', urlString = s\<rparr>),
      asGCM = (\<lambda>key. Inr \<lparr>aeadNonceSize = 12, aeadSeal = (\<lambda>n p a. p), aeadOpen = (\<lambda>n c a. None)\<rparr>)\<rparr>"

definition sample_wiring :: "(unit, password_sync_message list) wiring" where
  "sample_wiring =
     \<lparr>wiEnqueue = (\<lambda>_ q m. (q @ [m], None)), wiEncrypt = (\<lambda>_ p a. Inl (ErrorString ''closed'')),
      wiStatus = (\<lambda>_. \<lparr>opGet = (\<lambda>s k. Inl (ErrorString ''down'')), opMarkPending = (\<lambda>s k t. (s, None))\<rparr>)\<rparr>"

lemma sample_sdk_answers: "services_answer sample_sdk"
  by (simp add: services_answer_def sample_sdk_def)

lemma sample_validates: "Validate (asUnicode sample_sdk) (asUUID sample_sdk) (Load sample_env) = None"
  by code_simp

lemma sample_key:
  "base64_DecodeString (cfPasswordEncryptionKeyB64 (Load sample_env)) = Inr (replicate 32 0)"
  by code_simp

lemma sample_trimmed: "TrimSpace (cfAzureClientID (Load sample_env)) = cfAzureClientID (Load sample_env)"
  by code_simp

lemma sample_body_limit: "cfHookMaxBodyBytes (Load sample_env) < 2 ^ 63 - 1"
  by code_simp

lemma healthz_not_hook: "\<not> reaches_hook method ''/healthz''"
proof -
  have "path_segments ''/healthz'' \<noteq> hook_segments" by code_simp
  then show ?thesis by (simp add: reaches_hook_def)
qed

theorem only_authentic_requests_act_witness:
  "\<exists>a evs. NewApp sample_sdk sample_wiring (Current [] [] []) (Load sample_env) = (Inr a, evs)
     \<and> (\<forall>mu r cs n q. snd (snd (rpState (App_ServeHTTP a mu ''/healthz'' sample_http_env r (cs, n, (), q)))) = ((), q))"
proof -
  obtain a evs where app: "NewApp sample_sdk sample_wiring (Current [] [] []) (Load sample_env) = (Inr a, evs)"
    using starts_iff [OF sample_sdk_answers sample_trimmed, of sample_wiring "Current [] [] []"] sample_validates sample_key by auto
  from only_authentic_requests_act [OF app sample_body_limit] healthz_not_hook
  have "\<forall>mu r cs n q. snd (snd (rpState (App_ServeHTTP a mu ''/healthz'' sample_http_env r (cs, n, (), q)))) = ((), q)"
    unfolding Let_def by blast
  with app show ?thesis by blast
qed


definition sample_forged :: http_request where
  "sample_forged = (sample_post [])\<lparr>rqRemoteAddr := ''10.1.2.3:4711'', rqHeader := (\<lambda>k. if k = ''X-Forwarded-For'' then [''10.2.0.1''] else [])\<rparr>"

theorem allowed_peer_cannot_forge_witness:
  "sourceIP (NewRateLimiter (rate_limit_config_of (Load sample_env))) sample_forged = [10, 1, 2, 3]"
proof -
  have "parseIPWithOptionalPort (rqRemoteAddr sample_forged) = Some [10, 1, 2, 3]"
    "sourceAllowed (NewRateLimiter (rate_limit_config_of (Load sample_env))) [10, 1, 2, 3]" by code_simp+
  then show ?thesis using allowed_peer_cannot_forge [OF sample_validates, of sample_forged] by metis
qed

end
