(* ===== verification/App_Runtime.thy ===== *)
theory App_Runtime
  imports App
begin

text \<open>
  The goroutines of the running application (\<^verbatim>\<open>internal/app/app.go\<close>, \<^verbatim>\<open>internal/httpserver\<close>):
  server and worker under a common context, and the periodic flusher of metrics. Each is a step
  relation: one rule per action between two synchronisations, so that every interleaving of the
  goroutines is a sequence of steps. What the world decides (a signal, an error of the
  listener, a tick) is a rule without a cause in the program.
\<close>

section \<open>Server and worker\<close>

text \<open>
  Where \<^verbatim>\<open>Server.Run\<close> is: in its \<^verbatim>\<open>select\<close>, in \<^verbatim>\<open>Shutdown\<close>, waiting for the listener, or done with a
  result. The channel it waits on holds what \<^verbatim>\<open>ListenAndServe\<close> returned.
\<close>

datatype server_phase = Serving | ShuttingDown | AwaitListener | ServerDone "goerror option"

datatype worker_phase = WorkerRunning | WorkerDone "goerror option"

record run_state =
  rtParentDone :: bool
  rtCanceled :: bool
  rtServer :: server_phase
  rtListener :: "goerror option"
  rtWorker :: worker_phase
  rtErrCh :: "goerror option list"
  rtCompleted :: nat
  rtRuntimeErr :: "goerror option"
  rtReturned :: bool

definition run_start :: run_state where
  "run_start = \<lparr>rtParentDone = False, rtCanceled = False, rtServer = Serving, rtListener = None, rtWorker = WorkerRunning,
     rtErrCh = [], rtCompleted = 0, rtRuntimeErr = None, rtReturned = False\<rparr>"

definition ctx_done :: "run_state \<Rightarrow> bool" where
  "ctx_done s \<longleftrightarrow> rtParentDone s \<or> rtCanceled s"

definition server_sends :: "goerror option \<Rightarrow> run_state \<Rightarrow> run_state" where
  "server_sends err s = s\<lparr>rtServer := ServerDone err, rtErrCh := rtErrCh s @ [err]\<rparr>"

definition worker_sends :: "goerror option \<Rightarrow> run_state \<Rightarrow> run_state" where
  "worker_sends err s = s\<lparr>rtWorker := WorkerDone err, rtErrCh := rtErrCh s @ [err]\<rparr>"

text \<open>
  The steps the program takes by itself. After \<^verbatim>\<open>Shutdown\<close> was called \<^verbatim>\<open>ListenAndServe\<close> returns
  \<^verbatim>\<open>ErrServerClosed\<close>. The worker returns when the context is done. The channel has room for both
  results, so sending never blocks. The last two rules are the loop of \<^verbatim>\<open>runServerAndWorker\<close>.
\<close>

inductive run_step :: "run_state \<Rightarrow> run_state \<Rightarrow> bool" where
  listener_closed: "rtListener s = None \<Longrightarrow> rtServer s \<noteq> Serving \<Longrightarrow> run_step s (s\<lparr>rtListener := Some ErrServerClosed\<rparr>)"
| select_done: "rtServer s = Serving \<Longrightarrow> ctx_done s \<Longrightarrow> run_step s (s\<lparr>rtServer := ShuttingDown\<rparr>)"
| select_listener: "rtServer s = Serving \<Longrightarrow> rtListener s = Some err \<Longrightarrow>
    run_step s (server_sends (Server_Run False (Some err) None) s)"
| shutdown_fails: "rtServer s = ShuttingDown \<Longrightarrow>
    run_step s (server_sends (Server_Run True None (Some err)) s)"
| shutdown_ends: "rtServer s = ShuttingDown \<Longrightarrow> run_step s (s\<lparr>rtServer := AwaitListener\<rparr>)"
| listener_ends: "rtServer s = AwaitListener \<Longrightarrow> rtListener s = Some err \<Longrightarrow>
    run_step s (server_sends (Server_Run True (Some err) None) s)"
| worker_ends: "rtWorker s = WorkerRunning \<Longrightarrow> ctx_done s \<Longrightarrow> run_step s (worker_sends err s)"
| completion: "rtCompleted s < 2 \<Longrightarrow> rtErrCh s = err # errs \<Longrightarrow>
    run_step s (s\<lparr>rtErrCh := errs, rtCanceled := True, rtCompleted := rtCompleted s + 1,
      rtRuntimeErr := (if err \<noteq> None \<and> rtRuntimeErr s = None then err else rtRuntimeErr s)\<rparr>)"
| return: "rtCompleted s = 2 \<Longrightarrow> \<not> rtReturned s \<Longrightarrow> run_step s (s\<lparr>rtReturned := True, rtCanceled := True\<rparr>)"

text \<open>
  What comes from outside: the signal that ends the process, an error of the listener, an error
  that ends the worker.
\<close>

inductive outside_step :: "run_state \<Rightarrow> run_state \<Rightarrow> bool" where
  signal: "\<not> rtParentDone s \<Longrightarrow> outside_step s (s\<lparr>rtParentDone := True\<rparr>)"
| listener_fails: "rtListener s = None \<Longrightarrow> rtServer s \<in> {Serving, ShuttingDown} \<Longrightarrow> \<not> errors_Is err ErrServerClosed \<Longrightarrow>
    outside_step s (s\<lparr>rtListener := Some err\<rparr>)"
| worker_fails: "rtWorker s = WorkerRunning \<Longrightarrow> outside_step s (worker_sends (Some err) s)"

definition app_step :: "run_state \<Rightarrow> run_state \<Rightarrow> bool" where
  "app_step s s' \<longleftrightarrow> run_step s s' \<or> outside_step s s'"

inductive_cases run_stepE: "run_step s s'"
inductive_cases outside_stepE: "outside_step s s'"

text \<open>The worker returns nil only after it saw the context done or a sleep cut short.\<close>

definition saw_cancel :: "worker_env \<Rightarrow> bool" where
  "saw_cancel E \<longleftrightarrow> (\<exists>h. envCtxErr E h \<noteq> None) \<or> (\<exists>h d. envSleep E h d \<noteq> None)"

lemma batch_nil: "process_batch E J w h msgs = Stop None h' \<Longrightarrow> saw_cancel E"
  by (induction msgs arbitrary: h)
     (auto simp: process_batch.simps saw_cancel_def Let_def split: if_splits prod.splits outcome.splits option.splits)

lemma iteration_nil: "run_iteration E J w h = Stop None h' \<Longrightarrow> saw_cancel E"
  using batch_nil
  by (auto simp: run_iteration_def saw_cancel_def waitAfterEmptyReceive_def Let_def split: if_splits sum.splits)

lemma worker_nil_needs_cancel: "Run E J w n h = Some (Returned None, h') \<Longrightarrow> saw_cancel E"
  by (induction n arbitrary: h) (auto split: loop_step.splits dest: iteration_nil)

subsection \<open>Invariant\<close>

definition results :: "run_state \<Rightarrow> goerror option multiset" where
  "results s = (case rtServer s of ServerDone e \<Rightarrow> {#e#} | _ \<Rightarrow> {#})
     + (case rtWorker s of WorkerDone e \<Rightarrow> {#e#} | _ \<Rightarrow> {#})"

text \<open>
  The results received so far and those in the channel are the results of the goroutines that
  are done, and the error kept is the first that is not nil. Once a result was received the
  context is canceled. The server is done with nil only when its listener is.
\<close>

definition run_inv :: "run_state \<Rightarrow> bool" where
  "run_inv s \<longleftrightarrow>
     (\<exists>got. length got = rtCompleted s \<and> rtRuntimeErr s = first_error got \<and> mset got + mset (rtErrCh s) = results s)
     \<and> (0 < rtCompleted s \<longrightarrow> rtCanceled s) \<and> (rtReturned s \<longrightarrow> rtCompleted s = 2)
     \<and> (\<forall>e. rtServer s = ServerDone e \<longrightarrow> e \<noteq> None \<or> rtListener s \<noteq> None)"

lemma first_error_snoc: "first_error (es @ [e]) = (if e \<noteq> None \<and> first_error es = None then e else first_error es)"
  by (induction es) (auto split: option.splits)

lemma results_bound: "size (results s) \<le> 2"
  by (simp add: results_def split: server_phase.splits worker_phase.splits)

lemma inv_start: "run_inv run_start"
  by (simp add: run_inv_def run_start_def results_def)

lemma inv_sends:
  assumes "run_inv s"
  shows "(\<And>e'. rtServer s \<noteq> ServerDone e') \<Longrightarrow> e \<noteq> None \<or> rtListener s \<noteq> None \<Longrightarrow> run_inv (server_sends e s)"
    and "rtWorker s = WorkerRunning \<Longrightarrow> run_inv (worker_sends e s)"
  using assms by (auto simp: run_inv_def server_sends_def worker_sends_def results_def split: server_phase.splits worker_phase.splits)

lemma inv_completion:
  assumes "run_inv s" and "rtErrCh s = err # errs" and "rtCompleted s < 2"
  shows "run_inv (s\<lparr>rtErrCh := errs, rtCanceled := True, rtCompleted := rtCompleted s + 1,
      rtRuntimeErr := (if err \<noteq> None \<and> rtRuntimeErr s = None then err else rtRuntimeErr s)\<rparr>)"
proof -
  obtain got where "length got = rtCompleted s" "rtRuntimeErr s = first_error got" "mset got + mset (rtErrCh s) = results s"
    using assms(1) by (auto simp: run_inv_def)
  then have "length (got @ [err]) = rtCompleted s + 1"
    "(if err \<noteq> None \<and> rtRuntimeErr s = None then err else rtRuntimeErr s) = first_error (got @ [err])"
    "mset (got @ [err]) + mset errs = results s"
    using assms(2) by (simp_all add: first_error_snoc)
  then show ?thesis using assms(1,3) unfolding run_inv_def results_def by (auto intro: exI [of _ "got @ [err]"])
qed

lemma inv_run_step: "run_step s s' \<Longrightarrow> run_inv s \<Longrightarrow> run_inv s'"
proof (induction rule: run_step.induct)
  case (completion s err errs)
  then show ?case by (intro inv_completion)
qed (auto simp: Server_Run_def intro: inv_sends, auto simp: run_inv_def results_def)

lemma inv_outside_step: "outside_step s s' \<Longrightarrow> run_inv s \<Longrightarrow> run_inv s'"
proof (induction rule: outside_step.induct)
  case (worker_fails s err)
  then show ?case by (intro inv_sends(2))
qed (auto simp: run_inv_def results_def)

lemma inv_reachable: "app_step\<^sup>*\<^sup>* run_start s \<Longrightarrow> run_inv s"
  by (induction rule: rtranclp_induct) (auto simp: inv_start app_step_def intro: inv_run_step inv_outside_step)


text \<open>How many more steps there can be.\<close>

definition run_measure :: "run_state \<Rightarrow> nat" where
  "run_measure s = (if rtParentDone s then 0 else 1) + (if rtListener s = None then 1 else 0)
     + (case rtServer s of Serving \<Rightarrow> 3 | ShuttingDown \<Rightarrow> 2 | AwaitListener \<Rightarrow> 1 | ServerDone e \<Rightarrow> 0)
     + (if rtWorker s = WorkerRunning then 1 else 0) + (2 - rtCompleted s) + (if rtReturned s then 0 else 1)"

lemma run_step_measure: "run_step s s' \<Longrightarrow> run_measure s' < run_measure s"
  by (induction rule: run_step.induct) (simp_all add: run_measure_def server_sends_def worker_sends_def split: server_phase.splits)

lemma outside_step_measure: "outside_step s s' \<Longrightarrow> run_measure s' < run_measure s"
  by (induction rule: outside_step.induct) (simp_all add: run_measure_def worker_sends_def)

lemma steps_measure: "(app_step ^^ n) s s' \<Longrightarrow> run_measure s' + n \<le> run_measure s"
proof (induction n arbitrary: s')
  case (Suc n)
  then obtain u where "(app_step ^^ n) s u" "app_step u s'" by auto
  then have "run_measure u + n \<le> run_measure s" "run_measure s' < run_measure u"
    using Suc.IH run_step_measure outside_step_measure unfolding app_step_def by blast+
  then show ?case by simp
qed simp

text \<open>A state in which the program has no step is the initial one, or it has returned.\<close>

lemma stuck_server:
  assumes "\<And>s'. \<not> run_step s s'"
  shows "rtServer s = Serving \<and> rtListener s = None \<and> \<not> ctx_done s \<or> (\<exists>e. rtServer s = ServerDone e)"
proof (cases "rtServer s")
  case Serving
  then show ?thesis using assms select_done select_listener by (cases "rtListener s") blast+
next
  case AwaitListener
  then show ?thesis using assms listener_closed listener_ends by (cases "rtListener s") force+
qed (use assms shutdown_ends in blast)+

lemma stuck_is_start:
  assumes "run_inv s" and "\<And>s'. \<not> run_step s s'" and "\<not> rtReturned s"
  shows "s = run_start"
proof -
  have "rtErrCh s = [] \<or> \<not> rtCompleted s < 2" using assms(2) completion by (cases "rtErrCh s") blast+
  moreover have "rtCompleted s \<noteq> 2" using assms(2,3) return by blast
  moreover obtain got where got: "length got = rtCompleted s" "rtRuntimeErr s = first_error got" "mset got + mset (rtErrCh s) = results s"
    using assms(1) by (auto simp: run_inv_def)
  moreover have "rtCompleted s \<le> 2" using got(1,3) results_bound [of s] by (metis size_mset size_union le_trans le_add1)
  ultimately have c: "rtCompleted s < 2" "rtErrCh s = []" "size (results s) = rtCompleted s"
    by (auto, metis size_mset)
  have w: "rtWorker s = WorkerRunning \<Longrightarrow> \<not> ctx_done s" using assms(2) worker_ends by blast
  have canc: "0 < rtCompleted s \<Longrightarrow> ctx_done s" using assms(1) by (auto simp: run_inv_def ctx_done_def)
  from c(1,3) stuck_server [OF assms(2)] w canc
  have "rtServer s = Serving" "rtListener s = None" "rtWorker s = WorkerRunning" "\<not> ctx_done s" "rtCompleted s = 0"
    by (auto simp: results_def split: worker_phase.splits)
  then show ?thesis using got(1,2) c(2) assms(3) by (simp add: run_start_def ctx_done_def)
qed

text \<open>
  C18: \<^verbatim>\<open>runServerAndWorker\<close> comes to an end. There are at most nine steps in all, and from every
  state but the initial one, that is once a signal arrived, the listener failed or the worker
  failed, the program can go on by itself until it has returned: no goroutine waits for a
  message that never comes.
\<close>

theorem run_ends:
  "(\<forall>n s. (app_step ^^ n) run_start s \<longrightarrow> n \<le> 9)
   \<and> (\<forall>s. app_step\<^sup>*\<^sup>* run_start s \<and> s \<noteq> run_start \<and> \<not> rtReturned s \<longrightarrow> (\<exists>s'. run_step s s'))"
proof (intro conjI allI impI)
  fix n s
  assume "(app_step ^^ n) run_start s"
  from steps_measure [OF this] show "n \<le> 9" by (simp add: run_measure_def run_start_def)
next
  fix s
  assume "app_step\<^sup>*\<^sup>* run_start s \<and> s \<noteq> run_start \<and> \<not> rtReturned s"
  then show "\<exists>s'. run_step s s'" using stuck_is_start inv_reachable by blast
qed

text \<open>A run: a signal, the shutdown, the end of both goroutines.\<close>

definition sample_end :: run_state where
  "sample_end = \<lparr>rtParentDone = True, rtCanceled = True, rtServer = ServerDone None, rtListener = Some ErrServerClosed,
     rtWorker = WorkerDone None, rtErrCh = [], rtCompleted = 2, rtRuntimeErr = None, rtReturned = True\<rparr>"

lemma app_stepI: "run_step s s' \<Longrightarrow> t = s' \<Longrightarrow> app_step s t" "outside_step s s' \<Longrightarrow> t = s' \<Longrightarrow> app_step s t"
  by (simp_all add: app_step_def)

lemma errors_Is_closed: "errors_Is ErrServerClosed ErrServerClosed"
  by code_simp

lemma sample_run: "app_step\<^sup>*\<^sup>* run_start sample_end"
proof -
  let ?s1 = "run_start\<lparr>rtParentDone := True\<rparr>"
  let ?s2 = "?s1\<lparr>rtServer := ShuttingDown\<rparr>"
  let ?s3 = "?s2\<lparr>rtServer := AwaitListener\<rparr>"
  let ?s4 = "?s3\<lparr>rtListener := Some ErrServerClosed\<rparr>"
  let ?s5 = "server_sends (Server_Run True (Some ErrServerClosed) None) ?s4"
  let ?s6 = "worker_sends None ?s5"
  let ?s7 = "?s6\<lparr>rtErrCh := [None], rtCanceled := True, rtCompleted := 1\<rparr>"
  let ?s8 = "?s7\<lparr>rtErrCh := [], rtCompleted := 2\<rparr>"
  note defs = run_start_def ctx_done_def server_sends_def worker_sends_def Server_Run_def errors_Is_closed
  have "app_step run_start ?s1" by (rule app_stepI(2) [OF signal]) (simp_all add: defs)
  moreover have "app_step ?s1 ?s2" by (rule app_stepI(1) [OF select_done]) (simp_all add: defs)
  moreover have "app_step ?s2 ?s3" by (rule app_stepI(1) [OF shutdown_ends]) (simp_all add: defs)
  moreover have "app_step ?s3 ?s4" by (rule app_stepI(1) [OF listener_closed]) (simp_all add: defs)
  moreover have "app_step ?s4 ?s5" by (rule app_stepI(1) [OF listener_ends [where err = ErrServerClosed]]) (simp_all add: defs)
  moreover have "app_step ?s5 ?s6" by (rule app_stepI(1) [OF worker_ends]) (simp_all add: defs)
  moreover have "app_step ?s6 ?s7" by (rule app_stepI(1) [OF completion [where err = None and errs = "[None]"]]) (simp_all add: defs)
  moreover have "app_step ?s7 ?s8" by (rule app_stepI(1) [OF completion [where err = None and errs = "[]"]]) (simp_all add: defs)
  moreover have "app_step ?s8 sample_end" by (rule app_stepI(1) [OF return]) (simp_all add: defs sample_end_def)
  ultimately show ?thesis by (meson converse_rtranclp_into_rtranclp rtranclp.rtrancl_refl)
qed


theorem run_ends_witness: "\<exists>s'. run_step (run_start\<lparr>rtParentDone := True\<rparr>) s'"
proof -
  have "app_step\<^sup>*\<^sup>* run_start (run_start\<lparr>rtParentDone := True\<rparr>)"
    by (rule r_into_rtranclp, rule app_stepI(2) [OF signal]) (simp_all add: run_start_def)
  then show ?thesis using run_ends by (auto simp: run_start_def)
qed

section \<open>The periodic flusher\<close>

datatype flusher_phase = FlusherWaiting | FlusherFlushing | FlusherFinished

text \<open>A call of \<^verbatim>\<open>Close\<close>: not made, past \<^verbatim>\<open>once.Do\<close>, in the final flush, returned.\<close>

datatype close_phase = CloseIdle | CloseWaiting | CloseFlushing | CloseReturned

datatype flush_event = PeriodicFlush | FinalFlush nat

record flusher_state =
  fsTick :: bool
  fsStop :: bool
  fsDone :: bool
  fsOnce :: bool
  fsGoroutine :: flusher_phase
  fsCallers :: "nat \<Rightarrow> close_phase"
  fsStopCloses :: nat
  fsDoneCloses :: nat
  fsFlushes :: "flush_event list"
  fsWarnings :: "goerror list"

definition flusher_start :: flusher_state where
  "flusher_start = \<lparr>fsTick = False, fsStop = False, fsDone = False, fsOnce = False, fsGoroutine = FlusherWaiting,
     fsCallers = (\<lambda>_. CloseIdle), fsStopCloses = 0, fsDoneCloses = 0, fsFlushes = [], fsWarnings = []\<rparr>"

text \<open>\<^verbatim>\<open>flushWithTimeout\<close> after the flush: an error is logged and dropped.\<close>

definition flushWithTimeout :: "goerror option \<Rightarrow> flusher_state \<Rightarrow> flusher_state" where
  "flushWithTimeout err s = s\<lparr>fsWarnings := fsWarnings s @ (case err of Some e \<Rightarrow> [e] | None \<Rightarrow> [])\<rparr>"

text \<open>\<^verbatim>\<open>once.Do\<close> runs its function for the first caller only. Closing a closed channel would panic.\<close>

definition once_Do_close :: "flusher_state \<Rightarrow> flusher_state" where
  "once_Do_close s =
     (if fsOnce s then s else s\<lparr>fsOnce := True, fsStop := True, fsStopCloses := fsStopCloses s + 1\<rparr>)"

text \<open>
  \<^verbatim>\<open>run\<close> and any number of calls of \<^verbatim>\<open>Close\<close>. When a tick and the stop are both ready the \<^verbatim>\<open>select\<close>
  takes either.
\<close>

inductive flusher_step :: "flusher_state \<Rightarrow> flusher_state \<Rightarrow> bool" where
  run_tick: "fsGoroutine s = FlusherWaiting \<Longrightarrow> fsTick s \<Longrightarrow>
    flusher_step s (s\<lparr>fsTick := False, fsGoroutine := FlusherFlushing, fsFlushes := fsFlushes s @ [PeriodicFlush]\<rparr>)"
| run_flushed: "fsGoroutine s = FlusherFlushing \<Longrightarrow> flusher_step s (flushWithTimeout err s\<lparr>fsGoroutine := FlusherWaiting\<rparr>)"
| run_stop: "fsGoroutine s = FlusherWaiting \<Longrightarrow> fsStop s \<Longrightarrow>
    flusher_step s (s\<lparr>fsGoroutine := FlusherFinished, fsDone := True, fsDoneCloses := fsDoneCloses s + 1\<rparr>)"
| close_wait: "fsCallers s c = CloseWaiting \<Longrightarrow> fsDone s \<Longrightarrow>
    flusher_step s (s\<lparr>fsCallers := (fsCallers s)(c := CloseFlushing), fsFlushes := fsFlushes s @ [FinalFlush c]\<rparr>)"
| close_return: "fsCallers s c = CloseFlushing \<Longrightarrow> flusher_step s (s\<lparr>fsCallers := (fsCallers s)(c := CloseReturned)\<rparr>)"

inductive flusher_outside :: "flusher_state \<Rightarrow> flusher_state \<Rightarrow> bool" where
  tick: "flusher_outside s (s\<lparr>fsTick := True\<rparr>)"
| close_call: "fsCallers s c = CloseIdle \<Longrightarrow>
    flusher_outside s ((once_Do_close s)\<lparr>fsCallers := (fsCallers s)(c := CloseWaiting)\<rparr>)"

definition flusher_any :: "flusher_state \<Rightarrow> flusher_state \<Rightarrow> bool" where
  "flusher_any s s' \<longleftrightarrow> flusher_step s s' \<or> flusher_outside s s'"

fun final :: "flush_event \<Rightarrow> bool" where
  "final PeriodicFlush = False"
| "final (FinalFlush c) = True"

definition periodic_first :: "flush_event list \<Rightarrow> bool" where
  "periodic_first evs \<longleftrightarrow> (\<exists>n post. evs = replicate n PeriodicFlush @ post \<and> list_all final post)"

lemma periodic_first_snoc:
  "periodic_first evs \<Longrightarrow> periodic_first (evs @ [FinalFlush c])"
  "list_all (\<lambda>e. e = PeriodicFlush) evs \<Longrightarrow> periodic_first evs"
proof -
  assume "periodic_first evs"
  then obtain n post where "evs = replicate n PeriodicFlush @ post" "list_all final post" by (auto simp: periodic_first_def)
  then show "periodic_first (evs @ [FinalFlush c])"
    unfolding periodic_first_def by (intro exI [of _ n] exI [of _ "post @ [FinalFlush c]"]) simp
next
  assume "list_all (\<lambda>e. e = PeriodicFlush) evs"
  then have "evs = replicate (length evs) PeriodicFlush @ []" by (simp add: list_all_iff replicate_length_same)
  then show "periodic_first evs" unfolding periodic_first_def by (metis list.pred_inject(1))
qed

definition flusher_inv :: "flusher_state \<Rightarrow> bool" where
  "flusher_inv s \<longleftrightarrow>
     fsStop s = fsOnce s \<and> fsStopCloses s = of_bool (fsStop s) \<and> fsDone s = (fsGoroutine s = FlusherFinished)
     \<and> fsDoneCloses s = of_bool (fsDone s) \<and> (fsDone s \<longrightarrow> fsStop s)
     \<and> (\<forall>c. fsCallers s c \<noteq> CloseIdle \<longrightarrow> fsStop s)
     \<and> (\<forall>c. FinalFlush c \<in> set (fsFlushes s) \<longleftrightarrow> fsCallers s c = CloseFlushing \<or> fsCallers s c = CloseReturned)
     \<and> (\<forall>c. fsCallers s c \<in> {CloseFlushing, CloseReturned} \<longrightarrow> fsDone s)
     \<and> periodic_first (fsFlushes s) \<and> (\<not> fsDone s \<longrightarrow> list_all (\<lambda>e. e = PeriodicFlush) (fsFlushes s))
     \<and> distinct (filter final (fsFlushes s))"

lemma flusher_inv_start: "flusher_inv flusher_start"
  by (simp add: flusher_inv_def flusher_start_def periodic_first_def)

lemma flusher_inv_step: "flusher_step s s' \<Longrightarrow> flusher_inv s \<Longrightarrow> flusher_inv s'"
proof (induction rule: flusher_step.induct)
  case (run_tick s)
  then have "\<not> fsDone s" "list_all (\<lambda>e. e = PeriodicFlush) (fsFlushes s @ [PeriodicFlush])" by (auto simp: flusher_inv_def)
  with run_tick show ?case by (auto simp: flusher_inv_def intro: periodic_first_snoc(2))
next
  case (close_wait s c)
  then show ?case by (auto simp: flusher_inv_def periodic_first_snoc)
qed (auto simp: flusher_inv_def flushWithTimeout_def)

lemma flusher_inv_outside: "flusher_outside s s' \<Longrightarrow> flusher_inv s \<Longrightarrow> flusher_inv s'"
  by (induction rule: flusher_outside.induct) (auto simp: flusher_inv_def once_Do_close_def)

lemma flusher_inv_reachable: "flusher_any\<^sup>*\<^sup>* flusher_start s \<Longrightarrow> flusher_inv s"
  by (induction rule: rtranclp_induct)
     (auto simp: flusher_inv_start flusher_any_def intro: flusher_inv_step flusher_inv_outside)

text \<open>
  C34: however often and however concurrently the flusher is closed, the channel \<^verbatim>\<open>stop\<close> is closed
  at most once and so is \<^verbatim>\<open>done\<close>, the goroutine makes no flush after the first final one, a call of
  \<^verbatim>\<open>Close\<close> that returned found the goroutine finished and made its one flush, and as long as a
  call has not returned the program can go on.
\<close>

theorem flusher_closes_cleanly:
  assumes "flusher_any\<^sup>*\<^sup>* flusher_start s"
  shows "fsStopCloses s \<le> 1 \<and> fsDoneCloses s \<le> 1 \<and> periodic_first (fsFlushes s) \<and> distinct (filter final (fsFlushes s))
    \<and> (\<forall>c. fsCallers s c = CloseReturned \<longrightarrow> fsGoroutine s = FlusherFinished \<and> FinalFlush c \<in> set (fsFlushes s))
    \<and> (\<forall>c. fsCallers s c \<notin> {CloseIdle, CloseReturned} \<longrightarrow> (\<exists>s'. flusher_step s s'))"
proof -
  have inv: "flusher_inv s" by (rule flusher_inv_reachable [OF assms])
  have "\<exists>s'. flusher_step s s'" if "fsCallers s c \<notin> {CloseIdle, CloseReturned}" for c
  proof (cases "fsGoroutine s")
    case FlusherWaiting
    then show ?thesis using that inv run_stop unfolding flusher_inv_def by blast
  next
    case FlusherFlushing
    then show ?thesis using run_flushed by blast
  next
    case FlusherFinished
    then have "fsDone s" using inv by (simp add: flusher_inv_def)
    then show ?thesis using that close_wait close_return by (cases "fsCallers s c") blast+
  qed
  then show ?thesis using inv by (auto simp: flusher_inv_def)
qed

lemma flusher_anyI: "flusher_step s s' \<Longrightarrow> t = s' \<Longrightarrow> flusher_any s t" "flusher_outside s s' \<Longrightarrow> t = s' \<Longrightarrow> flusher_any s t"
  by (simp_all add: flusher_any_def)

text \<open>Two concurrent calls of \<^verbatim>\<open>Close\<close>, the first of which has returned.\<close>

definition sample_closed :: flusher_state where
  "sample_closed = flusher_start\<lparr>fsOnce := True, fsStop := True, fsStopCloses := 1, fsGoroutine := FlusherFinished, fsDone := True,
     fsDoneCloses := 1, fsCallers := (\<lambda>_. CloseIdle)(0 := CloseReturned, 1 := CloseWaiting), fsFlushes := [FinalFlush 0]\<rparr>"

lemma sample_closing: "flusher_any\<^sup>*\<^sup>* flusher_start sample_closed"
proof -
  let ?s1 = "(once_Do_close flusher_start)\<lparr>fsCallers := (\<lambda>_. CloseIdle)(0 := CloseWaiting)\<rparr>"
  let ?s2 = "(once_Do_close ?s1)\<lparr>fsCallers := (\<lambda>_. CloseIdle)(0 := CloseWaiting, 1 := CloseWaiting)\<rparr>"
  let ?s3 = "?s2\<lparr>fsGoroutine := FlusherFinished, fsDone := True, fsDoneCloses := 1\<rparr>"
  let ?s4 = "?s3\<lparr>fsCallers := (\<lambda>_. CloseIdle)(0 := CloseFlushing, 1 := CloseWaiting), fsFlushes := [FinalFlush 0]\<rparr>"
  note defs = flusher_start_def once_Do_close_def
  have "flusher_any flusher_start ?s1" by (rule flusher_anyI(2) [OF close_call [where c = 0]]) (simp_all add: defs)
  moreover have "flusher_any ?s1 ?s2" by (rule flusher_anyI(2) [OF close_call [where c = 1]]) (simp_all add: defs)
  moreover have "flusher_any ?s2 ?s3" by (rule flusher_anyI(1) [OF run_stop]) (simp_all add: defs)
  moreover have "flusher_any ?s3 ?s4" by (rule flusher_anyI(1) [OF close_wait [where c = 0]]) (simp_all add: defs fun_upd_twist)
  moreover have "flusher_any ?s4 sample_closed"
    by (rule flusher_anyI(1) [OF close_return [where c = 0]]) (simp_all add: defs sample_closed_def fun_upd_twist)
  ultimately show ?thesis by (meson converse_rtranclp_into_rtranclp rtranclp.rtrancl_refl)
qed

theorem flusher_closes_cleanly_witness:
  "fsCallers sample_closed 0 = CloseReturned \<and> fsGoroutine sample_closed = FlusherFinished \<and> (\<exists>s'. flusher_step sample_closed s')"
proof -
  have "fsCallers sample_closed 0 = CloseReturned" "fsCallers sample_closed 1 \<notin> {CloseIdle, CloseReturned}"
    by (simp_all add: sample_closed_def)
  then show ?thesis using flusher_closes_cleanly [OF sample_closing] by blast
qed

end
