(* ===== verification/Process.thy ===== *)
theory Process
  imports App_Properties App_Runtime Secret_Loader
begin

text \<open>
  The program \<^verbatim>\<open>cmd/server/main.go\<close>: reading the configuration, loading the secrets, building the
  application and running it, down to the exit status of the process.
\<close>

section \<open>The program\<close>

text \<open>The process ends with status 0, or with status 1 after logging a message and an error.\<close>

datatype process_end = ExitOK | ExitError string goerror

text \<open>
  \<open>interrupted\<close> and \<open>signaled\<close> say whether the signal context is done after loading and after
  \<^verbatim>\<open>Run\<close>; \<open>runtimeErr\<close> is what server and worker reported.
\<close>

definition main ::
  "key_vault_sdk \<Rightarrow> app_sdk \<Rightarrow> ('s, 'q) wiring \<Rightarrow> build_info \<Rightarrow> environment \<Rightarrow> bool \<Rightarrow> goerror option \<Rightarrow> bool
     \<Rightarrow> process_end \<times> res_event list" where
  "main kv sdk w info getenv interrupted runtimeErr signaled =
     (case Resolve kv (Load getenv) None of
        Inl err \<Rightarrow> if interrupted then (ExitOK, []) else (ExitError ''load configuration'' err, [])
      | Inr cfg \<Rightarrow>
          (case NewApp sdk w info cfg of
             (Inl err, evs) \<Rightarrow> (ExitError ''invalid configuration'' err, evs)
           | (Inr application, evs) \<Rightarrow>
               (case App_Run sdk application runtimeErr of
                  (Some err, evs') \<Rightarrow>
                    (if \<not> signaled then ExitError ''server stopped'' err else ExitOK, evs @ evs')
                | (None, evs') \<Rightarrow> (ExitOK, evs @ evs'))))"

section \<open>Without a signal there is an error\<close>

text \<open>
  As long as no signal arrived, the context is canceled only after an error was received; until
  then the server is serving or has failed, and every result in the channel is an error.
\<close>

definition unsignaled :: "run_state \<Rightarrow> bool" where
  "unsignaled s \<longleftrightarrow> (\<not> rtParentDone s \<longrightarrow>
     (if rtCanceled s then rtRuntimeErr s \<noteq> None
      else (rtServer s = Serving \<or> (\<exists>e. rtServer s = ServerDone (Some e)))
        \<and> (\<forall>e. rtServer s = Serving \<and> rtListener s = Some e \<longrightarrow> \<not> errors_Is e ErrServerClosed)
        \<and> None \<notin> set (rtErrCh s)))"

lemma unsignaled_run: "run_step s s' \<Longrightarrow> run_inv s \<Longrightarrow> unsignaled s \<Longrightarrow> unsignaled s'"
proof (induction rule: run_step.induct)
  case (return s)
  then show ?case by (auto simp: unsignaled_def run_inv_def)
qed (auto simp: unsignaled_def ctx_done_def server_sends_def worker_sends_def Server_Run_def split: if_splits)

lemma unsignaled_outside: "outside_step s s' \<Longrightarrow> unsignaled s \<Longrightarrow> unsignaled s'"
  by (induction rule: outside_step.induct) (auto simp: unsignaled_def worker_sends_def)

lemma unsignaled_reachable: "app_step\<^sup>*\<^sup>* run_start s \<Longrightarrow> unsignaled s"
proof (induction rule: rtranclp_induct)
  case (step s s')
  then show ?case using inv_reachable unsignaled_run unsignaled_outside unfolding app_step_def by blast
qed (simp add: unsignaled_def run_start_def)

text \<open>
  C19: the process reports success only if it was told to stop. If it ends with status 0, a
  signal arrived, while the configuration was loaded or before \<^verbatim>\<open>Run\<close> returned; a listener that
  cannot be opened or a worker that fails therefore always gives status 1. And on every path,
  all handles that were opened are closed when the process ends.
\<close>

theorem process_outcome:
  assumes "app_step\<^sup>*\<^sup>* run_start s" and "rtReturned s" and "rtParentDone s \<longrightarrow> signaled"
  shows "case main kv sdk w info getenv interrupted (rtRuntimeErr s) signaled of
    (exit, evs) \<Rightarrow> (exit = ExitOK \<longrightarrow> interrupted \<or> signaled) \<and> opened evs = Resources.closed evs"
proof -
  have err: "rtRuntimeErr s \<noteq> None" if "\<not> signaled"
  proof -
    have "\<not> rtParentDone s" using that assms(3) by blast
    moreover have "rtCanceled s" using inv_reachable [OF assms(1)] assms(2) by (simp add: run_inv_def)
    ultimately show ?thesis using unsignaled_reachable [OF assms(1)] by (simp add: unsignaled_def)
  qed
  have join: signaled if "errors_Join [rtRuntimeErr s, closeErr] = None" for closeErr
    using err that by (auto simp: errors_Join_def List.map_filter_def Let_def split: if_splits option.splits)
  show ?thesis
  proof (cases "Resolve kv (Load getenv) None")
    case (Inr cfg)
    then show ?thesis
      using app_owns [of sdk w info cfg]
      by (auto dest: join simp: main_def App_Run_def owned_def case_prod_beta closeAppResources_events split: sum.splits option.splits)
  qed (simp add: main_def)
qed

text \<open>A process whose port is taken: it ends with status 1.\<close>

definition port_taken :: goerror where "port_taken = ErrorString ''listen tcp :8080: bind: address already in use''"

definition sample_failed :: run_state where
  "sample_failed = \<lparr>rtParentDone = False, rtCanceled = True, rtServer = ServerDone (Some port_taken), rtListener = Some port_taken,
     rtWorker = WorkerDone None, rtErrCh = [], rtCompleted = 2, rtRuntimeErr = Some port_taken, rtReturned = True\<rparr>"

lemma sample_failing: "app_step\<^sup>*\<^sup>* run_start sample_failed"
proof -
  let ?s1 = "run_start\<lparr>rtListener := Some port_taken\<rparr>"
  let ?s2 = "server_sends (Some port_taken) ?s1"
  let ?s3 = "?s2\<lparr>rtErrCh := [], rtCanceled := True, rtCompleted := 1, rtRuntimeErr := Some port_taken\<rparr>"
  let ?s4 = "worker_sends None ?s3"
  let ?s5 = "?s4\<lparr>rtErrCh := [], rtCompleted := 2\<rparr>"
  have other: "\<not> errors_Is port_taken ErrServerClosed" by code_simp
  note defs = run_start_def ctx_done_def server_sends_def worker_sends_def Server_Run_def other
  have "app_step run_start ?s1" by (rule app_stepI(2) [OF listener_fails]) (simp_all add: defs)
  moreover have "app_step ?s1 ?s2"
    by (rule app_stepI(1) [OF select_listener [where err = port_taken]]) (simp_all add: defs)
  moreover have "app_step ?s2 ?s3"
    by (rule app_stepI(1) [OF completion [where err = "Some port_taken" and errs = "[]"]]) (simp_all add: defs)
  moreover have "app_step ?s3 ?s4" by (rule app_stepI(1) [OF worker_ends]) (simp_all add: defs)
  moreover have "app_step ?s4 ?s5"
    by (rule app_stepI(1) [OF completion [where err = None and errs = "[]"]]) (simp_all add: defs)
  moreover have "app_step ?s5 sample_failed" by (rule app_stepI(1) [OF return]) (simp_all add: defs sample_failed_def)
  ultimately show ?thesis by (meson converse_rtranclp_into_rtranclp rtranclp.rtrancl_refl)
qed

theorem process_outcome_witness:
  "case main sample_vault sample_sdk sample_wiring (Current [] [] []) sample_env False (Some port_taken) False of
     (exit, evs) \<Rightarrow> exit \<noteq> ExitOK \<and> opened evs = Resources.closed evs"
proof -
  have s: "rtReturned sample_failed" "\<not> rtParentDone sample_failed" "rtRuntimeErr sample_failed = Some port_taken"
    by (simp_all add: sample_failed_def)
  show ?thesis
    using process_outcome [OF sample_failing s(1), where signaled = False and interrupted = False and kv = sample_vault
        and sdk = sample_sdk and w = sample_wiring and info = "Current [] [] []" and getenv = sample_env] s
    by (auto split: prod.splits)
qed

end
