(* ===== verification/End_To_End.thy ===== *)
theory End_To_End
  imports Service_Bus
begin

text \<open>
  From the hook to Graph: the path of a password through \<^verbatim>\<open>Submit\<close>, the queue, the worker and the
  codec, put together from the components.
\<close>

section \<open>Blank and well-formed texts\<close>

lemma trim_front_keeps: "c \<in> set s \<Longrightarrow> \<forall>e \<in> set encs. c \<notin> set e \<Longrightarrow> c \<in> set (trim_front encs s)"
proof (induction encs s rule: trim_front.induct)
  case (1 encs s)
  show ?case
  proof (cases "find (\<lambda>e. e \<noteq> [] \<and> starts_with e s) encs")
    case None
    then show ?thesis using 1 by (simp add: trim_front.simps [of encs s])
  next
    case (Some e)
    then have "e \<in> set encs" "take (length e) s = e" by (auto simp: find_Some_iff starts_with_def)
    moreover have "set s = set (take (length e) s) \<union> set (drop (length e) s)" by (metis append_take_drop_id set_append)
    ultimately have "c \<in> set (drop (length e) s)" using 1 by auto
    then show ?thesis using 1 Some by (simp add: trim_front.simps [of encs s])
  qed
qed

lemma TrimSpace_keeps: "c \<in> set s \<Longrightarrow> \<forall>e \<in> set space_encodings. c \<notin> set e \<Longrightarrow> TrimSpace s \<noteq> []"
proof -
  assume "c \<in> set s" "\<forall>e \<in> set space_encodings. c \<notin> set e"
  then have "c \<in> set (trim_front space_encodings s)" by (rule trim_front_keeps)
  then have "c \<in> set (trim_front (map rev space_encodings) (rev (trim_front space_encodings s)))"
    using \<open>\<forall>e \<in> set space_encodings. c \<notin> set e\<close> by (intro trim_front_keeps) auto
  then show ?thesis by (auto simp: TrimSpace_def trim_back_def)
qed

lemma not_space:
  "\<forall>c \<in> set (CHR ''@'' # base64_alphabet). \<forall>e \<in> set space_encodings. c \<notin> set e"
  "\<forall>c \<in> set (CHR ''='' # base64_alphabet). ord c < 0x80"
  by code_simp+

lemma base64_char_alphabet: "i < 64 \<Longrightarrow> base64_char i \<in> set base64_alphabet"
  by (simp add: base64_char_def)

lemma base64_codes_alphabet:
  "\<forall>x \<in> set xs. x < 256 \<Longrightarrow> set (base64_codes xs) \<subseteq> set (CHR ''='' # base64_alphabet)
     \<and> (xs \<noteq> [] \<longrightarrow> hd (base64_codes xs) \<in> set base64_alphabet \<and> base64_codes xs \<noteq> [])"
proof (induction xs rule: base64_codes.induct)
  case (2 a)
  then show ?case using sextets [of a 0 0] by (simp add: base64_char_alphabet)
next
  case (3 a b)
  then show ?case using sextets [of a b 0] by (simp add: base64_char_alphabet)
next
  case (4 a b c rest)
  then show ?case using sextets [of a b c] by (simp add: base64_char_alphabet)
qed simp

lemma ascii_byte: "n < 0x80 \<Longrightarrow> (word_of_nat n :: byte) < 0x80"
  by (simp add: word_less_nat_alt unsigned_of_nat take_bit_eq_mod)

lemma ascii_valid_utf8: "\<forall>c \<in> set s. ord c < 0x80 \<Longrightarrow> valid_utf8 (bytes_of s)"
  by (induction s) (simp_all add: bytes_of_def ascii_byte)

lemma base64_text:
  "valid_utf8 (bytes_of (base64_EncodeToString bs))" "bs \<noteq> [] \<Longrightarrow> TrimSpace (base64_EncodeToString bs) \<noteq> []"
proof -
  have small: "\<forall>x \<in> set (map unat bs). x < 256" by (auto simp: unat_byte_less)
  note codes = base64_codes_alphabet [OF small]
  show "valid_utf8 (bytes_of (base64_EncodeToString bs))"
    using codes not_space(2) by (intro ascii_valid_utf8) (auto simp: base64_EncodeToString_def)
  assume "bs \<noteq> []"
  then have "hd (base64_codes (map unat bs)) \<in> set base64_alphabet" "hd (base64_codes (map unat bs)) \<in> set (base64_codes (map unat bs))"
    using codes by simp_all
  then show "TrimSpace (base64_EncodeToString bs) \<noteq> []"
    unfolding base64_EncodeToString_def using not_space(1) by (intro TrimSpace_keeps) auto
qed

section \<open>The worker on a message it can decrypt\<close>

definition only_command :: "password_sync_command \<Rightarrow> history \<Rightarrow> bool" where
  "only_command cmd new \<longleftrightarrow> Process cmd \<in> set new \<and> (\<forall>ev \<in> set new. is_process ev \<longrightarrow> ev = Process cmd)"

lemma attempts_process:
  assumes "process_attempts E msg k bs h = (r, h', bufs)" and "\<And>h. decrypts_to E h msg = Returned (Inr pt)"
  shows "\<exists>res new. r = Returned res \<and> h' = h @ new \<and> only_command (message_command msg pt) new"
  using assms(1)
proof (induction bs arbitrary: k h r h' bufs rule: length_induct)
  case (1 bs)
  let ?cmd = "message_command msg pt"
  have one: "only_command ?cmd ([decrypt_event msg, Process ?cmd] @ post)" if "\<forall>ev \<in> set post. is_process ev \<longrightarrow> ev = Process ?cmd" for post
    using that by (auto simp: only_command_def)
  from 1(2) show ?case
  proof (cases rule: process_attempts_cases)
    case (Retry pt' e d ds bufs')
    then have "pt' = pt" "length ds < length bs" using assms(2) [of h] by simp_all
    with 1(1) Retry(7) obtain res new where "r = Returned res" "h' = (h @ [decrypt_event msg, Process ?cmd, Sleep d]) @ new"
      "only_command ?cmd new" by blast
    then show ?thesis using one [of "Sleep d # new"] by (auto simp: only_command_def)
  next
    case (Done pt')
    then show ?thesis using assms(2) [of h] one [of "[]"] by simp
  next
    case (Permanent pt' e pe)
    then show ?thesis using assms(2) [of h] one [of "[]"] by simp
  next
    case (Exhausted pt' e)
    then show ?thesis using assms(2) [of h] one [of "[]"] by simp
  next
    case (Canceled pt' e d ds se)
    then show ?thesis using assms(2) [of h] one [of "[Sleep d]"] by simp
  qed (use assms(2) [of h] in simp_all)
qed

lemma observe_not_process: "list_all is_observe post \<Longrightarrow> ev \<in> set post \<Longrightarrow> \<not> is_process ev"
  by (auto simp: list_all_iff)

lemma processMessage_process:
  assumes "decodePasswordSyncMessage J msg = Inr sm" and "\<And>h. decrypts_to E h sm = Returned (Inr pt)"
  shows "\<exists>res new m bufs. processMessage E J w h msg = (Returned res, h @ new, m, bufs) \<and> only_command (message_command sm pt) new"
proof -
  obtain r h' m bufs where run: "processMessage E J w h msg = (r, h', m, bufs)" by (metis prod_cases4)
  have attempts: "\<exists>res new. r' = Returned res \<and> h1 = h @ new \<and> only_command (message_command sm pt) new"
    if "processPasswordSync E w h sm = (r', h1, bufs')" for r' h1 bufs'
    using that assms(2) unfolding processPasswordSync_def by (rule attempts_process)
  have combine: ?thesis if p: "processPasswordSync E w h sm = (Returned res, h1, bufs)" and "h' = h1 @ post" "r = Returned err"
    and none: "\<And>ev. ev \<in> set post \<Longrightarrow> \<not> is_process ev" for res h1 post err
  proof -
    obtain new where "h1 = h @ new" "only_command (message_command sm pt) new" using attempts [OF p] by blast
    then have "h' = h @ (new @ post)" "only_command (message_command sm pt) (new @ post)"
      using that(2) none by (auto simp: only_command_def)
    with run that(3) show ?thesis by blast
  qed
  from run show ?thesis
  proof (cases rule: processMessage_cases)
    case (Panic sm' p)
    then have "sm' = sm" using assms(1) by simp
    with Panic attempts [of "Panicked p"] show ?thesis by blast
  next
    case (Invalid err e new)
    then show ?thesis using assms(1) by simp
  next
    case (Synced sm' err h1 res post)
    then have "sm' = sm" using assms(1) by simp
    with Synced show ?thesis by (intro combine [of res h1 _ err]) (auto dest: observe_not_process)
  next
    case (Canceled sm' err h1 res post)
    then have "sm' = sm" using assms(1) by simp
    with Canceled show ?thesis by (intro combine [of res h1 _ err]) (auto dest: observe_not_process)
  next
    case (Failed sm' err h1 res new)
    then have "sm' = sm" using assms(1) by simp
    with Failed show ?thesis
      by (intro combine [of res h1 new err]) (auto simp: dead_lettered_def dest: observe_not_process)
  qed
qed

section \<open>From the hook to Graph\<close>

text \<open>What is relied on of AES-GCM beyond inversion: nonces and sealed texts are not empty.\<close>

definition cipher_ok :: "codec \<Rightarrow> (nat \<Rightarrow> goerror + byte list) \<Rightarrow> bool" where
  "cipher_ok c rand \<longleftrightarrow>
     aead_laws (codecAead c) \<and> 0 < aeadNonceSize (codecAead c)
     \<and> (\<forall>n p ad. length n = aeadNonceSize (codecAead c) \<longrightarrow> aeadSeal (codecAead c) n p ad \<noteq> [])
     \<and> (\<forall>n nonce. rand n = Inr nonce \<longrightarrow> length nonce = n)"

lemma Encrypt_Inr:
  assumes "Encrypt c ctx rand plaintext aad = Inr env" and "cipher_ok c rand"
  obtains nonce sealed where "nonce \<noteq> []" "sealed \<noteq> []"
    "env = \<lparr>envCiphertext = base64_EncodeToString sealed, envNonce = base64_EncodeToString nonce, envKeyID = codecKeyID c,
            envAlgorithm = AlgorithmAES256GCM\<rparr>"
proof -
  obtain nonce where n: "rand (aeadNonceSize (codecAead c)) = Inr nonce"
    and env: "env = \<lparr>envCiphertext = base64_EncodeToString (aeadSeal (codecAead c) nonce plaintext aad),
        envNonce = base64_EncodeToString nonce, envKeyID = codecKeyID c, envAlgorithm = AlgorithmAES256GCM\<rparr>"
    using assms(1) by (auto simp: Encrypt_def Let_def split: option.splits sum.splits)
  have "length nonce = aeadNonceSize (codecAead c)" using assms(2) n by (auto simp: cipher_ok_def)
  then have "nonce \<noteq> []" "aeadSeal (codecAead c) nonce plaintext aad \<noteq> []" using assms(2) by (auto simp: cipher_ok_def)
  then show thesis using env by (rule that)
qed

text \<open>The sealed message can be sent and is complete when the rest of it can be sent.\<close>

lemma algorithm_text: "valid_utf8 (bytes_of AlgorithmAES256GCM)" "TrimSpace AlgorithmAES256GCM \<noteq> []"
  by code_simp+

lemma sealed_sendable:
  assumes "Encrypt c ctx rand pw aad = Inr env" and "cipher_ok c rand" and "valid_utf8 (bytes_of (codecKeyID c))" and "sendable msg"
  shows "sendable (seal_message msg env)"
proof -
  obtain nonce sealed where "env = \<lparr>envCiphertext = base64_EncodeToString sealed, envNonce = base64_EncodeToString nonce,
      envKeyID = codecKeyID c, envAlgorithm = AlgorithmAES256GCM\<rparr>" by (rule Encrypt_Inr [OF assms(1,2)])
  then show ?thesis using assms(3,4) algorithm_text(1)
    by (auto simp: sendable_def message_members_def seal_message_def base64_text(1) split: if_splits)
qed

lemma sealed_complete:
  assumes "Encrypt c ctx rand pw aad = Inr env" and "cipher_ok c rand" and "TrimSpace (codecKeyID c) \<noteq> []"
    and "BuildUPN U (reqCN req) domain = Inr upn" and "now \<noteq> 0"
  shows "complete_message (seal_message (new_message req upn traceID now) env)"
proof -
  obtain nonce sealed where env: "nonce \<noteq> []" "sealed \<noteq> []" "env = \<lparr>envCiphertext = base64_EncodeToString sealed,
      envNonce = base64_EncodeToString nonce, envKeyID = codecKeyID c, envAlgorithm = AlgorithmAES256GCM\<rparr>"
    by (rule Encrypt_Inr [OF assms(1,2)])
  have cn: "TrimSpace (reqCN req) \<noteq> []" and "CHR ''@'' \<in> set upn"
    using assms(4) migratable_runes(1) by (auto simp: BuildUPN_Inr_iff)
  then have "TrimSpace upn \<noteq> []" using not_space(1) by (intro TrimSpace_keeps [of "CHR ''@''"]) auto
  with cn env base64_text(2) show ?thesis
    using assms(3,5) algorithm_text(2) by (simp add: complete_message_def seal_message_def new_message_def)
qed

lemma sealed_decrypts:
  assumes "Encrypt c None rand pw (passwordAAD (TrimSpace (reqCN req)) upn now) = Inr env" and "cipher_ok c rand"
    and "\<And>h env aad. envDecrypt E h env aad = Decrypt c None env aad"
  shows "decrypts_to E h (seal_message (new_message req upn traceID now) env) = Returned (Inr pw)"
  using Decrypt_Encrypt [OF _ _ assms(1)] assms(2,3)
  by (cases env) (simp add: decrypts_to_def message_envelope_def seal_message_def new_message_def PasswordAAD_def cipher_ok_def)

text \<open>
  C1: the password that is submitted is the password that reaches Graph. When \<^verbatim>\<open>Submit\<close> reports
  the request enqueued, one Service Bus message was sent; and whenever that message is
  delivered to a worker with the same key, the worker does not panic and calls the processor,
  at least once and each time with the submitted password, for the account of the request.
\<close>

theorem submitted_password_arrives:
  assumes cipher: "cipher_ok c rand" "valid_utf8 (bytes_of (codecKeyID c))" "TrimSpace (codecKeyID c) \<noteq> []"
    and svc: "svcQueue svc = Some (EnqueuePasswordSync send queue)" "svcEncrypter svc = Some (Encrypt c None rand)"
    and submit: "Submit U svc traceID now1 now2 s x req = (d, err, s', x', buf)" "decEnqueued d"
    and fields: "sendable (new_message req (decUPN d) traceID now2)" "now2 \<noteq> 0"
  shows "\<exists>sent. send x sent = (x', None) \<and>
    (\<forall>rm a E w h. delivered sent rm \<and> (\<forall>h env aad. envDecrypt E h env aad = Decrypt c None env aad) \<longrightarrow>
      (\<exists>res new m bufs. processMessage E encoding_json w h (Some (worker_message_of a rm)) = (Returned res, h @ new, m, bufs)
        \<and> only_command \<lparr>cmdCN = TrimSpace (reqCN req), cmdUPN = decUPN d, cmdTraceID = traceID, cmdPassword = reqPassword req,
             cmdDisplayName = TrimSpace (reqDisplayName req), cmdMail = TrimSpace (reqMail req), cmdEnqueuedAt = now2\<rparr> new))"
proof -
  obtain env where env: "Encrypt c None rand (reqPassword req) (passwordAAD (TrimSpace (reqCN req)) (decUPN d) now2) = Inr env"
    and enq: "EnqueuePasswordSync send queue x (seal_message (new_message req (decUPN d) traceID now2) env) = (x', None)"
    and upn: "BuildUPN U (reqCN req) (svcPrimaryDomain svc) = Inr (decUPN d)"
    by (rule Submit_enqueued [OF submit]) (use svc in simp)
  let ?msg = "seal_message (new_message req (decUPN d) traceID now2) env"
  obtain body where body: "unmarshal_message body = Inr ?msg" "send x (password_sync_sb_message queue ?msg body) = (x', None)"
    by (rule enqueue_sends [OF sealed_sendable [OF env cipher(1,2) fields(1)] enq])
  note decode = delivered_decodes [OF body(1) sealed_complete [OF env cipher(1,3) upn fields(2)]]
  have cmd: "message_command ?msg (reqPassword req) =
      \<lparr>cmdCN = TrimSpace (reqCN req), cmdUPN = decUPN d, cmdTraceID = traceID, cmdPassword = reqPassword req,
       cmdDisplayName = TrimSpace (reqDisplayName req), cmdMail = TrimSpace (reqMail req), cmdEnqueuedAt = now2\<rparr>"
    by (simp add: message_command_def seal_message_def new_message_def)
  show ?thesis
    unfolding cmd [symmetric]
    by (rule exI [of _ "password_sync_sb_message queue ?msg body"], intro conjI allI impI body(2) processMessage_process)
       (auto intro: decode sealed_decrypts [OF env cipher(1)])
qed

text \<open>A service whose queue and cipher are simple, and a password change.\<close>

definition sample_sending_service :: "(unit, sb_message list) service" where
  "sample_sending_service =
     \<lparr>svcPrimaryDomain = ''nycu.edu.tw'', svcQueue = Some (EnqueuePasswordSync (\<lambda>x m. (x @ [m], None)) sample_queue),
      svcEncrypter = Some (Encrypt sample_codec None sample_rand), svcStore = None, svcPendingTTL = 300\<rparr>"

lemma sample_submits:
  "decEnqueued (fst (Submit ascii_tables sample_sending_service ''t'' 5 6 () [] (sample_request ''password_change'')))"
  "decUPN (fst (Submit ascii_tables sample_sending_service ''t'' 5 6 () [] (sample_request ''password_change''))) = ''A12345@nycu.edu.tw''"
  "sendable (new_message (sample_request ''password_change'') ''A12345@nycu.edu.tw'' ''t'' 6)"
  by code_simp+

lemma sample_cipher: "cipher_ok sample_codec sample_rand"
  using plain_aead_laws by (auto simp: cipher_ok_def sample_codec_def sample_rand_def plain_aead_def)

lemma sample_key_id: "valid_utf8 (bytes_of (codecKeyID sample_codec))" "TrimSpace (codecKeyID sample_codec) \<noteq> []"
  by code_simp+

theorem submitted_password_arrives_witness:
  "\<exists>sent. \<forall>rm a E w h. delivered sent rm \<and> (\<forall>h env aad. envDecrypt E h env aad = Decrypt sample_codec None env aad) \<longrightarrow>
     (\<exists>res new m bufs. processMessage E encoding_json w h (Some (worker_message_of a rm)) = (Returned res, h @ new, m, bufs)
        \<and> (\<exists>cmd. only_command cmd new \<and> cmdUPN cmd = ''A12345@nycu.edu.tw'' \<and> cmdPassword cmd = [0x70, 0x77]))"
proof -
  obtain d err x' buf where submit:
    "Submit ascii_tables sample_sending_service ''t'' 5 6 () [] (sample_request ''password_change'') = (d, err, (), x', buf)"
    by (metis prod_cases5 old.unit.exhaust)
  have d: "decEnqueued d" "decUPN d = ''A12345@nycu.edu.tw''" using sample_submits(1,2) unfolding submit by simp_all
  have fields: "sendable (new_message (sample_request ''password_change'') (decUPN d) ''t'' 6)" using sample_submits(3) d(2) by simp
  have svc: "svcQueue sample_sending_service = Some (EnqueuePasswordSync (\<lambda>x m. (x @ [m], None)) sample_queue)"
    "svcEncrypter sample_sending_service = Some (Encrypt sample_codec None sample_rand)"
    by (simp_all add: sample_sending_service_def)
  have pw: "reqPassword (sample_request ''password_change'') = [0x70, 0x77]" by (simp add: sample_request_def)
  obtain sent where sent: "\<forall>rm a E w h. delivered sent rm \<and> (\<forall>h env aad. envDecrypt E h env aad = Decrypt sample_codec None env aad) \<longrightarrow>
     (\<exists>res new m bufs. processMessage E encoding_json w h (Some (worker_message_of a rm)) = (Returned res, h @ new, m, bufs)
        \<and> only_command \<lparr>cmdCN = TrimSpace (reqCN (sample_request ''password_change'')), cmdUPN = ''A12345@nycu.edu.tw'', cmdTraceID = ''t'',
             cmdPassword = [0x70, 0x77], cmdDisplayName = TrimSpace (reqDisplayName (sample_request ''password_change'')),
             cmdMail = TrimSpace (reqMail (sample_request ''password_change'')), cmdEnqueuedAt = 6\<rparr> new)"
    using submitted_password_arrives [OF sample_cipher sample_key_id svc submit d(1) fields, unfolded d(2) pw] by auto
  show ?thesis
    by (rule exI [of _ sent]) (use sent in fastforce)
qed

end
