(* ===== verification/Spec2Isabelle.thy ===== *)
theory Spec2Isabelle
  imports Graph_Processor Service_Bus Hook Hmac Rate_Limit Redis_Store Config Secret_Loader Logger Metrics Server
    App App_Properties App_Runtime Process End_To_End
begin

text \<open>Header.\<close>

end
